(* ===== verification/Prelude.thy ===== *)
theory Prelude
  imports Main "HOL-Library.Word" "HOL-Library.Sublist" "HOL-Library.Char_ord"
    "HOL-Library.List_Lexorder"
begin

text \<open>
  What the Go sources take from the language and from the packages \<^verbatim>\<open>strings\<close>,
  \<^verbatim>\<open>strconv\<close>, \<^verbatim>\<open>bufio\<close> and \<^verbatim>\<open>fmt\<close>, as functions on byte strings.
  A Go string is a list of \<open>char\<close>, one per byte. Text is treated as ASCII: the space
  characters are the six ASCII ones, and case conversion changes ASCII letters only.
  \<^verbatim>\<open>int\<close> is the 64-bit signed integer of both supported platforms: values are
  \<open>int\<close> and the conversions check or wrap at 64 bits.
\<close>

unbundle bit_operations_syntax

named_theorems go_simps \<open>unfolding rules for the Go library functions\<close>

type_synonym byte = "8 word"

section \<open>Strings\<close>

definition isSpace :: "char \<Rightarrow> bool" where
  "isSpace c \<longleftrightarrow> c = CHR '' '' \<or> (9 \<le> (of_char c :: nat) \<and> (of_char c :: nat) \<le> 13)"

definition isDigit :: "char \<Rightarrow> bool" where
  "isDigit c \<longleftrightarrow> 48 \<le> (of_char c :: nat) \<and> (of_char c :: nat) \<le> 57"

definition isLower :: "char \<Rightarrow> bool" where
  "isLower c \<longleftrightarrow> 97 \<le> (of_char c :: nat) \<and> (of_char c :: nat) \<le> 122"

definition isUpper :: "char \<Rightarrow> bool" where
  "isUpper c \<longleftrightarrow> 65 \<le> (of_char c :: nat) \<and> (of_char c :: nat) \<le> 90"

definition isAlnum :: "char \<Rightarrow> bool" where
  "isAlnum c \<longleftrightarrow> isDigit c \<or> isLower c \<or> isUpper c"

definition isHex :: "char \<Rightarrow> bool" where
  "isHex c \<longleftrightarrow> isDigit c
     \<or> (97 \<le> (of_char c :: nat) \<and> (of_char c :: nat) \<le> 102)
     \<or> (65 \<le> (of_char c :: nat) \<and> (of_char c :: nat) \<le> 70)"

definition toLowerC :: "char \<Rightarrow> char" where
  "toLowerC c = (if isUpper c then char_of ((of_char c :: nat) + 32) else c)"

definition toUpperC :: "char \<Rightarrow> char" where
  "toUpperC c = (if isLower c then char_of ((of_char c :: nat) - 32) else c)"

definition ToLower :: "string \<Rightarrow> string" where "ToLower s = map toLowerC s"
definition ToUpper :: "string \<Rightarrow> string" where "ToUpper s = map toUpperC s"

text \<open>\<^verbatim>\<open>[]byte(s)\<close>.\<close>

definition bytesOf :: "string \<Rightarrow> byte list" where "bytesOf s = map of_char s"

definition HasPrefix :: "string \<Rightarrow> string \<Rightarrow> bool" where
  "HasPrefix s p \<longleftrightarrow> take (length p) s = p"

definition TrimSpace :: "string \<Rightarrow> string" where
  "TrimSpace s = rev (dropWhile isSpace (rev (dropWhile isSpace s)))"

definition TrimLeft :: "string \<Rightarrow> string \<Rightarrow> string" where
  "TrimLeft s cutset = dropWhile (\<lambda>c. c \<in> set cutset) s"

text \<open>\<^verbatim>\<open>strings.Split\<close> and \<^verbatim>\<open>strings.SplitN\<close> with a one-character separator.\<close>

fun Split :: "char \<Rightarrow> string \<Rightarrow> string list" where
  "Split c [] = [[]]"
| "Split c (x # xs) =
     (if x = c then [] # Split c xs
      else (case Split c xs of [] \<Rightarrow> [[x]] | y # ys \<Rightarrow> (x # y) # ys))"

fun SplitN :: "char \<Rightarrow> nat \<Rightarrow> string \<Rightarrow> string list" where
  "SplitN c 0 s = []"
| "SplitN c (Suc 0) s = [s]"
| "SplitN c (Suc (Suc n)) s =
     (case dropWhile (\<lambda>x. x \<noteq> c) s of
        [] \<Rightarrow> [s]
      | _ # r \<Rightarrow> takeWhile (\<lambda>x. x \<noteq> c) s # SplitN c (Suc n) r)"

fun fieldsAux :: "string \<Rightarrow> string \<Rightarrow> string list" where
  "fieldsAux acc [] = (if acc = [] then [] else [rev acc])"
| "fieldsAux acc (x # xs) =
     (if isSpace x then (if acc = [] then fieldsAux [] xs else rev acc # fieldsAux [] xs)
      else fieldsAux (x # acc) xs)"

definition Fields :: "string \<Rightarrow> string list" where "Fields s = fieldsAux [] s"

fun Join :: "string list \<Rightarrow> string \<Rightarrow> string" where
  "Join [] sep = []"
| "Join [x] sep = x"
| "Join (x # y # ys) sep = x @ sep @ Join (y # ys) sep"

section \<open>Paths\<close>

text \<open>\<^verbatim>\<open>filepath.Clean\<close>, \<^verbatim>\<open>Base\<close>, \<^verbatim>\<open>Dir\<close>, \<^verbatim>\<open>Join\<close> and \<^verbatim>\<open>IsAbs\<close>.\<close>

definition IsAbs :: "string \<Rightarrow> bool" where
  "IsAbs p \<longleftrightarrow> p \<noteq> [] \<and> hd p = CHR ''/''"

text \<open>The components of a path with \<^verbatim>\<open>.\<close>, empty and \<^verbatim>\<open>..\<close> parts resolved;
  the first argument is the path so far, reversed.\<close>

fun cleanParts :: "bool \<Rightarrow> string list \<Rightarrow> string list \<Rightarrow> string list" where
  "cleanParts rooted st [] = rev st"
| "cleanParts rooted st (x # xs) =
     (if x = [] \<or> x = ''.'' then cleanParts rooted st xs
      else if x = ''..'' then
        (if st \<noteq> [] \<and> hd st \<noteq> ''..'' then cleanParts rooted (tl st) xs
         else if rooted then cleanParts rooted st xs
         else cleanParts rooted (x # st) xs)
      else cleanParts rooted (x # st) xs)"

definition Clean :: "string \<Rightarrow> string" where
  "Clean p =
     (let q = (if IsAbs p then ''/'' else []) @ Join (cleanParts (IsAbs p) [] (Split (CHR ''/'') p)) ''/''
      in if q = [] then ''.'' else q)"

definition filepath_Base :: "string \<Rightarrow> string" where
  "filepath_Base p =
     (if p = [] then ''.''
      else let s = rev (dropWhile (\<lambda>c. c = CHR ''/'') (rev p))
           in if s = [] then ''/'' else rev (takeWhile (\<lambda>c. c \<noteq> CHR ''/'') (rev s)))"

definition filepath_Dir :: "string \<Rightarrow> string" where
  "filepath_Dir p = Clean (rev (dropWhile (\<lambda>c. c \<noteq> CHR ''/'') (rev p)))"

definition filepath_Join :: "string list \<Rightarrow> string" where
  "filepath_Join xs =
     (let ys = filter (\<lambda>x. x \<noteq> []) xs in if ys = [] then [] else Clean (Join ys ''/''))"

section \<open>Numbers\<close>

definition digitChar :: "nat \<Rightarrow> char" where
  "digitChar d = (if d < 10 then char_of (48 + d) else char_of (87 + d))"

text \<open>Digits of a number in a base, most significant first; zero has one digit.\<close>

function digitsBase :: "nat \<Rightarrow> nat \<Rightarrow> nat list" where
  "digitsBase b n = (if b < 2 \<or> n < b then [n] else digitsBase b (n div b) @ [n mod b])"
  by pat_completeness auto
termination
  by (relation "measure snd") (auto intro: div_less_dividend)

declare digitsBase.simps [simp del]

definition showNat :: "nat \<Rightarrow> string" where
  "showNat n = map digitChar (digitsBase 10 n)"

definition showHex :: "nat \<Rightarrow> string" where
  "showHex n = map digitChar (digitsBase 16 n)"

text \<open>\<^verbatim>\<open>strconv.Itoa\<close> and the verb \<^verbatim>\<open>%d\<close>.\<close>

definition Itoa :: "int \<Rightarrow> string" where
  "Itoa i = (if i < 0 then CHR ''-'' # showNat (nat (- i)) else showNat (nat i))"

definition digitVal :: "char \<Rightarrow> nat" where
  "digitVal c =
     (if isDigit c then of_char c - 48
      else if isLower c then of_char c - 87 else of_char c - 55)"

definition readBase :: "nat \<Rightarrow> string \<Rightarrow> nat" where
  "readBase b s = foldl (\<lambda>n c. n * b + digitVal c) 0 s"

definition max_int64 :: int where "max_int64 = 9223372036854775807"
definition min_int64 :: int where "min_int64 = - 9223372036854775808"

text \<open>
  \<^verbatim>\<open>strconv.Atoi\<close> and \<^verbatim>\<open>strconv.ParseInt(s, 10, 64)\<close>: an optional sign, at least one
  decimal digit, nothing else, and the value in the range of \<^verbatim>\<open>int64\<close>.
\<close>

definition Atoi :: "string \<Rightarrow> int option" where
  "Atoi s =
     (let neg = (s \<noteq> [] \<and> hd s = CHR ''-'');
          ds = (if s \<noteq> [] \<and> (hd s = CHR ''-'' \<or> hd s = CHR ''+'') then tl s else s);
          v = (if neg then - int (readBase 10 ds) else int (readBase 10 ds))
      in if ds \<noteq> [] \<and> list_all isDigit ds \<and> min_int64 \<le> v \<and> v \<le> max_int64
         then Some v else None)"

text \<open>Two's complement wrap-around of a 64-bit result.\<close>

definition wrap64 :: "int \<Rightarrow> int" where
  "wrap64 i = (i + 2 ^ 63) mod 2 ^ 64 - 2 ^ 63"

section \<open>Line scanner\<close>

text \<open>
  \<^verbatim>\<open>bufio.Scanner\<close> with its default split function: the lines of the text without
  their newline and without one trailing carriage return; no line after a final newline. A line
  of 65536 bytes or more stops the scanner with \<^verbatim>\<open>ErrTooLong\<close> (the Boolean).
\<close>

definition dropCR :: "string \<Rightarrow> string" where
  "dropCR l = (if l \<noteq> [] \<and> last l = CHR 0x0D then butlast l else l)"

definition rawLines :: "string \<Rightarrow> string list" where
  "rawLines s = (let ls = Split (CHR 0x0A) s in if last ls = [] then butlast ls else ls)"

definition maxToken :: nat where "maxToken = 65536"

definition scanLines :: "string \<Rightarrow> string list \<times> bool" where
  "scanLines s =
     (let ls = rawLines s; ok = takeWhile (\<lambda>l. length l < maxToken) ls
      in (map dropCR ok, length ok < length ls))"

section \<open>Facts shared by the components\<close>

lemma digitsBase_less: "1 < b \<Longrightarrow> d \<in> set (digitsBase b n) \<Longrightarrow> d < b"
proof (induction b n rule: digitsBase.induct)
  case (1 b n)
  then show ?case by (cases "n < b") (auto simp: digitsBase.simps [of b n])
qed

lemma digitsBase_nonempty [simp]: "digitsBase b n \<noteq> []"
  by (subst digitsBase.simps) simp

lemma of_char_digitChar:
  "d < 36 \<Longrightarrow> (of_char (digitChar d) :: nat) = (if d < 10 then 48 + d else 87 + d)"
  by (simp add: digitChar_def)

lemma digitVal_digitChar: "d < 36 \<Longrightarrow> digitVal (digitChar d) = d"
  by (simp add: digitVal_def isDigit_def isLower_def of_char_digitChar)

lemma isDigit_digitChar: "d < 10 \<Longrightarrow> isDigit (digitChar d)"
  by (simp add: isDigit_def of_char_digitChar)

lemma readBase_append: "readBase b (s @ [c]) = readBase b s * b + digitVal c"
  by (simp add: readBase_def)

lemma readBase_digitsBase:
  "1 < b \<Longrightarrow> b \<le> 36 \<Longrightarrow> readBase b (map digitChar (digitsBase b n)) = n"
proof (induction b n rule: digitsBase.induct)
  case (1 b n)
  show ?case
  proof (cases "n < b")
    case True
    with 1 show ?thesis
      by (simp add: digitsBase.simps [of b n] readBase_def digitVal_digitChar)
  next
    case False
    with 1 have IH: "readBase b (map digitChar (digitsBase b (n div b))) = n div b" by simp
    from 1 have "n mod b < 36" by (meson less_le_trans mod_less_divisor less_trans zero_less_one)
    with 1 False IH show ?thesis
      by (simp add: digitsBase.simps [of b n] readBase_append digitVal_digitChar)
  qed
qed

lemma showNat_digits [simp]: "list_all isDigit (showNat n)"
  using digitsBase_less [of 10 _ n] by (auto simp: showNat_def list_all_iff isDigit_digitChar)

lemma showNat_nonempty [simp]: "showNat n \<noteq> []"
  by (simp add: showNat_def)

lemma readBase_showNat [simp]: "readBase 10 (showNat n) = n"
  by (simp add: showNat_def readBase_digitsBase)

lemma readBase_showHex [simp]: "readBase 16 (showHex n) = n"
  by (simp add: showHex_def readBase_digitsBase)

lemma showNat_inj [simp]: "showNat m = showNat n \<longleftrightarrow> m = n"
  by (metis readBase_showNat)

lemma length_digitsBase: "2 \<le> b \<Longrightarrow> 0 < k \<Longrightarrow> n < b ^ k \<Longrightarrow> length (digitsBase b n) \<le> k"
proof (induction k arbitrary: n)
  case (Suc k)
  show ?case
  proof (cases "n < b")
    case False
    then have "0 < k" using Suc.prems by (cases k) auto
    moreover have "n div b < b ^ k" using Suc.prems by (simp add: less_mult_imp_div_less mult.commute)
    ultimately have "length (digitsBase b (n div b)) \<le> k" using Suc.IH Suc.prems(1) by blast
    with False show ?thesis by (simp add: digitsBase.simps [of b n])
  qed (simp add: digitsBase.simps [of b n])
qed simp

lemma length_showNat: "0 < k \<Longrightarrow> n < 10 ^ k \<Longrightarrow> length (showNat n) \<le> k"
  by (simp add: showNat_def length_digitsBase)

lemma hd_showNat_not_sign: "hd (showNat n) \<noteq> CHR ''-''" "hd (showNat n) \<noteq> CHR ''+''"
proof -
  have "isDigit (hd (showNat n))"
    using showNat_digits [of n] showNat_nonempty [of n] by (metis hd_in_set list_all_iff)
  then show "hd (showNat n) \<noteq> CHR ''-''" "hd (showNat n) \<noteq> CHR ''+''"
    by (auto simp: isDigit_def)
qed

lemma Atoi_Itoa: "min_int64 \<le> i \<Longrightarrow> i \<le> max_int64 \<Longrightarrow> Atoi (Itoa i) = Some i"
  by (auto simp: Atoi_def Itoa_def Let_def hd_showNat_not_sign)

lemma Atoi_range: "Atoi s = Some i \<Longrightarrow> min_int64 \<le> i \<and> i \<le> max_int64"
  by (auto simp: Atoi_def Let_def split: if_splits)

lemma Itoa_inj: "Itoa i = Itoa j \<Longrightarrow> i = j"
  apply (auto simp: Itoa_def split: if_splits)
  apply (metis hd_showNat_not_sign list.sel(1))
  by (metis hd_showNat_not_sign list.sel(1))

lemma digitsBase_length: "1 < b \<Longrightarrow> n < b ^ k \<Longrightarrow> 0 < k \<Longrightarrow> length (digitsBase b n) \<le> k"
proof (induction b n arbitrary: k rule: digitsBase.induct)
  case (1 b n)
  show ?case
  proof (cases "n < b")
    case True
    with 1 show ?thesis by (simp add: digitsBase.simps [of b n] Suc_leI)
  next
    case False
    with 1 have "1 < k" by (metis One_nat_def less_one linorder_neqE_nat not_less0 power_one_right)
    then obtain j where k: "k = Suc j" "0 < j" by (metis gr0_implies_Suc less_trans zero_less_one nat_less_le less_Suc_eq_le One_nat_def Suc_lessE)
    with 1 have "n div b < b ^ j" by (simp add: less_mult_imp_div_less mult.commute)
    with 1 False k have "length (digitsBase b (n div b)) \<le> j" by simp
    with False 1 k show ?thesis by (simp add: digitsBase.simps [of b n])
  qed
qed

lemma Split_nonempty [simp]: "Split c s \<noteq> []"
  by (cases s) (auto split: list.splits)

lemma Join_Split: "Join (Split c s) [c] = s"
proof (induction s)
  case (Cons x xs)
  then show ?case by (cases "Split c xs") (auto, (case_tac list; simp)+)
qed simp

lemma Split_no_sep: "p \<in> set (Split c s) \<Longrightarrow> c \<notin> set p"
  by (induction s arbitrary: p) (auto split: if_splits list.splits)

lemma TrimSpace_no_space: "list_all (\<lambda>c. \<not> isSpace c) s \<Longrightarrow> TrimSpace s = s"
proof -
  assume a: "list_all (\<lambda>c. \<not> isSpace c) s"
  then have "dropWhile isSpace s = s" by (cases s) auto
  moreover have "dropWhile isSpace (rev s) = rev s"
    using a by (cases "rev s") (auto simp: list_all_iff simp flip: set_rev [of s])
  ultimately show ?thesis by (simp add: TrimSpace_def)
qed

lemma HasPrefix_prefix: "HasPrefix s p \<longleftrightarrow> prefix p s"
  unfolding HasPrefix_def prefix_def by (metis append_eq_conv_conj append_take_drop_id)

lemma SplitN_length: "length (SplitN c n s) \<le> n"
  by (induction c n s rule: SplitN.induct) (auto split: list.splits)

lemma wrap64_id: "min_int64 \<le> i \<Longrightarrow> i \<le> max_int64 \<Longrightarrow> wrap64 i = i"
  by (simp add: wrap64_def min_int64_def max_int64_def)

lemma digitChar_table [simp]:
  "digitChar 0 = CHR ''0''"
  "digitChar (Suc 0) = CHR ''1''"
  "digitChar 1 = CHR ''1''"
  "digitChar 2 = CHR ''2''"
  "digitChar 3 = CHR ''3''"
  "digitChar 4 = CHR ''4''"
  "digitChar 5 = CHR ''5''"
  "digitChar 6 = CHR ''6''"
  "digitChar 7 = CHR ''7''"
  "digitChar 8 = CHR ''8''"
  "digitChar 9 = CHR ''9''"
  "digitChar 10 = CHR ''a''"
  "digitChar 11 = CHR ''b''"
  "digitChar 12 = CHR ''c''"
  "digitChar 13 = CHR ''d''"
  "digitChar 14 = CHR ''e''"
  "digitChar 15 = CHR ''f''"
  by code_simp+

end
