(* ===== verification/OS.thy ===== *)
theory OS
  imports Prelude
begin

text \<open>
  The operating system as the programs see it. A call of the operating system, of the netlink,
  capability and seccomp packages or of a helper process is a value of \<open>syscall\<close>; the
  answers come from a \<open>kernel\<close>, a record of functions of everything that happened so far.
  No function of the record is defined here: it is the environment, and a theorem about a program
  holds for every kernel unless it names a hypothesis about it. A program of type \<open>'a io\<close>
  runs against a kernel, extends the trace of calls with their outcome and ends in an
  \<open>outcome\<close>: a value, a Go error, a panic, or the end of the process.
\<close>

section \<open>Errors\<close>

datatype (plugins only: code size) errno =
    EPERM | ENOENT | ENOEXEC | EACCES | EEXIST | EISDIR | EINVAL | ENOTEMPTY | Eother nat

text \<open>
  Go error values, with the dynamic types that the sources inspect: \<^verbatim>\<open>syscall.Errno\<close>,
  \<^verbatim>\<open>*os.PathError\<close>, \<^verbatim>\<open>*os.LinkError\<close>, \<^verbatim>\<open>*exec.ExitError\<close>,
  \<^verbatim>\<open>*exec.Error\<close>. A formatted error keeps its format, its arguments and the error it
  quotes; \<open>WithStack\<close> is the wrapper of \<^verbatim>\<open>github.com/pkg/errors\<close>, which hides
  the type of what it wraps.
\<close>

type_synonym waitstatus = "32 word"

datatype (plugins only: code size) gerror =
    Errorf string "string list"
  | ErrorfE string "string list" gerror
  | SysErrno errno
  | PathError string string errno
  | LinkError string string string errno
  | ExitError waitstatus
  | ExecError string errno
  | ExecNotFound string
  | ExtError string errno
  | ScanTooLong
  | WithStack gerror
  | Wrap string gerror

definition underlying :: "gerror \<Rightarrow> errno option" where
  "underlying e = (case e of
      SysErrno n \<Rightarrow> Some n | PathError _ _ n \<Rightarrow> Some n | LinkError _ _ _ n \<Rightarrow> Some n | _ \<Rightarrow> None)"

text \<open>\<^verbatim>\<open>os.IsNotExist\<close> and \<^verbatim>\<open>os.IsExist\<close> look through the \<^verbatim>\<open>os\<close> types only.\<close>

definition IsNotExist :: "gerror \<Rightarrow> bool" where
  "IsNotExist e \<longleftrightarrow> underlying e = Some ENOENT"

definition IsExist :: "gerror \<Rightarrow> bool" where
  "IsExist e \<longleftrightarrow> underlying e = Some EEXIST \<or> underlying e = Some ENOTEMPTY"

datatype 'a outcome = Ret 'a | Fail gerror | Panic string | Exit int

section \<open>Calls\<close>

datatype (plugins only: code size) fscall =
    Stat string | Lstat string | ReadFile string | ReadDir string | Glob string | Readdirnames string
  | MkdirAll string nat | Mkdir string nat | Remove string | RemoveAll string
  | Symlink string string | Readlink string | Chmod string nat | Chown string int int
  | WriteFile string string nat | Create string | OpenFile string | Chdir string | Getwd
  | MknodCall string int int | Umask

datatype (plugins only: code size) mntcall =
    MountCall string string string int string | UnmountCall string int
  | PivotRoot string string | ChrootCall string

type_synonym ip = "byte list"

text \<open>
  What the sources use of a netlink link: index, name, type, hardware address as text and MTU;
  of an address: its label, and the rest as an opaque text; of a route: its gateway.
\<close>

record link =
  link_Index :: int
  link_Name :: string
  link_Type :: string
  link_HardwareAddr :: string
  link_MTU :: int

record addr =
  addr_IPNet :: string
  addr_Label :: string

datatype (plugins only: code size) netcall =
    LinkList | AddrList int | RouteList int | AddrDel int addr | LinkSetDown int
  | LinkAddMacvtap string int | LinkByName string | LinkSetUp int | LinkSetName int string
  | AddrAdd int addr | LinkSetMTU int int | RouteAddGw ip | DialGw ip
  | LookupIP string | InterfaceAddrs

text \<open>
  \<open>StartProcess\<close> has the path, the arguments, the attributes that are set, and the open files that
  the child gets as its descriptors from 3 on.
\<close>

datatype (plugins only: code size) proccall =
    Setrlimit int int int | PrctlNoNewPrivs | Setgroups "int list" | Setgid int | Setuid int
  | ExecCall string "string list" "string list" | LookPath string | KillCall int int
  | Wait4 int | Wait4NoHang | SyncCall | RebootCall | Sethostname string
  | FinitModule string string | SetenvCall string string | Clearenv
  | StartProcess string "string list" "string list" "string list" | CombinedOutput "string list" | MakeRaw
  | PipeCall | PipeWrite "byte list" | PipeClose | SignalCall int int
  | LoopGetFree | LoopSetFd string string | LoopClrFd string
  | RandRead nat | Sleep nat | LogPrint string | ExitCall int
  | GoRoutine string | ListenCall string | ChanSend nat | ChanRecv | NotifySignals
  | CopyStream string | CloseFd string | ReadAllFd nat | DialCall string
  | ConnWrite string | ConnRead nat | TlsConfig string | IgnoreSignals | LockOSThread | OnceDo string
  | SelectCall string | SendMsg nat "byte list"
  | ConnSend string "byte list" | ConnRecv string nat

datatype (plugins only: code size) captype = EFFECTIVE | PERMITTED | INHERITABLE | BOUNDS

datatype (plugins only: code size) seccall =
    CapNewPid | CapClear | CapSet captype "nat list" | CapApply
  | NewFilter int | GetArchFromString string | AddArch nat | SetNoNewPrivsBit bool
  | GetSyscallFromName string | AddRule int int | MakeCondition nat nat nat nat
  | AddRuleConditional int int "(nat \<times> nat \<times> nat \<times> nat) list" | LoadFilter
  | KmodNew | KmodLoad string string | KmodUnload string

datatype (plugins only: code size) syscall = Fs fscall | Mnt mntcall | Net netcall | Proc proccall | Sec seccall

datatype (plugins only: code size) event = Done syscall | Failed syscall errno

type_synonym trace = "event list"

text \<open>The result of \<^verbatim>\<open>os.Stat\<close>: the kind of the file and its size.\<close>

datatype (plugins only: code size) fkind = FRegular | FDir | FDevice | FOther

record finfo =
  fi_kind :: fkind
  fi_size :: nat

text \<open>
  One answering function per type of answer. A file is read as its text and the error that cuts
  the reading short, if there is one.
\<close>

record kernel =
  k_do :: "trace \<Rightarrow> syscall \<Rightarrow> errno option"
  k_int :: "trace \<Rightarrow> syscall \<Rightarrow> errno + int"
  k_str :: "trace \<Rightarrow> syscall \<Rightarrow> errno + string"
  k_strs :: "trace \<Rightarrow> syscall \<Rightarrow> errno + string list"
  k_file :: "trace \<Rightarrow> string \<Rightarrow> errno + string \<times> errno option"
  k_stat :: "trace \<Rightarrow> string \<Rightarrow> errno + finfo"
  k_lstat :: "trace \<Rightarrow> string \<Rightarrow> errno + finfo"
  k_dirents :: "trace \<Rightarrow> string \<Rightarrow> errno + (string \<times> bool) list"
  k_links :: "trace \<Rightarrow> errno + link list"
  k_link :: "trace \<Rightarrow> string \<Rightarrow> errno + link"
  k_addrs :: "trace \<Rightarrow> int \<Rightarrow> errno + addr list"
  k_routes :: "trace \<Rightarrow> int \<Rightarrow> errno + ip option list"
  k_ips :: "trace \<Rightarrow> string \<Rightarrow> errno + ip list"
  k_cmd :: "trace \<Rightarrow> string list \<Rightarrow> string \<times> gerror option"

type_synonym 'a io = "kernel \<Rightarrow> trace \<Rightarrow> 'a outcome \<times> trace"

text \<open>A kernel that lets every call succeed with an empty answer: the base of concrete examples.\<close>

definition quiet_kernel :: kernel where
  "quiet_kernel = \<lparr>k_do = (\<lambda>t c. None), k_int = (\<lambda>t c. Inr 0), k_str = (\<lambda>t c. Inr []),
     k_strs = (\<lambda>t c. Inr []), k_file = (\<lambda>t p. Inr ([], None)),
     k_stat = (\<lambda>t p. Inl ENOENT), k_lstat = (\<lambda>t p. Inl ENOENT),
     k_dirents = (\<lambda>t p. Inr []), k_links = (\<lambda>t. Inr []), k_link = (\<lambda>t n. Inl ENOENT),
     k_addrs = (\<lambda>t i. Inr []), k_routes = (\<lambda>t i. Inr []), k_ips = (\<lambda>t h. Inr []),
     k_cmd = (\<lambda>t a. ([], None))\<rparr>"

text \<open>File modes, written in octal in the sources.\<close>

abbreviation mode0444 :: nat where "mode0444 \<equiv> 292"
abbreviation mode0600 :: nat where "mode0600 \<equiv> 384"
abbreviation mode0620 :: nat where "mode0620 \<equiv> 400"
abbreviation mode0644 :: nat where "mode0644 \<equiv> 420"
abbreviation mode0666 :: nat where "mode0666 \<equiv> 438"
abbreviation mode0700 :: nat where "mode0700 \<equiv> 448"
abbreviation mode0755 :: nat where "mode0755 \<equiv> 493"

section \<open>Sequencing\<close>

definition ret :: "'a \<Rightarrow> 'a io" where "ret a = (\<lambda>K t. (Ret a, t))"

definition fail :: "gerror \<Rightarrow> 'a io" where "fail e = (\<lambda>K t. (Fail e, t))"

definition panic :: "string \<Rightarrow> 'a io" where "panic s = (\<lambda>K t. (Panic s, t))"

definition bnd :: "'a io \<Rightarrow> ('a \<Rightarrow> 'b io) \<Rightarrow> 'b io" where
  "bnd m f = (\<lambda>K t. case m K t of
      (Ret a, t') \<Rightarrow> f a K t'
    | (Fail e, t') \<Rightarrow> (Fail e, t')
    | (Panic s, t') \<Rightarrow> (Panic s, t')
    | (Exit n, t') \<Rightarrow> (Exit n, t'))"

definition thn :: "'a io \<Rightarrow> 'b io \<Rightarrow> 'b io" where
  "thn m k = bnd m (\<lambda>_. k)"

definition whn :: "bool \<Rightarrow> unit io \<Rightarrow> unit io" where
  "whn b m = (if b then m else ret ())"

text \<open>A straight line of calls, each of which returns its error to the caller.\<close>

fun seqs :: "unit io list \<Rightarrow> unit io" where
  "seqs [] = ret ()"
| "seqs (m # ms) = thn m (seqs ms)"

text \<open>A \<^verbatim>\<open>for range\<close> loop whose body may return an error.\<close>

fun forE :: "'a list \<Rightarrow> ('a \<Rightarrow> unit io) \<Rightarrow> unit io" where
  "forE [] f = ret ()"
| "forE (x # xs) f = thn (f x) (forE xs f)"

text \<open>The error of a call as a value, for code that inspects or ignores it.\<close>

definition attempt :: "'a io \<Rightarrow> (gerror + 'a) io" where
  "attempt m = (\<lambda>K t. case m K t of
      (Ret a, t') \<Rightarrow> (Ret (Inr a), t')
    | (Fail e, t') \<Rightarrow> (Ret (Inl e), t')
    | (Panic s, t') \<Rightarrow> (Panic s, t')
    | (Exit n, t') \<Rightarrow> (Exit n, t'))"

definition ignore :: "'a io \<Rightarrow> unit io" where
  "ignore m = thn (attempt m) (ret ())"

definition mapErr :: "(gerror \<Rightarrow> gerror) \<Rightarrow> 'a io \<Rightarrow> 'a io" where
  "mapErr g m = bnd (attempt m) (\<lambda>r. case r of Inl e \<Rightarrow> fail (g e) | Inr a \<Rightarrow> ret a)"

text \<open>\<^verbatim>\<open>defer d\<close>: the deferred call runs when the function returns, also with an error
  or a panic, but not when the process is gone; its own error is dropped.\<close>

definition deferring :: "'a io \<Rightarrow> 'b io \<Rightarrow> 'a io" where
  "deferring m d = (\<lambda>K t. case m K t of
      (Exit n, t') \<Rightarrow> (Exit n, t')
    | (r, t') \<Rightarrow> (case d K t' of
          (Panic s, t'') \<Rightarrow> (Panic s, t'')
        | (Exit n, t'') \<Rightarrow> (Exit n, t'')
        | (_, t'') \<Rightarrow> (r, t'')))"

section \<open>Primitive calls\<close>

definition call :: "(errno \<Rightarrow> gerror) \<Rightarrow> syscall \<Rightarrow> unit io" where
  "call w c = (\<lambda>K t. case k_do K t c of
      None \<Rightarrow> (Ret (), t @ [Done c]) | Some e \<Rightarrow> (Fail (w e), t @ [Failed c e]))"

definition ask :: "(kernel \<Rightarrow> trace \<Rightarrow> errno + 'a) \<Rightarrow> (errno \<Rightarrow> gerror) \<Rightarrow> syscall \<Rightarrow> 'a io" where
  "ask q w c = (\<lambda>K t. case q K t of
      Inr a \<Rightarrow> (Ret a, t @ [Done c]) | Inl e \<Rightarrow> (Fail (w e), t @ [Failed c e]))"

text \<open>A call that cannot fail, such as \<^verbatim>\<open>log.Print\<close> or \<^verbatim>\<open>time.Sleep\<close>.\<close>

definition note_call :: "syscall \<Rightarrow> unit io" where
  "note_call c = (\<lambda>K t. (Ret (), t @ [Done c]))"

definition os_Stat :: "string \<Rightarrow> finfo io" where
  "os_Stat p = ask (\<lambda>K t. k_stat K t p) (PathError ''stat'' p) (Fs (Stat p))"

definition os_Lstat :: "string \<Rightarrow> finfo io" where
  "os_Lstat p = ask (\<lambda>K t. k_lstat K t p) (PathError ''lstat'' p) (Fs (Lstat p))"

definition os_Open :: "string \<Rightarrow> (string \<times> errno option) io" where
  "os_Open p = ask (\<lambda>K t. k_file K t p) (PathError ''open'' p) (Fs (ReadFile p))"

definition ioutil_ReadFile :: "string \<Rightarrow> string io" where
  "ioutil_ReadFile p = bnd (os_Open p) (\<lambda>(s, e).
      case e of None \<Rightarrow> ret s | Some n \<Rightarrow> fail (PathError ''read'' p n))"

definition ioutil_ReadDir :: "string \<Rightarrow> (string \<times> bool) list io" where
  "ioutil_ReadDir p = ask (\<lambda>K t. k_dirents K t p) (PathError ''open'' p) (Fs (ReadDir p))"

definition filepath_Glob :: "string \<Rightarrow> string list io" where
  "filepath_Glob p = ask (\<lambda>K t. k_strs K t (Fs (Glob p))) SysErrno (Fs (Glob p))"

definition os_MkdirAll :: "string \<Rightarrow> nat \<Rightarrow> unit io" where
  "os_MkdirAll p m = call (PathError ''mkdir'' p) (Fs (MkdirAll p m))"

definition os_Mkdir :: "string \<Rightarrow> nat \<Rightarrow> unit io" where
  "os_Mkdir p m = call (PathError ''mkdir'' p) (Fs (Mkdir p m))"

definition os_Remove :: "string \<Rightarrow> unit io" where
  "os_Remove p = call (PathError ''remove'' p) (Fs (Remove p))"

definition os_RemoveAll :: "string \<Rightarrow> unit io" where
  "os_RemoveAll p = call (PathError ''unlinkat'' p) (Fs (RemoveAll p))"

definition os_Symlink :: "string \<Rightarrow> string \<Rightarrow> unit io" where
  "os_Symlink old new = call (LinkError ''symlink'' old new) (Fs (Symlink old new))"

definition os_Chmod :: "string \<Rightarrow> nat \<Rightarrow> unit io" where
  "os_Chmod p m = call (PathError ''chmod'' p) (Fs (Chmod p m))"

definition os_Chown :: "string \<Rightarrow> int \<Rightarrow> int \<Rightarrow> unit io" where
  "os_Chown p u g = call (PathError ''chown'' p) (Fs (Chown p u g))"

definition os_Chdir :: "string \<Rightarrow> unit io" where
  "os_Chdir p = call (PathError ''chdir'' p) (Fs (Chdir p))"

definition os_Getwd :: "string io" where
  "os_Getwd = ask (\<lambda>K t. k_str K t (Fs Getwd)) SysErrno (Fs Getwd)"

definition os_Create :: "string \<Rightarrow> unit io" where
  "os_Create p = call (PathError ''open'' p) (Fs (Create p))"

definition os_OpenFile :: "string \<Rightarrow> unit io" where
  "os_OpenFile p = call (PathError ''open'' p) (Fs (OpenFile p))"

definition ioutil_WriteFile :: "string \<Rightarrow> string \<Rightarrow> nat \<Rightarrow> unit io" where
  "ioutil_WriteFile p s m = call (PathError ''open'' p) (Fs (WriteFile p s m))"

definition unix_Mount :: "string \<Rightarrow> string \<Rightarrow> string \<Rightarrow> int \<Rightarrow> string \<Rightarrow> unit io" where
  "unix_Mount src tgt fs fl d = call SysErrno (Mnt (MountCall src tgt fs fl d))"

definition unix_Unmount :: "string \<Rightarrow> int \<Rightarrow> unit io" where
  "unix_Unmount p fl = call SysErrno (Mnt (UnmountCall p fl))"

definition log_Print :: "string \<Rightarrow> unit io" where
  "log_Print s = note_call (Proc (LogPrint s))"

definition time_Sleep :: "nat \<Rightarrow> unit io" where
  "time_Sleep ms = note_call (Proc (Sleep ms))"

text \<open>\<^verbatim>\<open>exec.Command(...).CombinedOutput()\<close>: the output, and the error if the command failed.\<close>

definition exec_CombinedOutput :: "string list \<Rightarrow> (string \<times> gerror option) io" where
  "exec_CombinedOutput args = (\<lambda>K t. (Ret (k_cmd K t args), t @ [Done (Proc (CombinedOutput args))]))"

text \<open>\<^verbatim>\<open>log.Fatal\<close>: print and exit with code 1.\<close>

definition log_Fatal :: "string \<Rightarrow> 'a io" where
  "log_Fatal s = (\<lambda>K t. (Exit 1, t @ [Done (Proc (LogPrint s)), Done (Proc (ExitCall 1))]))"

text \<open>\<^verbatim>\<open>os.Exit\<close>: the process is gone, deferred calls do not run.\<close>

definition os_Exit :: "int \<Rightarrow> 'a io" where
  "os_Exit n = (\<lambda>K t. (Exit n, t @ [Done (Proc (ExitCall n))]))"

section \<open>Laws of sequencing\<close>

named_theorems io_defs \<open>the combinators, unfolded\<close>
named_theorems emits_intros \<open>footprint rules\<close>

declare ret_def [io_defs] fail_def [io_defs] panic_def [io_defs] bnd_def [io_defs]
  thn_def [io_defs] whn_def [io_defs] attempt_def [io_defs] ignore_def [io_defs]
  mapErr_def [io_defs] call_def [io_defs] ask_def [io_defs] note_call_def [io_defs]
  os_Exit_def [io_defs] deferring_def [io_defs]

lemma bnd_ret [simp]: "bnd (ret a) f = f a"
  by (simp add: io_defs fun_eq_iff)

lemma bnd_fail [simp]: "bnd (fail e) f = fail e"
  by (simp add: io_defs fun_eq_iff)

lemma thn_ret [simp]: "thn (ret a) k = k"
  by (simp add: thn_def)

lemma thn_fail [simp]: "thn (fail e) k = fail e"
  by (simp add: thn_def)

lemma bnd_assoc: "bnd (bnd m f) g = bnd m (\<lambda>x. bnd (f x) g)"
  by (simp add: io_defs fun_eq_iff split: prod.splits outcome.splits)

lemma ret_Ret_iff [simp]: "ret a K t = (Ret b, t') \<longleftrightarrow> b = a \<and> t' = t"
  by (auto simp: ret_def)

lemma fail_Ret_iff [simp]: "fail e K t = (Ret b, t') \<longleftrightarrow> False"
  by (simp add: fail_def)

lemma panic_Ret_iff [simp]: "panic s K t = (Ret b, t') \<longleftrightarrow> False"
  by (simp add: panic_def)

lemma os_Exit_Ret_iff [simp]: "os_Exit n K t = (Ret b, t') \<longleftrightarrow> False"
  by (simp add: os_Exit_def)

lemma log_Fatal_Ret_iff [simp]: "log_Fatal n K t = (Ret b, t') \<longleftrightarrow> False"
  by (simp add: log_Fatal_def)

lemma exec_CombinedOutput_Ret_iff:
  "exec_CombinedOutput args K t = (Ret b, t') \<longleftrightarrow>
     b = k_cmd K t args \<and> t' = t @ [Done (Proc (CombinedOutput args))]"
  by (auto simp: exec_CombinedOutput_def)

lemma bnd_Ret_iff:
  "bnd m f K t = (Ret b, t') \<longleftrightarrow> (\<exists>a u. m K t = (Ret a, u) \<and> f a K u = (Ret b, t'))"
  by (auto simp: bnd_def split: prod.splits outcome.splits)

lemma thn_Ret_iff:
  "thn m k K t = (Ret b, t') \<longleftrightarrow> (\<exists>a u. m K t = (Ret a, u) \<and> k K u = (Ret b, t'))"
  by (simp add: thn_def bnd_Ret_iff)

lemma call_Ret_iff:
  "call w c K t = (Ret b, t') \<longleftrightarrow> k_do K t c = None \<and> t' = t @ [Done c]"
  by (auto simp: call_def split: option.splits)

lemma ask_Ret_iff:
  "ask q w c K t = (Ret b, t') \<longleftrightarrow> q K t = Inr b \<and> t' = t @ [Done c]"
  by (auto simp: ask_def split: sum.splits)

lemma note_call_Ret_iff:
  "note_call c K t = (Ret b, t') \<longleftrightarrow> t' = t @ [Done c]"
  by (auto simp: note_call_def)

lemma attempt_Ret_iff:
  "attempt m K t = (Ret r, t') \<longleftrightarrow>
     (\<exists>a. r = Inr a \<and> m K t = (Ret a, t')) \<or> (\<exists>e. r = Inl e \<and> m K t = (Fail e, t'))"
  by (auto simp: attempt_def split: prod.splits outcome.splits)

lemma ignore_Ret_iff:
  "ignore m K t = (Ret u, t') \<longleftrightarrow> (\<exists>r. m K t = (r, t') \<and> (\<forall>s. r \<noteq> Panic s) \<and> (\<forall>n. r \<noteq> Exit n))"
  by (auto simp: ignore_def thn_def bnd_def attempt_def ret_def split: prod.splits outcome.splits)

lemma mapErr_Ret_iff [simp]: "mapErr g m K t = (Ret a, t') \<longleftrightarrow> m K t = (Ret a, t')"
  by (auto simp: io_defs split: prod.splits outcome.splits sum.splits)

lemma deferring_Ret_iff:
  "deferring m d K t = (Ret a, t') \<longleftrightarrow>
     (\<exists>u r. m K t = (Ret a, u) \<and> d K u = (r, t') \<and> (\<forall>s. r \<noteq> Panic s) \<and> (\<forall>n. r \<noteq> Exit n))"
  by (auto simp: deferring_def split: prod.splits outcome.splits)

lemmas io_Ret_iffs = bnd_Ret_iff thn_Ret_iff call_Ret_iff ask_Ret_iff note_call_Ret_iff
  attempt_Ret_iff ignore_Ret_iff mapErr_Ret_iff

lemma whn_Ret_iff:
  "whn b m K t = (Ret u, t') \<longleftrightarrow> (if b then m K t = (Ret u, t') else t' = t)"
  by (auto simp: whn_def)

section \<open>Footprints\<close>

text \<open>
  \<open>emits P m\<close>: whatever the kernel answers, \<open>m\<close> only extends the trace, and every call
  it makes satisfies \<open>P\<close>.
\<close>

fun ev_call :: "event \<Rightarrow> syscall" where
  "ev_call (Done c) = c"
| "ev_call (Failed c e) = c"

definition emits :: "(syscall \<Rightarrow> bool) \<Rightarrow> 'a io \<Rightarrow> bool" where
  "emits P m \<longleftrightarrow> (\<forall>K t. \<exists>es. snd (m K t) = t @ es \<and> list_all (\<lambda>e. P (ev_call e)) es)"

lemma emitsD:
  assumes "emits P m" and "m K t = (r, t')"
  obtains es where "t' = t @ es" and "list_all (\<lambda>e. P (ev_call e)) es"
  using assms unfolding emits_def by (metis snd_conv)

lemma emits_mono: "emits P m \<Longrightarrow> (\<And>c. P c \<Longrightarrow> Q c) \<Longrightarrow> emits Q m"
  unfolding emits_def by (metis (mono_tags, lifting) list_all_iff)

lemma emits_ret [emits_intros]: "emits P (ret a)"
  by (simp add: emits_def ret_def)

lemma emits_fail [emits_intros]: "emits P (fail e)"
  by (simp add: emits_def fail_def)

lemma emits_panic [emits_intros]: "emits P (panic s)"
  by (simp add: emits_def panic_def)

lemma emits_os_Exit [emits_intros]: "P (Proc (ExitCall n)) \<Longrightarrow> emits P (os_Exit n)"
  by (simp add: emits_def os_Exit_def)

lemma emits_log_Fatal [emits_intros]:
  "P (Proc (LogPrint s)) \<Longrightarrow> P (Proc (ExitCall 1)) \<Longrightarrow> emits P (log_Fatal s)"
  by (simp add: emits_def log_Fatal_def)

lemma emits_exec_CombinedOutput [emits_intros]:
  "P (Proc (CombinedOutput args)) \<Longrightarrow> emits P (exec_CombinedOutput args)"
  by (simp add: emits_def exec_CombinedOutput_def)

lemma emits_call [emits_intros]: "P c \<Longrightarrow> emits P (call w c)"
  by (simp add: emits_def call_def split: option.splits)

lemma emits_ask [emits_intros]: "P c \<Longrightarrow> emits P (ask q w c)"
  by (simp add: emits_def ask_def split: sum.splits)

lemma emits_note_call [emits_intros]: "P c \<Longrightarrow> emits P (note_call c)"
  by (simp add: emits_def note_call_def)

lemma emits_bnd [emits_intros]:
  assumes m: "emits P m" and f: "\<And>a. emits P (f a)"
  shows "emits P (bnd m f)"
  unfolding emits_def
proof (intro allI)
  fix K t
  obtain r u where mu: "m K t = (r, u)" by force
  with m obtain es where es: "u = t @ es" "list_all (\<lambda>e. P (ev_call e)) es" by (rule emitsD)
  show "\<exists>es. snd (bnd m f K t) = t @ es \<and> list_all (\<lambda>e. P (ev_call e)) es"
  proof (cases r)
    case (Ret a)
    obtain r' v where fv: "f a K u = (r', v)" by force
    with f obtain es' where "v = u @ es'" "list_all (\<lambda>e. P (ev_call e)) es'" by (rule emitsD)
    with es mu Ret fv show ?thesis by (auto simp: bnd_def)
  qed (use mu es in \<open>auto simp: bnd_def\<close>)
qed

lemma emits_thn [emits_intros]: "emits P m \<Longrightarrow> emits P k \<Longrightarrow> emits P (thn m k)"
  by (simp add: thn_def emits_bnd)

lemma emits_whn [emits_intros]: "(b \<Longrightarrow> emits P m) \<Longrightarrow> emits P (whn b m)"
  by (auto simp: whn_def emits_ret)

lemma emits_attempt [emits_intros]: "emits P m \<Longrightarrow> emits P (attempt m)"
  unfolding emits_def attempt_def
  by (auto split: prod.splits outcome.splits) (metis snd_conv)+

lemma emits_ignore [emits_intros]: "emits P m \<Longrightarrow> emits P (ignore m)"
  by (simp add: ignore_def emits_thn emits_attempt emits_ret)

lemma emits_mapErr [emits_intros]: "emits P m \<Longrightarrow> emits P (mapErr g m)"
  by (auto simp: mapErr_def intro!: emits_bnd emits_attempt emits_ret emits_fail split: sum.split)

lemma emits_deferring [emits_intros]:
  assumes m: "emits P m" and d: "emits P d"
  shows "emits P (deferring m d)"
  unfolding emits_def
proof (intro allI)
  fix K t
  obtain r u where mu: "m K t = (r, u)" by force
  with m obtain es where es: "u = t @ es" "list_all (\<lambda>e. P (ev_call e)) es" by (rule emitsD)
  obtain r' v where dv: "d K u = (r', v)" by force
  with d obtain es' where "v = u @ es'" "list_all (\<lambda>e. P (ev_call e)) es'" by (rule emitsD)
  with es mu dv show "\<exists>es. snd (deferring m d K t) = t @ es \<and> list_all (\<lambda>e. P (ev_call e)) es"
    by (cases r; cases r') (auto simp: deferring_def)
qed

lemma emits_forE [emits_intros]: "(\<And>x. x \<in> set xs \<Longrightarrow> emits P (f x)) \<Longrightarrow> emits P (forE xs f)"
  by (induction xs) (auto intro: emits_intros)

lemma emits_seqs [emits_intros]: "(\<And>m. m \<in> set ms \<Longrightarrow> emits P m) \<Longrightarrow> emits P (seqs ms)"
  by (induction ms) (auto intro: emits_intros)

lemma emits_if [emits_intros]: "(b \<Longrightarrow> emits P m) \<Longrightarrow> (\<not> b \<Longrightarrow> emits P n) \<Longrightarrow> emits P (if b then m else n)"
  by simp

lemma emits_case_option [emits_intros]:
  "(x = None \<Longrightarrow> emits P m) \<Longrightarrow> (\<And>y. x = Some y \<Longrightarrow> emits P (f y)) \<Longrightarrow>
     emits P (case x of None \<Rightarrow> m | Some y \<Rightarrow> f y)"
  by (cases x) auto

lemma emits_case_sum [emits_intros]:
  "(\<And>e. x = Inl e \<Longrightarrow> emits P (g e)) \<Longrightarrow> (\<And>y. x = Inr y \<Longrightarrow> emits P (f y)) \<Longrightarrow>
     emits P (case x of Inl e \<Rightarrow> g e | Inr y \<Rightarrow> f y)"
  by (cases x) auto

lemma emits_case_prod [emits_intros]:
  "(\<And>a b. x = (a, b) \<Longrightarrow> emits P (f a b)) \<Longrightarrow> emits P (case x of (a, b) \<Rightarrow> f a b)"
  by (cases x) auto

lemma emits_case_list [emits_intros]:
  "(x = [] \<Longrightarrow> emits P m) \<Longrightarrow> (\<And>y ys. x = y # ys \<Longrightarrow> emits P (f y ys)) \<Longrightarrow>
     emits P (case x of [] \<Rightarrow> m | y # ys \<Rightarrow> f y ys)"
  by (cases x) auto

lemma emits_os_Stat [emits_intros]: "P (Fs (Stat p)) \<Longrightarrow> emits P (os_Stat p)"
  by (simp add: os_Stat_def emits_ask)

lemma emits_os_Lstat [emits_intros]: "P (Fs (Lstat p)) \<Longrightarrow> emits P (os_Lstat p)"
  by (simp add: os_Lstat_def emits_ask)

lemma emits_os_Open [emits_intros]: "P (Fs (ReadFile p)) \<Longrightarrow> emits P (os_Open p)"
  by (simp add: os_Open_def emits_ask)

lemma emits_ioutil_ReadFile [emits_intros]: "P (Fs (ReadFile p)) \<Longrightarrow> emits P (ioutil_ReadFile p)"
  by (auto simp: ioutil_ReadFile_def intro!: emits_intros)

lemma emits_log_Print [emits_intros]: "P (Proc (LogPrint s)) \<Longrightarrow> emits P (log_Print s)"
  by (simp add: log_Print_def emits_note_call)

lemma emits_time_Sleep [emits_intros]: "P (Proc (Sleep n)) \<Longrightarrow> emits P (time_Sleep n)"
  by (simp add: time_Sleep_def emits_note_call)

lemma emits_os_calls [emits_intros]:
  "P (Fs (MkdirAll p m)) \<Longrightarrow> emits P (os_MkdirAll p m)"
  "P (Fs (Mkdir p m)) \<Longrightarrow> emits P (os_Mkdir p m)"
  "P (Fs (Remove p)) \<Longrightarrow> emits P (os_Remove p)"
  "P (Fs (RemoveAll p)) \<Longrightarrow> emits P (os_RemoveAll p)"
  "P (Fs (Symlink p q)) \<Longrightarrow> emits P (os_Symlink p q)"
  "P (Fs (Chmod p m)) \<Longrightarrow> emits P (os_Chmod p m)"
  "P (Fs (Chown p u g)) \<Longrightarrow> emits P (os_Chown p u g)"
  "P (Fs (Chdir p)) \<Longrightarrow> emits P (os_Chdir p)"
  "P (Fs Getwd) \<Longrightarrow> emits P os_Getwd"
  "P (Fs (Create p)) \<Longrightarrow> emits P (os_Create p)"
  "P (Fs (OpenFile p)) \<Longrightarrow> emits P (os_OpenFile p)"
  "P (Fs (WriteFile p s m)) \<Longrightarrow> emits P (ioutil_WriteFile p s m)"
  "P (Fs (ReadDir p)) \<Longrightarrow> emits P (ioutil_ReadDir p)"
  "P (Fs (Glob p)) \<Longrightarrow> emits P (filepath_Glob p)"
  "P (Mnt (MountCall src tgt fs fl d)) \<Longrightarrow> emits P (unix_Mount src tgt fs fl d)"
  "P (Mnt (UnmountCall p fl)) \<Longrightarrow> emits P (unix_Unmount p fl)"
  by (simp_all add: os_MkdirAll_def os_Mkdir_def os_Remove_def os_RemoveAll_def os_Symlink_def
      os_Chmod_def os_Chown_def os_Chdir_def os_Getwd_def os_Create_def os_OpenFile_def
      ioutil_WriteFile_def ioutil_ReadDir_def filepath_Glob_def unix_Mount_def unix_Unmount_def
      emits_call emits_ask)

text \<open>A program that returned extended the trace by calls of its footprint.\<close>

lemma emits_Ret_trace:
  assumes "emits P m" and "m K t = (Ret a, t')"
  obtains es where "t' = t @ es" and "list_all (\<lambda>e. P (ev_call e)) es"
  using assms by (rule emitsD)

section \<open>Loops\<close>

lemma forE_append: "forE (xs @ ys) f = thn (forE xs f) (forE ys f)"
  by (induction xs) (simp_all add: thn_def bnd_assoc)

text \<open>The calls that succeeded, in order.\<close>

definition calls :: "trace \<Rightarrow> syscall list" where
  "calls t = concat (map (\<lambda>e. case e of Done c \<Rightarrow> [c] | Failed _ _ \<Rightarrow> []) t)"

lemma calls_simps [simp]:
  "calls [] = []" "calls (Done c # t) = c # calls t" "calls (Failed c e # t) = calls t"
  "calls (t @ u) = calls t @ calls u"
  by (simp_all add: calls_def)

text \<open>A loop of single calls that returns has made exactly these calls, in order.\<close>

lemma forE_call_Ret:
  "forE xs (\<lambda>x. call (w x) (c x)) K t = (Ret u, t') \<Longrightarrow> t' = t @ map (\<lambda>x. Done (c x)) xs"
  by (induction xs arbitrary: t) (auto simp: io_Ret_iffs, metis append.assoc append_Cons append_Nil)

section \<open>Environment variables\<close>

text \<open>
  The environment as the process was given it: texts \<^verbatim>\<open>key=value\<close>. A key counts where it
  occurs first; \<^verbatim>\<open>os.Environ\<close> leaves out its other occurrences and empty texts.
\<close>

definition os_LookupEnv :: "string list \<Rightarrow> string \<Rightarrow> string option" where
  "os_LookupEnv env key = map_option (drop (Suc (length key))) (find (\<lambda>s. HasPrefix s (key @ ''='')) env)"

definition os_Getenv :: "string list \<Rightarrow> string \<Rightarrow> string" where
  "os_Getenv env key = (case os_LookupEnv env key of None \<Rightarrow> [] | Some v \<Rightarrow> v)"

definition envKey :: "string \<Rightarrow> string" where
  "envKey s = takeWhile (\<lambda>c. c \<noteq> CHR ''='') s"

fun firstOfKey :: "string list \<Rightarrow> string list \<Rightarrow> string list" where
  "firstOfKey seen [] = []"
| "firstOfKey seen (s # ss) =
     (if s = [] then firstOfKey seen ss
      else if CHR ''='' \<notin> set s then s # firstOfKey seen ss
      else if envKey s \<in> set seen then firstOfKey seen ss
      else s # firstOfKey (envKey s # seen) ss)"

definition os_Environ :: "string list \<Rightarrow> string list" where
  "os_Environ env = firstOfKey [] env"

end
