(* ===== verification/Bracket.thy ===== *)
theory Bracket
  imports OS
begin

text \<open>
  Resources that a program must give back: mounts, attached devices, a changed directory. Of two
  classes of events, the opening and the closing ones, \<open>pend\<close> says whether a trace ends with
  an opening event that no closing event follows. A program \<open>settles\<close> a resource if it never
  leaves it open, however it ends; it \<open>releases\<close> the resource if it also closes one that was
  open before; it \<open>acquires\<close> it if it leaves it open only when it returns normally.
\<close>

fun pend :: "(event \<Rightarrow> bool) \<Rightarrow> (event \<Rightarrow> bool) \<Rightarrow> bool \<Rightarrow> trace \<Rightarrow> bool" where
  "pend op cl b [] = b"
| "pend op cl b (e # es) = pend op cl (if op e then True else if cl e then False else b) es"

definition settles :: "(event \<Rightarrow> bool) \<Rightarrow> (event \<Rightarrow> bool) \<Rightarrow> 'a io \<Rightarrow> bool" where
  "settles op cl m \<longleftrightarrow> (\<forall>K t. \<exists>es. snd (m K t) = t @ es \<and> \<not> pend op cl False es)"

definition releases :: "(event \<Rightarrow> bool) \<Rightarrow> (event \<Rightarrow> bool) \<Rightarrow> 'a io \<Rightarrow> bool" where
  "releases op cl m \<longleftrightarrow> (\<forall>K t. \<exists>es. snd (m K t) = t @ es \<and> (\<forall>b. \<not> pend op cl b es))"

definition acquires :: "(event \<Rightarrow> bool) \<Rightarrow> (event \<Rightarrow> bool) \<Rightarrow> 'a io \<Rightarrow> bool" where
  "acquires op cl m \<longleftrightarrow> (\<forall>K t. \<exists>es. snd (m K t) = t @ es \<and>
     (pend op cl False es \<longrightarrow> (\<exists>a. fst (m K t) = Ret a)))"

text \<open>The process does not end inside \<open>m\<close>.\<close>

definition no_exit :: "'a io \<Rightarrow> bool" where
  "no_exit m \<longleftrightarrow> (\<forall>K t n. fst (m K t) \<noteq> Exit n)"

named_theorems settles_intros \<open>rules for resources\<close>
named_theorems no_exit_intros \<open>rules for programs that do not end the process\<close>

section \<open>Programs that do not exit\<close>

lemma no_exit_prims [no_exit_intros]:
  "no_exit (ret a)" "no_exit (fail e)" "no_exit (panic s)" "no_exit (call w c)" "no_exit (ask q w c)"
  "no_exit (note_call c)" "no_exit (exec_CombinedOutput args)"
  by (auto simp: no_exit_def io_defs exec_CombinedOutput_def split: option.splits sum.splits)

lemma no_exit_bnd [no_exit_intros]: "no_exit m \<Longrightarrow> (\<And>a. no_exit (f a)) \<Longrightarrow> no_exit (bnd m f)"
  unfolding no_exit_def bnd_def
  by (auto split: prod.splits outcome.splits) (metis fst_conv)+

lemma no_exit_thn [no_exit_intros]: "no_exit m \<Longrightarrow> no_exit k \<Longrightarrow> no_exit (thn m k)"
  by (simp add: thn_def no_exit_bnd)

lemma no_exit_whn [no_exit_intros]: "no_exit m \<Longrightarrow> no_exit (whn b m)"
  by (simp add: whn_def no_exit_prims)

lemma no_exit_attempt [no_exit_intros]: "no_exit m \<Longrightarrow> no_exit (attempt m)"
  unfolding no_exit_def attempt_def
  by (auto split: prod.splits outcome.splits) (metis fst_conv)

lemma no_exit_mapErr [no_exit_intros]: "no_exit m \<Longrightarrow> no_exit (mapErr g m)"
  by (auto simp: mapErr_def intro!: no_exit_intros split: sum.split)

lemma no_exit_ignore [no_exit_intros]: "no_exit m \<Longrightarrow> no_exit (ignore m)"
  by (simp add: ignore_def no_exit_intros)

lemma no_exit_deferring [no_exit_intros]: "no_exit m \<Longrightarrow> no_exit d \<Longrightarrow> no_exit (deferring m d)"
  unfolding no_exit_def deferring_def
  by (auto split: prod.splits outcome.splits) (metis fst_conv)+

lemma no_exit_if [no_exit_intros]: "no_exit m \<Longrightarrow> no_exit n \<Longrightarrow> no_exit (if b then m else n)"
  by simp

lemma no_exit_case_option [no_exit_intros]:
  "no_exit m \<Longrightarrow> (\<And>y. no_exit (f y)) \<Longrightarrow> no_exit (case x of None \<Rightarrow> m | Some y \<Rightarrow> f y)"
  by (cases x) auto

lemma no_exit_case_prod [no_exit_intros]:
  "(\<And>a b. no_exit (f a b)) \<Longrightarrow> no_exit (case x of (a, b) \<Rightarrow> f a b)"
  by (cases x) auto

section \<open>Resources\<close>

lemma pend_append [simp]: "pend op cl b (xs @ ys) = pend op cl (pend op cl b xs) ys"
  by (induction xs arbitrary: b) simp_all

lemma settlesE:
  assumes "settles op cl m" and "m K t = (r, t')"
  obtains es where "t' = t @ es" and "\<not> pend op cl False es"
  using assms unfolding settles_def by (metis snd_conv)

lemma releases_settles: "releases op cl m \<Longrightarrow> settles op cl m"
  unfolding releases_def settles_def by blast

lemma pend_neutral: "list_all (\<lambda>e. \<not> op e) es \<Longrightarrow> \<not> pend op cl False es"
  by (induction es) auto

text \<open>A program without opening events.\<close>

lemma settles_emits: "emits (\<lambda>c. \<forall>e. ev_call e = c \<longrightarrow> \<not> op e) m \<Longrightarrow> settles op cl m"
  unfolding emits_def settles_def
proof (intro allI)
  fix K t
  assume "\<forall>K t. \<exists>es. snd (m K t) = t @ es \<and> list_all (\<lambda>e. \<forall>e'. ev_call e' = ev_call e \<longrightarrow> \<not> op e') es"
  then obtain es where "snd (m K t) = t @ es" "list_all (\<lambda>e. \<forall>e'. ev_call e' = ev_call e \<longrightarrow> \<not> op e') es" by blast
  moreover from this have "\<not> pend op cl False es" by (intro pend_neutral) (auto simp: list_all_iff)
  ultimately show "\<exists>es. snd (m K t) = t @ es \<and> \<not> pend op cl False es" by blast
qed

lemma settles_bnd [settles_intros]:
  assumes m: "settles op cl m" and f: "\<And>a. settles op cl (f a)"
  shows "settles op cl (bnd m f)"
  unfolding settles_def
proof (intro allI)
  fix K t
  obtain r u where mu: "m K t = (r, u)" by force
  with m obtain es where es: "u = t @ es" "\<not> pend op cl False es" by (rule settlesE)
  show "\<exists>es. snd (bnd m f K t) = t @ es \<and> \<not> pend op cl False es"
  proof (cases r)
    case (Ret a)
    obtain r' v where fv: "f a K u = (r', v)" by force
    with f obtain es' where "v = u @ es'" "\<not> pend op cl False es'" by (rule settlesE)
    with es mu Ret fv show ?thesis by (auto simp: bnd_def)
  qed (use mu es in \<open>auto simp: bnd_def\<close>)
qed

lemma settles_thn [settles_intros]: "settles op cl m \<Longrightarrow> settles op cl k \<Longrightarrow> settles op cl (thn m k)"
  by (simp add: thn_def settles_bnd)

lemma settles_prims [settles_intros]: "settles op cl (ret a)" "settles op cl (fail e)"
  by (simp_all add: settles_def ret_def fail_def)

lemma settles_if [settles_intros]:
  "(b \<Longrightarrow> settles op cl m) \<Longrightarrow> (\<not> b \<Longrightarrow> settles op cl n) \<Longrightarrow> settles op cl (if b then m else n)"
  by simp

lemma settles_case_option [settles_intros]:
  "settles op cl m \<Longrightarrow> (\<And>y. settles op cl (f y)) \<Longrightarrow>
     settles op cl (case x of None \<Rightarrow> m | Some y \<Rightarrow> f y)"
  by (cases x) auto

lemma settles_deferring [settles_intros]:
  assumes m: "settles op cl m" and d: "settles op cl d"
  shows "settles op cl (deferring m d)"
  unfolding settles_def
proof (intro allI)
  fix K t
  obtain r u where mu: "m K t = (r, u)" by force
  with m obtain es where es: "u = t @ es" "\<not> pend op cl False es" by (rule settlesE)
  obtain r' v where dv: "d K u = (r', v)" by force
  with d obtain es' where "v = u @ es'" "\<not> pend op cl False es'" by (rule settlesE)
  with es mu dv show "\<exists>es. snd (deferring m d K t) = t @ es \<and> \<not> pend op cl False es"
    by (cases r; cases r') (auto simp: deferring_def)
qed

text \<open>Opening, then a program that releases whatever happens.\<close>

lemma settles_acquire:
  assumes m: "acquires op cl m" and f: "\<And>a. releases op cl (f a)"
  shows "settles op cl (bnd m f)"
  unfolding settles_def
proof (intro allI)
  fix K t
  obtain r u where mu: "m K t = (r, u)" by force
  with m obtain es where es: "u = t @ es" "pend op cl False es \<longrightarrow> (\<exists>a. r = Ret a)"
    unfolding acquires_def by (metis fst_conv snd_conv)
  show "\<exists>es. snd (bnd m f K t) = t @ es \<and> \<not> pend op cl False es"
  proof (cases r)
    case (Ret a)
    obtain es' where "snd (f a K u) = u @ es'" "\<And>b. \<not> pend op cl b es'"
      using f unfolding releases_def by metis
    with es mu Ret show ?thesis by (auto simp: bnd_def)
  qed (use mu es in \<open>auto simp: bnd_def\<close>)
qed

lemma settles_acquire_thn:
  "acquires op cl m \<Longrightarrow> releases op cl k \<Longrightarrow> settles op cl (thn m k)"
  by (simp add: thn_def settles_acquire)

lemma acquires_call: "(\<And>e. \<not> op (Failed c e)) \<Longrightarrow> acquires op cl (call w c)"
  by (auto simp: acquires_def call_def split: option.splits)

lemma acquires_mapErr: "acquires op cl m \<Longrightarrow> acquires op cl (mapErr g m)"
  unfolding acquires_def
proof (intro allI)
  fix K t
  assume a: "\<forall>K t. \<exists>es. snd (m K t) = t @ es \<and> (pend op cl False es \<longrightarrow> (\<exists>a. fst (m K t) = Ret a))"
  then obtain es where "snd (m K t) = t @ es" "pend op cl False es \<longrightarrow> (\<exists>a. fst (m K t) = Ret a)" by blast
  then show "\<exists>es. snd (mapErr g m K t) = t @ es \<and> (pend op cl False es \<longrightarrow> (\<exists>a. fst (mapErr g m K t) = Ret a))"
    by (cases "m K t"; cases "fst (m K t)") (auto simp: io_defs)
qed

lemma acquires_thn_neutral:
  assumes m: "emits (\<lambda>c. \<forall>e. ev_call e = c \<longrightarrow> \<not> op e) m" and k: "acquires op cl k"
  shows "acquires op cl (thn m k)"
  unfolding acquires_def
proof (intro allI)
  fix K t
  obtain r u where mu: "m K t = (r, u)" by force
  with settles_emits [OF m] obtain es where es: "u = t @ es" "\<not> pend op cl False es" by (rule settlesE)
  show "\<exists>es. snd (thn m k K t) = t @ es \<and> (pend op cl False es \<longrightarrow> (\<exists>a. fst (thn m k K t) = Ret a))"
  proof (cases r)
    case (Ret a)
    obtain es' where "snd (k K u) = u @ es'" "pend op cl False es' \<longrightarrow> (\<exists>a. fst (k K u) = Ret a)"
      using k unfolding acquires_def by metis
    with es mu Ret show ?thesis by (auto simp: thn_def bnd_def)
  qed (use mu es in \<open>auto simp: thn_def bnd_def\<close>)
qed

text \<open>A closing call closes whether it succeeds or not.\<close>

lemma releases_call:
  "(\<And>ev. ev_call ev = c \<Longrightarrow> cl ev \<and> \<not> op ev) \<Longrightarrow> releases op cl (call w c)"
  by (auto simp: releases_def call_def split: option.splits)

lemma releases_mapErr: "releases op cl m \<Longrightarrow> releases op cl (mapErr g m)"
  unfolding releases_def
proof (intro allI)
  fix K t
  assume "\<forall>K t. \<exists>es. snd (m K t) = t @ es \<and> (\<forall>b. \<not> pend op cl b es)"
  then obtain es where "snd (m K t) = t @ es" "\<forall>b. \<not> pend op cl b es" by blast
  then show "\<exists>es. snd (mapErr g m K t) = t @ es \<and> (\<forall>b. \<not> pend op cl b es)"
    by (cases "m K t"; cases "fst (m K t)") (auto simp: io_defs)
qed

lemma releases_attempt: "releases op cl m \<Longrightarrow> releases op cl (attempt m)"
  unfolding releases_def attempt_def
  by (auto split: prod.splits outcome.splits) (metis snd_conv)+

lemma releases_bnd:
  assumes m: "releases op cl m" and f: "\<And>a. settles op cl (f a)"
  shows "releases op cl (bnd m f)"
  unfolding releases_def
proof (intro allI)
  fix K t
  obtain es where es: "snd (m K t) = t @ es" "\<forall>b. \<not> pend op cl b es"
    using m unfolding releases_def by blast
  obtain r where mu: "m K t = (r, t @ es)" using es(1) by (metis prod.collapse)
  show "\<exists>es. snd (bnd m f K t) = t @ es \<and> (\<forall>b. \<not> pend op cl b es)"
  proof (cases r)
    case (Ret a)
    obtain r' v where fv: "f a K (t @ es) = (r', v)" by force
    with f obtain es' where "v = (t @ es) @ es'" "\<not> pend op cl False es'" by (rule settlesE)
    with es mu Ret fv show ?thesis by (intro exI [of _ "es @ es'"]) (simp add: bnd_def)
  qed (use mu es in \<open>auto simp: bnd_def\<close>)
qed

lemma releases_thn: "releases op cl m \<Longrightarrow> settles op cl k \<Longrightarrow> releases op cl (thn m k)"
  by (simp add: thn_def releases_bnd)

text \<open>The deferred release runs unless the process is gone.\<close>

lemma releases_deferring:
  assumes m: "emits P m" and n: "no_exit m" and d: "releases op cl d"
  shows "releases op cl (deferring m d)"
  unfolding releases_def
proof (intro allI)
  fix K t
  obtain r u where mu: "m K t = (r, u)" by force
  with m obtain es where es: "u = t @ es" by (rule emitsD)
  obtain es' where d': "snd (d K u) = u @ es'" "\<forall>b. \<not> pend op cl b es'"
    using d unfolding releases_def by blast
  obtain r' where "d K u = (r', u @ es')" using d'(1) by (metis prod.collapse)
  moreover have "\<forall>n. r \<noteq> Exit n" using n mu unfolding no_exit_def by (metis fst_conv)
  ultimately show "\<exists>es. snd (deferring m d K t) = t @ es \<and> (\<forall>b. \<not> pend op cl b es)"
    using mu es d'(2) by (cases r; cases r') (auto simp: deferring_def)
qed

lemma releases_deferring_settled:
  assumes m: "releases op cl m" and d: "settles op cl d"
  shows "releases op cl (deferring m d)"
  unfolding releases_def
proof (intro allI)
  fix K t
  obtain es where es: "snd (m K t) = t @ es" "\<forall>b. \<not> pend op cl b es"
    using m unfolding releases_def by blast
  obtain r where mu: "m K t = (r, t @ es)" using es(1) by (metis prod.collapse)
  obtain r' v where dv: "d K (t @ es) = (r', v)" by force
  with d obtain es' where "v = (t @ es) @ es'" "\<not> pend op cl False es'" by (rule settlesE)
  with es mu dv show "\<exists>es. snd (deferring m d K t) = t @ es \<and> (\<forall>b. \<not> pend op cl b es)"
    by (cases r; cases r') (auto simp: deferring_def)
qed

lemma no_exit_case_sum [no_exit_intros]:
  "(\<And>e. no_exit (g e)) \<Longrightarrow> (\<And>y. no_exit (f y)) \<Longrightarrow> no_exit (case x of Inl e \<Rightarrow> g e | Inr y \<Rightarrow> f y)"
  by (cases x) auto

section \<open>Calls that have happened\<close>

text \<open>
  \<open>does cs m\<close>: when \<open>m\<close> returns normally, the calls \<open>cs\<close> have succeeded, in this order,
  possibly with other calls between them.
\<close>

definition does :: "syscall list \<Rightarrow> 'a io \<Rightarrow> bool" where
  "does cs m \<longleftrightarrow> (\<forall>K t a t'. m K t = (Ret a, t') \<longrightarrow> (\<exists>es. t' = t @ es \<and> subseq cs (calls es)))"

named_theorems does_intros \<open>rules for calls that have happened\<close>

lemma doesD:
  assumes "does cs m" and "m K t = (Ret a, t')"
  obtains es where "t' = t @ es" and "subseq cs (calls es)"
  using assms unfolding does_def by blast

lemma does_emits: "emits P m \<Longrightarrow> does [] m"
  unfolding does_def by (metis emitsD list_emb_Nil)

lemma does_weaken: "does xs m \<Longrightarrow> subseq ys xs \<Longrightarrow> does ys m"
  unfolding does_def by (meson subseq_order.trans)

lemma does_bnd [does_intros]:
  assumes m: "does xs m" and f: "\<And>a. does ys (f a)"
  shows "does (xs @ ys) (bnd m f)"
  unfolding does_def
proof (intro allI impI)
  fix K t b t'
  assume "bnd m f K t = (Ret b, t')"
  then obtain a u where mu: "m K t = (Ret a, u)" and fu: "f a K u = (Ret b, t')" by (auto simp: bnd_Ret_iff)
  obtain es where "u = t @ es" "subseq xs (calls es)" using doesD [OF m mu] .
  moreover obtain es' where "t' = u @ es'" "subseq ys (calls es')" using doesD [OF f fu] .
  ultimately show "\<exists>es. t' = t @ es \<and> subseq (xs @ ys) (calls es)"
    by (intro exI [of _ "es @ es'"]) (simp add: list_emb_append_mono)
qed

lemma does_thn [does_intros]: "does xs m \<Longrightarrow> does ys k \<Longrightarrow> does (xs @ ys) (thn m k)"
  by (simp add: thn_def does_bnd)

lemma does_prims [does_intros]:
  "does [] (ret a)" "does xs (fail e)" "does xs (panic s)" "does xs (os_Exit n)" "does xs (log_Fatal s)"
  by (auto simp: does_def ret_def)

lemma does_call [does_intros]: "does [c] (call w c)" "does [c] (ask q w c)" "does [c] (note_call c)"
  by (auto simp: does_def io_Ret_iffs)

lemma does_mapErr [does_intros]: "does xs m \<Longrightarrow> does xs (mapErr g m)"
  by (simp add: does_def)

lemma does_whn [does_intros]: "does xs m \<Longrightarrow> does (if b then xs else []) (whn b m)"
  by (simp add: whn_def does_prims)

lemma does_deferring [does_intros]:
  assumes m: "does xs m" and d: "emits P d"
  shows "does xs (deferring m d)"
  unfolding does_def
proof (intro allI impI)
  fix K t a t'
  assume "deferring m d K t = (Ret a, t')"
  then obtain u r where mu: "m K t = (Ret a, u)" and du: "d K u = (r, t')" by (auto simp: deferring_Ret_iff)
  obtain es where "u = t @ es" "subseq xs (calls es)" using doesD [OF m mu] .
  moreover obtain es' where "t' = u @ es'" by (rule emitsD [OF d du])
  ultimately show "\<exists>es. t' = t @ es \<and> subseq xs (calls es)"
    by (intro exI [of _ "es @ es'"]) (auto intro: list_emb_prefix)
qed

lemma does_seqs_Cons: "does xs m \<Longrightarrow> does ys (seqs ms) \<Longrightarrow> does (xs @ ys) (seqs (m # ms))"
  by (simp add: does_thn)

lemma does_seqs_Nil: "does [] (seqs [])"
  by (simp add: does_prims)

lemma does_forE [does_intros]: "(\<And>x. does (g x) (f x)) \<Longrightarrow> does (concat (map g xs)) (forE xs f)"
  by (induction xs) (auto intro: does_prims does_thn)

lemma does_if [does_intros]: "does xs m \<Longrightarrow> does xs n \<Longrightarrow> does xs (if b then m else n)"
  by simp

lemma does_case_sum [does_intros]:
  "(\<And>e. does xs (g e)) \<Longrightarrow> (\<And>y. does xs (f y)) \<Longrightarrow> does xs (case x of Inl e \<Rightarrow> g e | Inr y \<Rightarrow> f y)"
  by (cases x) auto

lemma does_case_prod [does_intros]: "(\<And>a b. does xs (f a b)) \<Longrightarrow> does xs (case x of (a, b) \<Rightarrow> f a b)"
  by (cases x) auto

section \<open>Programs that return\<close>

text \<open>\<open>returns K m\<close>: against the kernel \<open>K\<close>, \<open>m\<close> ends normally from every state.\<close>

definition returns :: "kernel \<Rightarrow> 'a io \<Rightarrow> bool" where
  "returns K m \<longleftrightarrow> (\<forall>t. \<exists>a t'. m K t = (Ret a, t'))"

named_theorems returns_intros \<open>rules for programs that return\<close>

lemma returnsE:
  assumes "returns K m"
  obtains a t' where "m K t = (Ret a, t')"
  using assms unfolding returns_def by blast

lemma returns_ret [returns_intros]: "returns K (ret a)"
  by (simp add: returns_def)

lemma returns_call [returns_intros]: "(\<And>t. k_do K t c = None) \<Longrightarrow> returns K (call w c)"
  by (simp add: returns_def call_def)

lemma returns_ask [returns_intros]: "(\<And>t. \<exists>a. q K t = Inr a) \<Longrightarrow> returns K (ask q w c)"
  by (simp add: returns_def ask_Ret_iff)

lemma returns_note_call [returns_intros]: "returns K (note_call c)"
  by (simp add: returns_def note_call_def)

lemma returns_exec_CombinedOutput [returns_intros]: "returns K (exec_CombinedOutput args)"
  by (simp add: returns_def exec_CombinedOutput_def)

lemma returns_bnd [returns_intros]:
  "returns K m \<Longrightarrow> (\<And>a. returns K (f a)) \<Longrightarrow> returns K (bnd m f)"
  unfolding returns_def by (metis bnd_Ret_iff)

lemma returns_thn [returns_intros]: "returns K m \<Longrightarrow> returns K k \<Longrightarrow> returns K (thn m k)"
  by (simp add: thn_def returns_bnd)

lemma returns_whn [returns_intros]: "(b \<Longrightarrow> returns K m) \<Longrightarrow> returns K (whn b m)"
  by (auto simp: whn_def returns_ret)

lemma returns_mapErr [returns_intros]: "returns K m \<Longrightarrow> returns K (mapErr g m)"
  by (simp add: returns_def)

lemma returns_attempt [returns_intros]: "returns K m \<Longrightarrow> returns K (attempt m)"
  unfolding returns_def by (metis attempt_Ret_iff)

lemma returns_attempt_call [returns_intros]: "returns K (attempt (call w c))" "returns K (attempt (ask q w c'))"
  by (auto simp: returns_def attempt_def call_def ask_def split: option.split sum.split)

lemma returns_ignore [returns_intros]: "returns K (attempt m) \<Longrightarrow> returns K (ignore m)"
  by (simp add: ignore_def returns_thn returns_ret)

lemma returns_deferring [returns_intros]:
  assumes m: "returns K m" and d: "returns K d"
  shows "returns K (deferring m d)"
  unfolding returns_def
proof
  fix t
  obtain a u where mu: "m K t = (Ret a, u)" using m by (rule returnsE)
  obtain b v where "d K u = (Ret b, v)" using d by (rule returnsE)
  with mu show "\<exists>a t'. deferring m d K t = (Ret a, t')" by (simp add: deferring_def)
qed

lemma returns_forE [returns_intros]: "(\<And>x. x \<in> set xs \<Longrightarrow> returns K (f x)) \<Longrightarrow> returns K (forE xs f)"
  by (induction xs) (auto intro: returns_ret returns_thn)

lemma returns_if [returns_intros]:
  "(b \<Longrightarrow> returns K m) \<Longrightarrow> (\<not> b \<Longrightarrow> returns K n) \<Longrightarrow> returns K (if b then m else n)"
  by simp

lemma returns_case_option [returns_intros]:
  "(x = None \<Longrightarrow> returns K m) \<Longrightarrow> (\<And>y. x = Some y \<Longrightarrow> returns K (f y)) \<Longrightarrow>
     returns K (case x of None \<Rightarrow> m | Some y \<Rightarrow> f y)"
  by (cases x) auto

lemma returns_case_sum [returns_intros]:
  "(\<And>e. x = Inl e \<Longrightarrow> returns K (g e)) \<Longrightarrow> (\<And>y. x = Inr y \<Longrightarrow> returns K (f y)) \<Longrightarrow>
     returns K (case x of Inl e \<Rightarrow> g e | Inr y \<Rightarrow> f y)"
  by (cases x) auto

lemma returns_case_prod [returns_intros]:
  "(\<And>a b. x = (a, b) \<Longrightarrow> returns K (f a b)) \<Longrightarrow> returns K (case x of (a, b) \<Rightarrow> f a b)"
  by (cases x) auto

lemma quiet_kernel_simps [simp]:
  "k_do quiet_kernel t c = None" "k_str quiet_kernel t c = Inr []" "k_strs quiet_kernel t c = Inr []"
  "k_int quiet_kernel t c = Inr 0" "k_file quiet_kernel t p = Inr ([], None)" "k_stat quiet_kernel t p = Inl ENOENT"
  "k_dirents quiet_kernel t p = Inr []" "k_cmd quiet_kernel t a = ([], None)"
  by (simp_all add: quiet_kernel_def)

lemmas os_call_defs = os_MkdirAll_def os_Mkdir_def os_Remove_def os_RemoveAll_def os_Symlink_def
  os_Chmod_def os_Chown_def os_Chdir_def os_Getwd_def os_Create_def os_OpenFile_def os_Stat_def os_Lstat_def
  os_Open_def ioutil_WriteFile_def ioutil_ReadDir_def filepath_Glob_def unix_Mount_def unix_Unmount_def
  log_Print_def time_Sleep_def

section \<open>Rounds of a loop\<close>

text \<open>Each round of a loop that came to its end, with what happened before and after it.\<close>

lemma forE_each:
  assumes f: "\<And>x. emits P (f x)" and run: "forE xs f K t = (Ret u, t')" and x: "x \<in> set xs"
  obtains pre es post where "f x K (t @ pre) = (Ret (), t @ pre @ es)" and "t' = t @ pre @ es @ post"
proof -
  have "\<exists>pre es post. f x K (t @ pre) = (Ret (), t @ pre @ es) \<and> t' = t @ pre @ es @ post"
    using run x
  proof (induction xs arbitrary: t)
    case (Cons y ys)
    then obtain v where y: "f y K t = (Ret (), v)" and rest: "forE ys f K v = (Ret u, t')"
      by (auto simp: thn_Ret_iff)
    obtain es where v: "v = t @ es" by (rule emitsD [OF f y])
    show ?case
    proof (cases "x = y")
      case True
      have "emits P (forE ys f)" by (intro emits_forE f)
      then obtain post where "t' = v @ post" using rest by (rule emitsD)
      with True y v show ?thesis
        by (intro exI [of _ "[]"] exI [of _ es] exI [of _ post]) simp
    next
      case False
      with Cons.prems have "x \<in> set ys" by simp
      from Cons.IH [OF rest this] obtain pre es' post where
        "f x K (v @ pre) = (Ret (), v @ pre @ es')" "t' = v @ pre @ es' @ post" by blast
      with v show ?thesis
        by (intro exI [of _ "es @ pre"] exI [of _ es'] exI [of _ post]) simp
    qed
  qed simp
  with that show thesis by blast
qed

text \<open>A loop over calls made once per element, in the order of the list.\<close>

lemma forE_calls:
  assumes "\<And>x K t t'. f x K t = (Ret (), t') \<Longrightarrow> t' = t @ [Done (c x)]"
    and "forE xs f K t = (Ret u, t')"
  shows "t' = t @ map (\<lambda>x. Done (c x)) xs"
  using assms(2)
proof (induction xs arbitrary: t)
  case (Cons y ys)
  then obtain v where "f y K t = (Ret (), v)" "forE ys f K v = (Ret u, t')" by (auto simp: thn_Ret_iff)
  with Cons.IH assms(1) show ?case by fastforce
qed simp

lemma calls_map_Done [simp]: "calls (map (\<lambda>x. Done (c x)) xs) = map c xs"
  by (induction xs) simp_all

text \<open>A program with a known result.\<close>

definition yields :: "kernel \<Rightarrow> 'a io \<Rightarrow> 'a \<Rightarrow> bool" where
  "yields K m v \<longleftrightarrow> (\<forall>t. \<exists>t'. m K t = (Ret v, t'))"

lemma returns_bnd_value: "yields K m v \<Longrightarrow> returns K (f v) \<Longrightarrow> returns K (bnd m f)"
  unfolding returns_def yields_def by (metis bnd_Ret_iff)

lemma quiet_Stat: "yields quiet_kernel (attempt (os_Stat p)) (Inl (PathError ''stat'' p ENOENT))"
  by (simp add: yields_def os_Stat_def io_defs)

lemma quiet_attempt_call: "yields quiet_kernel (attempt (call w c)) (Inr ())"
  by (simp add: yields_def io_defs)

section \<open>Reaching a call\<close>

text \<open>A call outside the footprint of the first part is made by the second part.\<close>

lemma bnd_reaches:
  assumes m: "emits P m" and f: "\<And>a. emits Q (f a)" and run: "bnd m f K t = (r, t @ es)"
    and e: "e \<in> set es" "\<not> P (ev_call e)"
  obtains a es1 es2 where "m K t = (Ret a, t @ es1)" and "es = es1 @ es2"
    and "f a K (t @ es1) = (r, (t @ es1) @ es2)" and "e \<in> set es2"
proof -
  obtain r' u where mu: "m K t = (r', u)" by force
  then obtain es1 where u: "u = t @ es1" "list_all (\<lambda>e. P (ev_call e)) es1" by (rule emitsD [OF m])
  have ne: "e \<notin> set es1" using u(2) e(2) by (auto simp: list_all_iff)
  then have "es \<noteq> es1" using e(1) by blast
  with mu u run obtain a where a: "r' = Ret a" by (cases r') (simp_all add: bnd_def)
  with mu u run have fa: "f a K (t @ es1) = (r, t @ es)" by (simp add: bnd_def)
  obtain es2 where "t @ es = (t @ es1) @ es2" by (rule emitsD [OF f fa])
  with ne e(1) mu u a fa that show thesis by simp
qed

lemma thn_reaches:
  assumes "emits P m" and "emits Q k" and "thn m k K t = (r, t @ es)"
    and "e \<in> set es" "\<not> P (ev_call e)"
  obtains a es1 es2 where "m K t = (Ret a, t @ es1)" and "es = es1 @ es2"
    and "k K (t @ es1) = (r, (t @ es1) @ es2)" and "e \<in> set es2"
  using bnd_reaches [of P m Q "\<lambda>_. k"] assms unfolding thn_def by metis

section \<open>Starting no process\<close>

definition notStart :: "syscall \<Rightarrow> bool" where
  "notStart c \<longleftrightarrow> (case c of Proc (StartProcess p a x f) \<Rightarrow> False | _ \<Rightarrow> True)"

lemma notStart_simps [simp]:
  "notStart (Fs f)" "notStart (Mnt m)" "notStart (Net n)" "notStart (Sec s)" "notStart (Proc (LogPrint msg))"
  "notStart (Proc (KillCall p g))" "notStart (Proc SyncCall)" "notStart (Proc (CloseFd fd))" "notStart (Proc ChanRecv)"
  "notStart (Proc (GoRoutine g'))" "notStart (Proc RebootCall)" "notStart (Proc (ExitCall rc))" "notStart (Proc (OnceDo d))"
  "notStart (Proc (ChanSend k))" "notStart (Proc (FinitModule q ps))" "notStart (Proc (Sleep ms))" "notStart (Proc LockOSThread)"
  "notStart (Proc (RandRead i))" "notStart (Proc (CombinedOutput as))" "notStart (Proc LoopGetFree)" "notStart (Proc (LoopSetFd l lf))"
  "notStart (Proc (LoopClrFd l))" "notStart (Proc Clearenv)" "notStart (Proc (ListenCall ls))" "notStart (Proc (Wait4 wp))"
  "notStart (Proc (SelectCall sl))" "notStart (Proc (SendMsg mt md))" "notStart (Proc NotifySignals)"
  "notStart (Proc (StartProcess x y z xf)) \<longleftrightarrow> False"
  by (simp_all add: notStart_def)

end
