(* ===== verification/Logs.thy ===== *)
theory Logs
  imports Bracket
begin

text \<open>
  A logic for what a program has done when it returns. \<open>logs P K m Q\<close>: if \<open>m\<close> returns a value
  against the kernel \<open>K\<close>, then \<open>Q\<close> holds of the value and of the list of successful calls of the kind
  \<open>P\<close> that \<open>m\<close> made, in their order. The rules work backwards from the end of the program, as weakest
  preconditions do: the postcondition of a first part is what the second part needs.
\<close>

definition logs :: "(syscall \<Rightarrow> bool) \<Rightarrow> kernel \<Rightarrow> 'a io \<Rightarrow> ('a \<Rightarrow> syscall list \<Rightarrow> bool) \<Rightarrow> bool" where
  "logs P K m Q \<longleftrightarrow> (\<forall>t a t'. m K t = (Ret a, t') \<longrightarrow> (\<exists>es. t' = t @ es \<and> Q a (filter P (calls es))))"

named_theorems logs_intros \<open>rules that work backwards through a program\<close>

lemma logsD:
  assumes "logs P K m Q" and "m K t = (Ret a, t')"
  obtains es where "t' = t @ es" and "Q a (filter P (calls es))"
  using assms unfolding logs_def by blast

lemma logsD_append: "logs P K m Q \<Longrightarrow> m K t = (Ret a, t @ es) \<Longrightarrow> Q a (filter P (calls es))"
  unfolding logs_def by blast

lemma logs_conseq: "logs P K m Q \<Longrightarrow> (\<And>a cs. Q a cs \<Longrightarrow> R a cs) \<Longrightarrow> logs P K m R"
  unfolding logs_def by blast

lemma logs_bnd [logs_intros]:
  assumes "logs P K m (\<lambda>a xs. logs P K (f a) (\<lambda>b ys. Q b (xs @ ys)))"
  shows "logs P K (bnd m f) Q"
  unfolding logs_def
proof (intro allI impI)
  fix t b t'
  assume "bnd m f K t = (Ret b, t')"
  then obtain a u where m: "m K t = (Ret a, u)" and f: "f a K u = (Ret b, t')" by (auto simp: bnd_Ret_iff)
  obtain es where u: "u = t @ es" "logs P K (f a) (\<lambda>b ys. Q b (filter P (calls es) @ ys))"
    by (rule logsD [OF assms m])
  obtain es' where "t' = u @ es'" "Q b (filter P (calls es) @ filter P (calls es'))"
    by (rule logsD [OF u(2) f])
  with u show "\<exists>es. t' = t @ es \<and> Q b (filter P (calls es))" by (intro exI [of _ "es @ es'"]) simp
qed

lemma logs_thn [logs_intros]:
  "logs P K m (\<lambda>_ xs. logs P K k (\<lambda>b ys. Q b (xs @ ys))) \<Longrightarrow> logs P K (thn m k) Q"
  unfolding thn_def by (rule logs_bnd)

lemma logs_ret [logs_intros]: "Q a [] \<Longrightarrow> logs P K (ret a) Q"
  by (auto simp: logs_def)

lemma logs_fail [logs_intros]: "logs P K (fail e) Q" "logs P K (panic s) Q" "logs P K (os_Exit n) Q"
  by (simp_all add: logs_def)

lemma logs_call [logs_intros]: "Q () (if P c then [c] else []) \<Longrightarrow> logs P K (call w c) Q"
  by (auto simp: logs_def call_Ret_iff split: if_splits)

lemma logs_note_call [logs_intros]: "Q () (if P c then [c] else []) \<Longrightarrow> logs P K (note_call c) Q"
  by (auto simp: logs_def note_call_Ret_iff split: if_splits)

lemma logs_ask [logs_intros]:
  "(\<And>a t. q K t = Inr a \<Longrightarrow> Q a (if P c then [c] else [])) \<Longrightarrow> logs P K (ask q w c) Q"
  by (auto simp: logs_def ask_Ret_iff split: if_splits)

lemma logs_mapErr [logs_intros]: "logs P K m Q \<Longrightarrow> logs P K (mapErr g m) Q"
  by (simp add: logs_def)

lemma logs_whn [logs_intros]: "(b \<Longrightarrow> logs P K m Q) \<Longrightarrow> (\<not> b \<Longrightarrow> Q () []) \<Longrightarrow> logs P K (whn b m) Q"
  by (cases b) (auto simp: whn_def intro: logs_ret)

lemma logs_if [logs_intros]: "(b \<Longrightarrow> logs P K m Q) \<Longrightarrow> (\<not> b \<Longrightarrow> logs P K n Q) \<Longrightarrow> logs P K (if b then m else n) Q"
  by simp

lemma logs_case_option [logs_intros]:
  "(x = None \<Longrightarrow> logs P K m Q) \<Longrightarrow> (\<And>a. x = Some a \<Longrightarrow> logs P K (f a) Q) \<Longrightarrow> logs P K (case x of None \<Rightarrow> m | Some a \<Rightarrow> f a) Q"
  by (cases x) auto

lemma logs_case_sum [logs_intros]:
  "(\<And>e. x = Inl e \<Longrightarrow> logs P K (g e) Q) \<Longrightarrow> (\<And>y. x = Inr y \<Longrightarrow> logs P K (f y) Q) \<Longrightarrow>
   logs P K (case x of Inl e \<Rightarrow> g e | Inr y \<Rightarrow> f y) Q"
  by (cases x) auto

lemma logs_case_prod [logs_intros]: "(\<And>a b. x = (a, b) \<Longrightarrow> logs P K (f a b) Q) \<Longrightarrow> logs P K (case x of (a, b) \<Rightarrow> f a b) Q"
  by (cases x) auto

text \<open>A part that makes no such call; one that fails on purpose is caught by \<open>attempt\<close>.\<close>

lemma logs_silent:
  assumes "emits (\<lambda>c. \<not> P c) m" and "\<And>a. Q a []"
  shows "logs P K m Q"
  unfolding logs_def
proof (intro allI impI)
  fix t a t'
  assume "m K t = (Ret a, t')"
  then obtain es where es: "t' = t @ es" "list_all (\<lambda>e. \<not> P (ev_call e)) es" by (rule emitsD [OF assms(1)])
  from es(2) have "filter P (calls es) = []" by (induction es) (auto simp: calls_def split: event.splits)
  with es assms(2) show "\<exists>es. t' = t @ es \<and> Q a (filter P (calls es))" by (intro exI [of _ es]) simp
qed

lemma logs_attempt_call [logs_intros]:
  "(\<And>e. Q (Inl (w e)) []) \<Longrightarrow> Q (Inr ()) (if P c then [c] else []) \<Longrightarrow> logs P K (attempt (call w c)) Q"
  by (force simp: logs_def attempt_def call_def split: option.splits if_splits)

lemma logs_forE:
  assumes "\<And>x Q. (\<And>u. Q u (g x)) \<Longrightarrow> logs P K (f x) Q" and "Q () (concat (map g xs))"
  shows "logs P K (forE xs f) Q"
  using assms(2)
proof (induction xs arbitrary: Q)
  case (Cons x xs)
  show ?case unfolding forE.simps
    by (intro logs_thn assms(1) Cons.IH) (use Cons.prems in simp)
qed (simp add: logs_ret)

text \<open>What is known of the value alone.\<close>

lemma logs_value:
  assumes "\<And>t a t'. m K t = (Ret a, t') \<Longrightarrow> V a" and "logs P K m Q"
  shows "logs P K m (\<lambda>a cs. V a \<and> Q a cs)"
  using assms unfolding logs_def by blast

section \<open>At most one call of a kind\<close>

text \<open>
  \<open>singles P K m A\<close>: however \<open>m\<close> ends, it makes at most one call outside \<open>P\<close>, successful or not, and
  that call satisfies \<open>A\<close>.
\<close>

definition alone :: "(syscall \<Rightarrow> bool) \<Rightarrow> event \<Rightarrow> trace \<Rightarrow> bool" where
  "alone P e es \<longleftrightarrow> (\<exists>es1 es2. es = es1 @ e # es2 \<and> (\<forall>x\<in>set es1 \<union> set es2. P (ev_call x)))"

definition singles :: "(syscall \<Rightarrow> bool) \<Rightarrow> kernel \<Rightarrow> 'a io \<Rightarrow> (syscall \<Rightarrow> bool) \<Rightarrow> bool" where
  "singles P K m A \<longleftrightarrow> (\<forall>t. \<exists>es. snd (m K t) = t @ es
     \<and> (\<forall>e\<in>set es. P (ev_call e) \<or> A (ev_call e) \<and> alone P e es))"

named_theorems singles_intros \<open>rules for programs with one call of a kind\<close>

lemma alone_prepend:
  assumes "\<forall>x\<in>set xs. P (ev_call x)" and "alone P e es"
  shows "alone P e (xs @ es)"
proof -
  obtain es1 es2 where "es = es1 @ e # es2" "\<forall>x\<in>set es1 \<union> set es2. P (ev_call x)" using assms(2) unfolding alone_def by blast
  with assms(1) show ?thesis unfolding alone_def by (intro exI [of _ "xs @ es1"] exI [of _ es2]) auto
qed

lemma alone_append:
  assumes "\<forall>x\<in>set xs. P (ev_call x)" and "alone P e es"
  shows "alone P e (es @ xs)"
proof -
  obtain es1 es2 where "es = es1 @ e # es2" "\<forall>x\<in>set es1 \<union> set es2. P (ev_call x)" using assms(2) unfolding alone_def by blast
  with assms(1) show ?thesis unfolding alone_def by (intro exI [of _ es1] exI [of _ "es2 @ xs"]) auto
qed

lemma singles_silent: "emits P m \<Longrightarrow> singles P K m A"
  unfolding emits_def singles_def list_all_iff by metis

lemma singles_bnd [singles_intros]:
  assumes m: "emits P m" and f: "\<And>a t t'. m K t = (Ret a, t') \<Longrightarrow> singles P K (f a) A"
  shows "singles P K (bnd m f) A"
  unfolding singles_def
proof
  fix t
  obtain r u where mu: "m K t = (r, u)" by force
  then obtain es where u: "u = t @ es" "\<forall>x\<in>set es. P (ev_call x)" using m by (metis emitsD list_all_iff)
  show "\<exists>es. snd (bnd m f K t) = t @ es \<and> (\<forall>e\<in>set es. P (ev_call e) \<or> A (ev_call e) \<and> alone P e es)"
  proof (cases r)
    case (Ret a)
    from f [OF mu [unfolded Ret]] obtain es' where
      es': "snd (f a K u) = u @ es'" "\<forall>e\<in>set es'. P (ev_call e) \<or> A (ev_call e) \<and> alone P e es'"
      unfolding singles_def by blast
    have "\<forall>e\<in>set (es @ es'). P (ev_call e) \<or> A (ev_call e) \<and> alone P e (es @ es')"
      using es'(2) u(2) alone_prepend [OF u(2)] by auto
    with mu u Ret es' show ?thesis by (intro exI [of _ "es @ es'"]) (simp add: bnd_def)
  qed (use mu u in \<open>auto simp: bnd_def\<close>)
qed

lemma singles_thn [singles_intros]:
  "emits P m \<Longrightarrow> (\<And>a t t'. m K t = (Ret a, t') \<Longrightarrow> singles P K k A) \<Longrightarrow> singles P K (thn m k) A"
  unfolding thn_def by (rule singles_bnd)

text \<open>The call itself is the first part.\<close>

lemma singles_start:
  assumes m: "\<And>t. \<exists>e. snd (m K t) = t @ [e] \<and> A (ev_call e)" and f: "\<And>a. emits P (f a)"
  shows "singles P K (bnd m f) A"
  unfolding singles_def
proof
  fix t
  obtain r e where mu: "m K t = (r, t @ [e])" "A (ev_call e)" using m [of t] by (metis prod.collapse)
  have one: "alone P e [e]" unfolding alone_def by (intro exI [of _ "[]"]) auto
  show "\<exists>es. snd (bnd m f K t) = t @ es \<and> (\<forall>e\<in>set es. P (ev_call e) \<or> A (ev_call e) \<and> alone P e es)"
  proof (cases r)
    case (Ret a)
    obtain es where es: "snd (f a K (t @ [e])) = (t @ [e]) @ es" "\<forall>x\<in>set es. P (ev_call x)"
      using f [of a] unfolding emits_def list_all_iff by blast
    then have "alone P e (e # es)" unfolding alone_def by (intro exI [of _ "[]"] exI [of _ es]) auto
    with mu es Ret show ?thesis by (intro exI [of _ "e # es"]) (auto simp: bnd_def)
  qed (use mu one in \<open>auto simp: bnd_def\<close>)
qed

lemma singlesD:
  assumes "singles P K m A" and "m K t = (r, t @ es)" and "e \<in> set es" and "\<not> P (ev_call e)"
  shows "A (ev_call e) \<and> alone P e es"
  using assms unfolding singles_def by (metis same_append_eq snd_conv)

section \<open>What holds at a normal end\<close>

definition post :: "kernel \<Rightarrow> 'a io \<Rightarrow> ('a \<Rightarrow> trace \<Rightarrow> bool) \<Rightarrow> bool" where
  "post K m Q \<longleftrightarrow> (\<forall>t a t'. m K t = (Ret a, t') \<longrightarrow> Q a t')"

named_theorems post_intros \<open>rules for what holds at a normal end\<close>

lemma postD: "post K m Q \<Longrightarrow> m K t = (Ret a, t') \<Longrightarrow> Q a t'"
  by (simp add: post_def)

lemma post_bnd [post_intros]: "(\<And>a t u. m K t = (Ret a, u) \<Longrightarrow> post K (f a) Q) \<Longrightarrow> post K (bnd m f) Q"
  by (fastforce simp: post_def bnd_Ret_iff)

lemma post_thn [post_intros]: "(\<And>a t u. m K t = (Ret a, u) \<Longrightarrow> post K k Q) \<Longrightarrow> post K (thn m k) Q"
  unfolding thn_def by (rule post_bnd)

lemma post_stop [post_intros]: "post K (fail e) Q" "post K (panic s) Q" "post K (os_Exit n) Q" "post K (log_Fatal s) Q"
  by (simp_all add: post_def)

lemma post_ret [post_intros]: "(\<And>t. Q a t) \<Longrightarrow> post K (ret a) Q"
  by (simp add: post_def)

lemma post_if [post_intros]: "(b \<Longrightarrow> post K m Q) \<Longrightarrow> (\<not> b \<Longrightarrow> post K n Q) \<Longrightarrow> post K (if b then m else n) Q"
  by simp

lemma post_case_sum [post_intros]:
  "(\<And>e. x = Inl e \<Longrightarrow> post K (g e) Q) \<Longrightarrow> (\<And>y. x = Inr y \<Longrightarrow> post K (f y) Q) \<Longrightarrow> post K (case x of Inl e \<Rightarrow> g e | Inr y \<Rightarrow> f y) Q"
  by (cases x) auto

lemma post_case_option [post_intros]:
  "(x = None \<Longrightarrow> post K m Q) \<Longrightarrow> (\<And>a. x = Some a \<Longrightarrow> post K (f a) Q) \<Longrightarrow> post K (case x of None \<Rightarrow> m | Some a \<Rightarrow> f a) Q"
  by (cases x) auto

lemma post_case_prod [post_intros]: "(\<And>a b. x = (a, b) \<Longrightarrow> post K (f a b) Q) \<Longrightarrow> post K (case x of (a, b) \<Rightarrow> f a b) Q"
  by (cases x) auto

section \<open>Known results\<close>

text \<open>Composing programs whose result against a kernel is known, for concrete runs.\<close>

named_theorems yields_intros \<open>rules for known results\<close>

lemma yields_bnd: "yields K m a \<Longrightarrow> yields K (f a) b \<Longrightarrow> yields K (bnd m f) b"
  unfolding yields_def by (metis bnd_Ret_iff)

lemma yields_thn: "yields K m () \<Longrightarrow> yields K k b \<Longrightarrow> yields K (thn m k) b"
  unfolding thn_def by (rule yields_bnd)

lemma yields_ret: "yields K (ret a) a"
  by (simp add: yields_def)

lemma yields_note_call: "yields K (note_call c) ()"
  by (simp add: yields_def note_call_def)

lemma yields_call: "(\<And>t. k_do K t c = None) \<Longrightarrow> yields K (call w c) ()"
  by (simp add: yields_def call_def)

lemma yields_ask: "(\<And>t. q K t = Inr a) \<Longrightarrow> yields K (ask q w c) a"
  by (simp add: yields_def ask_def)

lemma yields_mapErr: "yields K m a \<Longrightarrow> yields K (mapErr g m) a"
  by (simp add: yields_def)

lemma yields_attempt: "yields K m a \<Longrightarrow> yields K (attempt m) (Inr a)"
  unfolding yields_def attempt_Ret_iff by metis

lemma yields_whn: "(b \<Longrightarrow> yields K m ()) \<Longrightarrow> yields K (whn b m) ()"
  by (cases b) (simp_all add: whn_def yields_ret)

lemma yields_forE: "(\<And>x. x \<in> set xs \<Longrightarrow> yields K (f x) ()) \<Longrightarrow> yields K (forE xs f) ()"
  by (induction xs) (auto intro: yields_thn yields_ret)

lemma yieldsD: "yields K m a \<Longrightarrow> \<exists>t'. m K t = (Ret a, t')"
  by (simp add: yields_def)

declare yields_thn [yields_intros] yields_bnd [yields_intros] yields_ret [yields_intros] yields_note_call [yields_intros]
  yields_call [yields_intros] yields_ask [yields_intros] yields_mapErr [yields_intros] yields_attempt [yields_intros]
  yields_whn [yields_intros] yields_forE [yields_intros]

lemma emits_all: "emits P m \<Longrightarrow> m K t = (r, t') \<Longrightarrow> \<exists>es. t' = t @ es"
  unfolding emits_def by (metis snd_conv)

lemma post_deferring:
  "post K m Q \<Longrightarrow> (\<And>a u r t'. Q a u \<Longrightarrow> d K u = (r, t') \<Longrightarrow> Q a t') \<Longrightarrow> post K (deferring m d) Q"
  unfolding post_def deferring_Ret_iff by blast

section \<open>The last phase of a program\<close>

text \<open>
  \<open>phase P K t m A\<close>: however \<open>m\<close> ends when it begins with the trace \<open>t\<close>, its calls are a first part
  within \<open>P\<close> and a second part that satisfies \<open>A\<close>.
\<close>

definition phase :: "(syscall \<Rightarrow> bool) \<Rightarrow> kernel \<Rightarrow> trace \<Rightarrow> 'a io \<Rightarrow> (trace \<Rightarrow> bool) \<Rightarrow> bool" where
  "phase P K t m A \<longleftrightarrow> (\<exists>es1 es2. snd (m K t) = t @ es1 @ es2 \<and> (\<forall>e\<in>set es1. P (ev_call e)) \<and> A es2)"

named_theorems phase_intros \<open>rules for programs with a last phase\<close>

lemma phase_silent:
  assumes "emits P m" and "A []"
  shows "phase P K t m A"
proof -
  obtain es where "snd (m K t) = t @ es" "\<forall>e\<in>set es. P (ev_call e)" using assms(1) unfolding emits_def list_all_iff by blast
  with assms(2) show ?thesis unfolding phase_def by (intro exI [of _ es] exI [of _ "[]"]) simp
qed

lemma phase_last:
  assumes "emits Q m" and "\<And>es. snd (m K t) = t @ es \<Longrightarrow> \<forall>e\<in>set es. Q (ev_call e) \<Longrightarrow> A es"
  shows "phase P K t m A"
proof -
  obtain es where "snd (m K t) = t @ es" "\<forall>e\<in>set es. Q (ev_call e)" using assms(1) unfolding emits_def list_all_iff by blast
  with assms(2) show ?thesis unfolding phase_def by (intro exI [of _ "[]"] exI [of _ es]) simp
qed

lemma phase_bnd [phase_intros]:
  assumes m: "emits P m" and A: "A []" and f: "\<And>a u. m K t = (Ret a, u) \<Longrightarrow> phase P K u (f a) A"
  shows "phase P K t (bnd m f) A"
proof -
  obtain r u where mu: "m K t = (r, u)" by force
  then obtain es where u: "u = t @ es" "\<forall>x\<in>set es. P (ev_call x)" using m by (metis emitsD list_all_iff)
  have stop: "\<exists>es1 es2. u = t @ es1 @ es2 \<and> (\<forall>e\<in>set es1. P (ev_call e)) \<and> A es2"
    using u A by (intro exI [of _ es] exI [of _ "[]"]) simp
  show ?thesis
    unfolding phase_def
  proof (cases r)
    case (Ret a)
    obtain es1 es2 where "snd (f a K u) = u @ es1 @ es2" "\<forall>e\<in>set es1. P (ev_call e)" "A es2"
      using f [OF mu [unfolded Ret]] unfolding phase_def by blast
    with mu u Ret show "\<exists>es1 es2. snd (bnd m f K t) = t @ es1 @ es2 \<and> (\<forall>e\<in>set es1. P (ev_call e)) \<and> A es2"
      by (intro exI [of _ "es @ es1"] exI [of _ es2]) (auto simp: bnd_def)
  qed (use mu stop in \<open>simp_all add: bnd_def\<close>)
qed

lemma phase_thn [phase_intros]:
  "emits P m \<Longrightarrow> A [] \<Longrightarrow> (\<And>a u. m K t = (Ret a, u) \<Longrightarrow> phase P K u k A) \<Longrightarrow> phase P K t (thn m k) A"
  unfolding thn_def by (rule phase_bnd)

lemma phase_case_prod [phase_intros]:
  "(\<And>a b. x = (a, b) \<Longrightarrow> phase P K t (f a b) A) \<Longrightarrow> phase P K t (case x of (a, b) \<Rightarrow> f a b) A"
  by (cases x) auto

lemma phase_attempt:
  assumes "phase P K t m A" and "\<And>r t. snd (f r K t) = t"
  shows "phase P K t (bnd (attempt m) f) A"
proof -
  have "snd (bnd (attempt m) f K t) = snd (m K t)"
    using assms(2) by (cases "m K t"; cases "fst (m K t)") (simp_all add: bnd_def attempt_def)
  with assms(1) show ?thesis by (simp add: phase_def)
qed

lemma phaseD:
  assumes "phase P K t m A" and "m K t = (r, t @ es)"
  obtains es1 es2 where "es = es1 @ es2" and "\<forall>e\<in>set es1. P (ev_call e)" and "A es2"
  using assms unfolding phase_def by (metis same_append_eq snd_conv)

end
