(* ===== verification/Codec.thy ===== *)
theory Codec
  imports Prelude
begin

text \<open>
  The contract between a writer and a reader. \<open>codec\<close>: what was encoded decodes to itself.
  \<open>stream_codec\<close>: the reader also finds the end of what it reads, so that a reader that
  is called again and again recovers a sequence of values from their concatenated encodings.
  Interpreted below on the base64 functions, and in the components on the big-endian length and
  on the message frames of the proxy and init.
\<close>

section \<open>The contract\<close>

locale codec =
  fixes valid :: "'a \<Rightarrow> bool"
    and enc :: "'a \<Rightarrow> 'b"
    and dec :: "'b \<Rightarrow> 'a option"
  assumes dec_enc: "valid a \<Longrightarrow> dec (enc a) = Some a"
begin

lemma enc_inj: "valid a \<Longrightarrow> valid b \<Longrightarrow> enc a = enc b \<Longrightarrow> a = b"
  by (metis dec_enc option.inject)

end

locale stream_codec =
  fixes valid :: "'a \<Rightarrow> bool"
    and put :: "'a \<Rightarrow> 'b list"
    and get :: "'b list \<Rightarrow> ('a \<times> 'b list) option"
  assumes get_put: "valid a \<Longrightarrow> get (put a @ r) = Some (a, r)"
begin

fun get_all :: "nat \<Rightarrow> 'b list \<Rightarrow> ('a list \<times> 'b list) option" where
  "get_all 0 s = Some ([], s)"
| "get_all (Suc n) s = (case get s of
      None \<Rightarrow> None
    | Some (a, r) \<Rightarrow> (case get_all n r of None \<Rightarrow> None | Some (as, r') \<Rightarrow> Some (a # as, r')))"

lemma get_all_put:
  "list_all valid as \<Longrightarrow> get_all (length as) (concat (map put as) @ r) = Some (as, r)"
  by (induction as) (simp_all add: get_put)

text \<open>Different sequences of the same length have different encodings.\<close>

lemma concat_put_inj:
  assumes "list_all valid as" and "list_all valid bs"
    and "concat (map put as) = concat (map put bs)" and "length as = length bs"
  shows "as = bs"
  using get_all_put [of as "[]"] get_all_put [of bs "[]"] assms by simp

end

sublocale stream_codec \<subseteq> single: codec valid put "\<lambda>s. case get s of Some (a, []) \<Rightarrow> Some a | _ \<Rightarrow> None"
  using get_put [of _ "[]"] by unfold_locales simp

section \<open>Base64\<close>

text \<open>
  \<^verbatim>\<open>base64.StdEncoding\<close>: three bytes to four letters, with padding. The decoder skips
  carriage returns and newlines and refuses everything else outside the alphabet.
\<close>

definition b64Char :: "nat \<Rightarrow> char" where
  "b64Char n =
     (if n < 26 then char_of (65 + n)
      else if n < 52 then char_of (71 + n)
      else if n < 62 then char_of (n - 4)
      else if n = 62 then CHR ''+'' else CHR ''/'')"

definition b64Val :: "char \<Rightarrow> nat option" where
  "b64Val c =
     (if isUpper c then Some (of_char c - 65)
      else if isLower c then Some (of_char c - 71)
      else if isDigit c then Some (of_char c + 4)
      else if c = CHR ''+'' then Some 62
      else if c = CHR ''/'' then Some 63 else None)"

fun base64_Encode :: "byte list \<Rightarrow> string" where
  "base64_Encode [] = []"
| "base64_Encode [a] =
     (let v = unat a * 65536
      in [b64Char (v div 262144), b64Char (v div 4096 mod 64), CHR ''='', CHR ''=''])"
| "base64_Encode [a, b] =
     (let v = unat a * 65536 + unat b * 256
      in [b64Char (v div 262144), b64Char (v div 4096 mod 64), b64Char (v div 64 mod 64), CHR ''=''])"
| "base64_Encode (a # b # c # r) =
     (let v = unat a * 65536 + unat b * 256 + unat c
      in b64Char (v div 262144) # b64Char (v div 4096 mod 64) # b64Char (v div 64 mod 64)
           # b64Char (v mod 64) # base64_Encode r)"

fun b64Quads :: "string \<Rightarrow> byte list option" where
  "b64Quads [] = Some []"
| "b64Quads (p # q # x # y # r) =
     (case (b64Val p, b64Val q) of
        (Some i, Some j) \<Rightarrow>
          (if x = CHR ''='' then
             (if y = CHR ''='' \<and> r = [] then Some [word_of_nat ((i * 64 + j) div 16)] else None)
           else (case b64Val x of
               None \<Rightarrow> None
             | Some k \<Rightarrow>
                (if y = CHR ''='' then
                   (if r = []
                    then Some [word_of_nat ((i * 64 + j) div 16),
                               word_of_nat (((i * 64 + j) * 64 + k) div 4 mod 256)]
                    else None)
                 else (case (b64Val y, b64Quads r) of
                     (Some l, Some bs) \<Rightarrow>
                       (let v = ((i * 64 + j) * 64 + k) * 64 + l
                        in Some (word_of_nat (v div 65536) # word_of_nat (v div 256 mod 256)
                                   # word_of_nat (v mod 256) # bs))
                   | _ \<Rightarrow> None))))
      | _ \<Rightarrow> None)"
| "b64Quads _ = None"

definition base64_Decode :: "string \<Rightarrow> byte list option" where
  "base64_Decode s = b64Quads (filter (\<lambda>c. c \<noteq> CHR 0x0A \<and> c \<noteq> CHR 0x0D) s)"

lemma of_char_b64Char:
  "n < 64 \<Longrightarrow> (of_char (b64Char n) :: nat) =
     (if n < 26 then 65 + n else if n < 52 then 71 + n else if n < 62 then n - 4
      else if n = 62 then 43 else 47)"
  by (simp add: b64Char_def)

lemma b64Val_b64Char: "n < 64 \<Longrightarrow> b64Val (b64Char n) = Some n"
proof -
  assume n: "n < 64"
  consider "n < 26" | "26 \<le> n" "n < 52" | "52 \<le> n" "n < 62" | "n = 62" | "n = 63"
    using n by linarith
  then show ?thesis
    using n by cases (auto simp: b64Val_def isUpper_def isLower_def isDigit_def of_char_b64Char b64Char_def)
qed

lemma b64Char_plain:
  assumes "n < 64"
  shows "b64Char n \<noteq> CHR ''=''" and "b64Char n \<noteq> CHR 0x0A" and "b64Char n \<noteq> CHR 0x0D"
proof -
  have "b64Val (b64Char n) \<noteq> None" using assms by (simp add: b64Val_b64Char)
  then show "b64Char n \<noteq> CHR ''=''" "b64Char n \<noteq> CHR 0x0A" "b64Char n \<noteq> CHR 0x0D"
    by (auto simp: b64Val_def isUpper_def isLower_def isDigit_def)
qed

lemma byte_lt [simp]: "unat (a :: byte) < 256"
proof -
  have "unat a < 2 ^ LENGTH(8)" by (rule unsigned_less)
  then show ?thesis by simp
qed

text \<open>The four sextets of a 24-bit group, and the group from its sextets.\<close>

lemma sextets:
  assumes "v < (16777216 :: nat)"
  shows "v div 262144 < 64" and "v div 4096 mod 64 < 64" and "v div 64 mod 64 < 64" and "v mod 64 < 64"
    and "v div 262144 * 64 + v div 4096 mod 64 = v div 4096"
    and "v div 4096 * 64 + v div 64 mod 64 = v div 64"
proof -
  have 1: "v div 262144 = v div 4096 div 64" by (simp add: div_mult2_eq [symmetric])
  have 2: "v div 4096 = v div 64 div 64" by (simp add: div_mult2_eq [symmetric])
  show "v div 262144 * 64 + v div 4096 mod 64 = v div 4096" by (simp add: 1)
  show "v div 4096 * 64 + v div 64 mod 64 = v div 64" by (simp add: 2)
qed (use assms in auto)

lemma bytes_of_group:
  fixes a b c :: byte
  defines "v \<equiv> unat a * 65536 + unat b * 256 + unat c"
  shows "v < 16777216" and "v div 65536 = unat a" and "v div 256 mod 256 = unat b"
    and "v mod 256 = unat c"
proof -
  have lt: "unat a < 256" "unat b < 256" "unat c < 256" by simp_all
  have v: "v = (unat a * 256 + unat b) * 256 + unat c" by (simp add: v_def)
  have d: "v div 256 = unat a * 256 + unat b" using lt(3) unfolding v by (simp only: div_mult_self3 div_less)
  have "v div 65536 = v div 256 div 256" by (simp add: div_mult2_eq [symmetric])
  with d lt(2) show "v div 65536 = unat a" by simp
  show "v div 256 mod 256 = unat b" using lt(2) by (simp add: d)
  show "v mod 256 = unat c" using lt(3) unfolding v by (simp only: mod_mult_self3 mod_less)
  show "v < 16777216" using lt unfolding v_def by linarith
qed

lemmas b64_simps = sextets b64Val_b64Char b64Char_plain

lemma filter_base64_Encode:
  "filter (\<lambda>c. c \<noteq> CHR 0x0A \<and> c \<noteq> CHR 0x0D) (base64_Encode bs) = base64_Encode bs"
proof (induction bs rule: base64_Encode.induct)
  case (2 a)
  define v where "v = unat a * 65536"
  have "v < 16777216" using bytes_of_group(1) [of a 0 0] by (simp add: v_def)
  then show ?case by (simp add: Let_def b64_simps flip: v_def)
next
  case (3 a b)
  define v where "v = unat a * 65536 + unat b * 256"
  have "v < 16777216" using bytes_of_group(1) [of a b 0] by (simp add: v_def)
  then show ?case by (simp add: Let_def b64_simps flip: v_def)
next
  case (4 a b c r)
  define v where "v = unat a * 65536 + unat b * 256 + unat c"
  have "v < 16777216" using bytes_of_group(1) [of a b c] by (simp add: v_def)
  with 4 show ?case by (simp add: Let_def b64_simps flip: v_def)
qed simp

lemma b64Quads_Encode: "b64Quads (base64_Encode bs) = Some bs"
proof (induction bs rule: base64_Encode.induct)
  case (2 a)
  define v where "v = unat a * 65536"
  have v: "v < 16777216" "v div 65536 = unat a"
    using bytes_of_group(1,2) [of a 0 0] by (simp_all add: v_def)
  have "v div 4096 div 16 = unat a" using v(2) by (simp add: div_mult2_eq [symmetric])
  with v show ?case by (simp add: Let_def b64_simps flip: v_def)
next
  case (3 a b)
  define v where "v = unat a * 65536 + unat b * 256"
  have v: "v < 16777216" "v div 65536 = unat a" "v div 256 mod 256 = unat b"
    using bytes_of_group(1-3) [of a b 0] by (simp_all add: v_def)
  have "v div 4096 div 16 = unat a" "v div 64 div 4 mod 256 = unat b"
    using v(2,3) by (simp_all add: div_mult2_eq [symmetric])
  with v show ?case by (simp add: Let_def b64_simps flip: v_def)
next
  case (4 a b c r)
  define v where "v = unat a * 65536 + unat b * 256 + unat c"
  note v = bytes_of_group [of a b c, folded v_def]
  have "b64Quads (base64_Encode r) = Some r"
    by (rule "4.IH") (simp add: v_def)
  with v show ?case by (simp add: Let_def b64_simps flip: v_def)
qed simp

interpretation b64: codec "\<lambda>_. True" base64_Encode base64_Decode
  by unfold_locales (simp add: base64_Decode_def filter_base64_Encode b64Quads_Encode)

end
