(* ===== verification/Net.thy ===== *)
theory Net
  imports OS Codec
begin

text \<open>
  What the proxy takes from the package \<^verbatim>\<open>net\<close> of the Go library: reading and printing
  addresses, prefixes and their masks. An address is a list of 4 or 16 bytes, as in Go; a parsed
  address always has 16. A missing address (\<^verbatim>\<open>nil\<close>) is \<open>None\<close>.
\<close>

section \<open>Numbers at the front of a text\<close>

text \<open>
  \<^verbatim>\<open>dtoi\<close> and \<^verbatim>\<open>xtoi\<close>: the number that the leading digits denote and the text behind
  them. Without a digit, or once the number reaches \<open>0xFFFFFF\<close>, there is none.
\<close>

definition bigNum :: nat where "bigNum = 0xFFFFFF"

definition leadingNum :: "nat \<Rightarrow> (char \<Rightarrow> bool) \<Rightarrow> string \<Rightarrow> (nat \<times> string) option" where
  "leadingNum b digit s =
     (let ds = takeWhile digit s; n = readBase b ds
      in if ds = [] \<or> bigNum \<le> n then None else Some (n, dropWhile digit s))"

definition dtoi :: "string \<Rightarrow> (nat \<times> string) option" where
  "dtoi = leadingNum 10 isDigit"

definition xtoi :: "string \<Rightarrow> (nat \<times> string) option" where
  "xtoi = leadingNum 16 isHex"

section \<open>Addresses\<close>

definition v4InV6Prefix :: "byte list" where
  "v4InV6Prefix = replicate 10 0 @ [0xff, 0xff]"

definition To4 :: "ip \<Rightarrow> ip option" where
  "To4 a =
     (if length a = 4 then Some a
      else if length a = 16 \<and> take 12 a = v4InV6Prefix then Some (drop 12 a)
      else None)"

definition IsLoopback :: "ip \<Rightarrow> bool" where
  "IsLoopback a = (case To4 a of
      Some a4 \<Rightarrow> hd a4 = 127 | None \<Rightarrow> a = replicate 15 0 @ [1])"

text \<open>The bytes of a dotted address: \<open>k\<close> more of them.\<close>

fun dottedBytes :: "nat \<Rightarrow> bool \<Rightarrow> string \<Rightarrow> byte list option" where
  "dottedBytes 0 started s = (if s = [] then Some [] else None)"
| "dottedBytes (Suc k) started s =
     (if s = [] \<or> (started \<and> hd s \<noteq> CHR ''.'') then None
      else case dtoi (if started then tl s else s) of
          None \<Rightarrow> None
        | Some (n, rest) \<Rightarrow>
            (if 0xFF < n then None
             else map_option ((#) (of_nat n)) (dottedBytes k True rest)))"

definition parseIPv4 :: "string \<Rightarrow> ip option" where
  "parseIPv4 s = map_option ((@) v4InV6Prefix) (dottedBytes 4 False s)"

text \<open>
  The loop of \<^verbatim>\<open>parseIPv6\<close>: at most \<open>k\<close> more groups, the bytes read so far, the position of
  the ellipsis if there was one, and the text. The result is the state when the loop ends.
\<close>

fun v6Loop :: "nat \<Rightarrow> byte list \<Rightarrow> nat option \<Rightarrow> string \<Rightarrow> (byte list \<times> nat option \<times> string) option" where
  "v6Loop 0 acc e s = Some (acc, e, s)"
| "v6Loop (Suc k) acc e s = (case xtoi s of
      None \<Rightarrow> None
    | Some (n, rest) \<Rightarrow>
        (if 0xFFFF < n then None
         else if rest \<noteq> [] \<and> hd rest = CHR ''.'' then
           (if e = None \<and> length acc \<noteq> 12 \<or> 16 < length acc + 4 then None
            else map_option (\<lambda>a. (acc @ drop 12 a, e, [])) (parseIPv4 s))
         else
           (let acc' = acc @ [of_nat (n div 256), of_nat n]
            in if rest = [] then Some (acc', e, [])
               else if hd rest \<noteq> CHR '':'' \<or> length rest = 1 then None
               else if hd (tl rest) = CHR '':'' then
                 (if e \<noteq> None then None
                  else if tl (tl rest) = [] then Some (acc', Some (length acc'), [])
                  else v6Loop k acc' (Some (length acc')) (tl (tl rest)))
               else v6Loop k acc' e (tl rest))))"

definition v6Finish :: "byte list \<times> nat option \<times> string \<Rightarrow> ip option" where
  "v6Finish = (\<lambda>(acc, e, s).
     if s \<noteq> [] then None
     else case e of
         None \<Rightarrow> if length acc < 16 then None else Some acc
       | Some p \<Rightarrow> if length acc < 16 then Some (take p acc @ replicate (16 - length acc) 0 @ drop p acc) else None)"

definition parseIPv6 :: "string \<Rightarrow> ip option" where
  "parseIPv6 s =
     (if HasPrefix s ''::'' then
        (if drop 2 s = [] then Some (replicate 16 0)
         else Option.bind (v6Loop 8 [] (Some 0) (drop 2 s)) v6Finish)
      else Option.bind (v6Loop 8 [] None s) v6Finish)"

definition ParseIP :: "string \<Rightarrow> ip option" where
  "ParseIP s = (case dropWhile (\<lambda>c. c \<noteq> CHR ''.'' \<and> c \<noteq> CHR '':'') s of
      [] \<Rightarrow> None
    | c # _ \<Rightarrow> if c = CHR ''.'' then parseIPv4 s else parseIPv6 s)"

section \<open>Printing\<close>

text \<open>The 16-bit groups of an address of 16 bytes.\<close>

fun groups :: "byte list \<Rightarrow> nat list" where
  "groups (a # b # r) = (unat a * 256 + unat b) # groups r"
| "groups _ = []"

text \<open>The first longest run of zero groups, as its start and its end; \<open>(0, 0)\<close> if there is none.\<close>

fun zeroRun :: "nat \<Rightarrow> nat list \<Rightarrow> nat \<times> nat \<Rightarrow> nat \<times> nat" where
  "zeroRun i [] best = best"
| "zeroRun i (g # gs) best =
     (let n = length (takeWhile ((=) 0) (g # gs))
      in zeroRun (Suc i) gs (if snd best - fst best < n then (i, i + n) else best))"

fun joinGroups :: "nat list \<Rightarrow> string" where
  "joinGroups [] = []"
| "joinGroups [g] = showHex g"
| "joinGroups (g # gs) = showHex g @ '':'' @ joinGroups gs"

definition ipv6String :: "nat list \<Rightarrow> string" where
  "ipv6String gs =
     (let (e0, e1) = zeroRun 0 gs (0, 0)
      in if e1 - e0 \<le> 1 then joinGroups gs
         else joinGroups (take e0 gs) @ ''::'' @ joinGroups (drop e1 gs))"

definition dotted :: "byte list \<Rightarrow> string" where
  "dotted bs = Join (map (showNat \<circ> unat) bs) ''.''"

definition hexString :: "byte list \<Rightarrow> string" where
  "hexString bs = concat (map (\<lambda>b. [digitChar (unat b div 16), digitChar (unat b mod 16)]) bs)"

definition IP_String :: "ip \<Rightarrow> string" where
  "IP_String a =
     (if a = [] then ''<nil>''
      else case To4 a of
          Some a4 \<Rightarrow> dotted a4
        | None \<Rightarrow> if length a \<noteq> 16 then CHR ''?'' # hexString a else ipv6String (groups a))"

section \<open>Prefixes\<close>

text \<open>\<^verbatim>\<open>CIDRMask\<close>: \<open>ones\<close> bits in \<open>n\<close> bytes.\<close>

fun CIDRMask :: "nat \<Rightarrow> nat \<Rightarrow> byte list" where
  "CIDRMask ones 0 = []"
| "CIDRMask ones (Suc n) =
     (if 8 \<le> ones then 0xff else NOT (mask (8 - ones))) # CIDRMask (ones - 8) n"

record ipnet =
  net_IP :: ip
  net_Mask :: "byte list"

definition maskBytes :: "byte list \<Rightarrow> byte list \<Rightarrow> byte list" where
  "maskBytes a m = map2 (AND) a m"

text \<open>\<^verbatim>\<open>IP.Mask\<close> for the masks that \<^verbatim>\<open>ParseCIDR\<close> builds.\<close>

definition ipMask :: "ip \<Rightarrow> byte list \<Rightarrow> ip" where
  "ipMask a m = maskBytes (if length m = 4 \<and> length a = 16 \<and> take 12 a = v4InV6Prefix then drop 12 a else a) m"

definition ParseCIDR :: "string \<Rightarrow> (ip \<times> ipnet) option" where
  "ParseCIDR s =
     (let addr = takeWhile (\<lambda>c. c \<noteq> CHR ''/'') s; rest = dropWhile (\<lambda>c. c \<noteq> CHR ''/'') s;
          (iplen, a) = (case parseIPv4 addr of Some a \<Rightarrow> (4, Some a) | None \<Rightarrow> (16, parseIPv6 addr))
      in if rest = [] then None
         else case (a, dtoi (tl rest)) of
             (Some a, Some (n, [])) \<Rightarrow>
               (if 8 * iplen < n then None
                else let m = CIDRMask n iplen in Some (a, \<lparr>net_IP = ipMask a m, net_Mask = m\<rparr>))
           | _ \<Rightarrow> None)"

definition Contains :: "ipnet \<Rightarrow> ip \<Rightarrow> bool" where
  "Contains n a0 =
     (let nn = (case To4 (net_IP n) of Some x \<Rightarrow> x | None \<Rightarrow> net_IP n);
          m = (if length (net_Mask n) = 16 \<and> length nn = 4 then drop 12 (net_Mask n) else net_Mask n);
          a = (case To4 a0 of Some x \<Rightarrow> x | None \<Rightarrow> a0)
      in length a = length nn \<and> maskBytes nn m = maskBytes a m)"

section \<open>Reading back what is printed\<close>

lemma leadingNum_shown:
  assumes "list_all digit ds" and "ds \<noteq> []" and "readBase b ds < bigNum"
    and "r = [] \<or> \<not> digit (hd r)"
  shows "leadingNum b digit (ds @ r) = Some (readBase b ds, r)"
proof -
  have "takeWhile digit (ds @ r) = ds" "dropWhile digit (ds @ r) = r"
    using assms by (cases r; simp add: takeWhile_append dropWhile_append list_all_iff)+
  with assms show ?thesis by (simp add: leadingNum_def Let_def)
qed

lemma dtoi_showNat: "n < bigNum \<Longrightarrow> r = [] \<or> \<not> isDigit (hd r) \<Longrightarrow> dtoi (showNat n @ r) = Some (n, r)"
  unfolding dtoi_def by (subst leadingNum_shown) simp_all

lemma showHex_hex [simp]: "list_all isHex (showHex n)"
proof -
  have "isHex (digitChar d)" if "d < 16" for d
    using that by (simp add: isHex_def isDigit_def of_char_digitChar)
  then show ?thesis using digitsBase_less [of 16 _ n] by (auto simp: showHex_def list_all_iff)
qed

lemma showHex_nonempty [simp]: "showHex n \<noteq> []"
  by (simp add: showHex_def)

lemma xtoi_showHex: "n < bigNum \<Longrightarrow> r = [] \<or> \<not> isHex (hd r) \<Longrightarrow> xtoi (showHex n @ r) = Some (n, r)"
  unfolding xtoi_def by (subst leadingNum_shown) simp_all

lemma not_digit_marks [simp]: "\<not> isDigit (CHR ''.'')" "\<not> isDigit (CHR '':'')" "\<not> isHex (CHR ''.'')" "\<not> isHex (CHR '':'')"
  by (simp_all add: isDigit_def isHex_def)

lemma unat_byte_big: "unat (b :: byte) < bigNum" "unat (b :: byte) \<le> 255"
  using byte_lt [of b] by (simp_all add: bigNum_def del: byte_lt)

subsection \<open>Dotted addresses\<close>

lemma dottedBytes_step:
  assumes "r = [] \<or> \<not> isDigit (hd r)"
  shows "dottedBytes (Suc k) st ((if st then ''.'' else []) @ showNat (unat b) @ r)
    = map_option ((#) b) (dottedBytes k True r)"
  using dtoi_showNat [OF unat_byte_big(1) assms, of b] unat_byte_big(2) [of b] by simp

lemma dotted_Cons: "bs \<noteq> [] \<Longrightarrow> dotted (b # bs) = showNat (unat b) @ ''.'' @ dotted bs"
  by (cases bs) (simp_all add: dotted_def)

lemma dottedBytes_dotted:
  "bs \<noteq> [] \<Longrightarrow> dottedBytes (length bs) st ((if st then ''.'' else []) @ dotted bs) = Some bs"
proof (induction bs arbitrary: st)
  case (Cons b bs)
  show ?case
  proof (cases bs)
    case Nil
    then show ?thesis using dottedBytes_step [of "[]" 0 st b] by (simp add: dotted_def)
  next
    case (Cons c cs)
    then have "dottedBytes (length bs) True (''.'' @ dotted bs) = Some bs" using Cons.IH [of True] by simp
    with Cons show ?thesis
      using dottedBytes_step [of "''.'' @ dotted bs" "length bs" st b] by (simp add: dotted_Cons)
  qed
qed simp

lemma parseIPv4_dotted: "length bs = 4 \<Longrightarrow> parseIPv4 (dotted bs) = Some (v4InV6Prefix @ bs)"
  using dottedBytes_dotted [of bs False] by (cases bs) (auto simp: parseIPv4_def numeral_eq_Suc)

lemma dropWhile_shown:
  "list_all P ds \<Longrightarrow> dropWhile P (ds @ c # r) = dropWhile P (c # r)"
  by (simp add: dropWhile_append list_all_iff)

lemma digits_no_mark: "list_all isDigit ds \<Longrightarrow> list_all (\<lambda>c. c \<noteq> CHR ''.'' \<and> c \<noteq> CHR '':'') ds"
  "list_all isHex ds \<Longrightarrow> list_all (\<lambda>c. c \<noteq> CHR ''.'' \<and> c \<noteq> CHR '':'') ds"
  using not_digit_marks by (force simp: list_all_iff)+

lemma ParseIP_dotted: "length bs = 4 \<Longrightarrow> ParseIP (dotted bs) = Some (v4InV6Prefix @ bs)"
proof -
  assume l: "length bs = 4"
  then obtain b c r where "bs = b # c # r" by (auto simp: numeral_eq_Suc length_Suc_conv)
  then have "dotted bs = showNat (unat b) @ CHR ''.'' # dotted (c # r)" by (simp add: dotted_Cons)
  then have "dropWhile (\<lambda>c. c \<noteq> CHR ''.'' \<and> c \<noteq> CHR '':'') (dotted bs) = CHR ''.'' # dotted (c # r)"
    by (simp add: dropWhile_shown digits_no_mark)
  with parseIPv4_dotted [OF l] show ?thesis by (simp add: ParseIP_def)
qed

subsection \<open>Groups\<close>

definition groupBytes :: "nat \<Rightarrow> byte list" where
  "groupBytes g = [of_nat (g div 256), of_nat g]"

lemma length_groupBytes [simp]: "length (groupBytes g) = 2"
  by (simp add: groupBytes_def)

lemma groups_bytes: "even (length bs) \<Longrightarrow> concat (map groupBytes (groups bs)) = bs"
proof (induction bs rule: groups.induct)
  case (1 a b r)
  have zero: "(256 :: byte) = 0" by (rule word_uint_eqI) simp
  have "groupBytes (unat a * 256 + unat b) = [a, b]"
    by (simp add: groupBytes_def) (simp only: zero mult_zero_right)
  with 1 show ?case by simp
qed simp_all

lemma groups_bound: "g \<in> set (groups bs) \<Longrightarrow> g \<le> 0xFFFF"
proof (induction bs rule: groups.induct)
  case (1 a b r)
  then show ?case using unat_byte_big(2) [of a] unat_byte_big(2) [of b] by auto
qed simp_all

lemma length_groups: "length (groups bs) = length bs div 2"
  by (induction bs rule: groups.induct) simp_all

definition small :: "nat list \<Rightarrow> bool" where
  "small gs \<longleftrightarrow> list_all (\<lambda>g. g \<le> 0xFFFF) gs"

lemma joinGroups_Cons: "gs \<noteq> [] \<Longrightarrow> joinGroups (g # gs) = showHex g @ '':'' @ joinGroups gs"
  by (cases gs) simp_all

lemma hd_joinGroups: "gs \<noteq> [] \<Longrightarrow> joinGroups gs \<noteq> [] \<and> isHex (hd (joinGroups gs))"
proof -
  assume "gs \<noteq> []"
  then obtain g r where "joinGroups gs = showHex g @ r" by (cases gs rule: joinGroups.cases) auto
  moreover have "isHex (hd (showHex g))"
    using showHex_hex [of g] by (metis hd_in_set list_all_iff showHex_nonempty)
  ultimately show ?thesis by simp
qed

text \<open>One group, and what may stand behind it.\<close>

lemma v6_last: "g \<le> 0xFFFF \<Longrightarrow> v6Loop (Suc k) acc e (showHex g) = Some (acc @ groupBytes g, e, [])"
  using xtoi_showHex [of g "[]"] by (simp add: bigNum_def groupBytes_def)

lemma v6_colon:
  assumes "g \<le> 0xFFFF" and "r \<noteq> []" and "hd r \<noteq> CHR '':''"
  shows "v6Loop (Suc k) acc e (showHex g @ '':'' @ r) = v6Loop k (acc @ groupBytes g) e r"
  using xtoi_showHex [of g "'':'' @ r"] assms by (simp add: bigNum_def groupBytes_def Let_def)

lemma v6_ellipsis:
  assumes "g \<le> 0xFFFF"
  shows "v6Loop (Suc k) acc None (showHex g @ ''::'' @ r) =
    (if r = [] then Some (acc @ groupBytes g, Some (length acc + 2), [])
     else v6Loop k (acc @ groupBytes g) (Some (length acc + 2)) r)"
  using xtoi_showHex [of g "''::'' @ r"] assms by (simp add: bigNum_def groupBytes_def Let_def)

lemma v6_groups:
  assumes "gs \<noteq> []" and "length gs \<le> k" and "small gs"
  shows "v6Loop k acc e (joinGroups gs) = Some (acc @ concat (map groupBytes gs), e, [])"
  using assms
proof (induction gs arbitrary: k acc)
  case (Cons g gs)
  then obtain k' where k: "k = Suc k'" by (cases k) simp_all
  have g: "g \<le> 0xFFFF" using Cons.prems by (simp add: small_def)
  show ?case
  proof (cases "gs = []")
    case True
    with v6_last [OF g] k show ?thesis by simp
  next
    case False
    then have "joinGroups gs \<noteq> []" "hd (joinGroups gs) \<noteq> CHR '':''" using hd_joinGroups [of gs] by auto
    then have "v6Loop k acc e (joinGroups (g # gs)) = v6Loop k' (acc @ groupBytes g) e (joinGroups gs)"
      using v6_colon [OF g] False k by (simp add: joinGroups_Cons)
    with Cons False k show ?thesis by (simp add: small_def)
  qed
qed simp

lemma v6_split:
  assumes "gs \<noteq> []" and "length gs + length hs \<le> k" and "small gs" and "small hs"
  shows "v6Loop k acc None (joinGroups gs @ ''::'' @ joinGroups hs) =
    Some (acc @ concat (map groupBytes gs) @ concat (map groupBytes hs), Some (length acc + 2 * length gs), [])"
  using assms
proof (induction gs arbitrary: k acc)
  case (Cons g gs)
  then obtain k' where k: "k = Suc k'" by (cases k) simp_all
  have g: "g \<le> 0xFFFF" using Cons.prems by (simp add: small_def)
  show ?case
  proof (cases "gs = []")
    case True
    have "v6Loop k' (acc @ groupBytes g) (Some (length acc + 2)) (joinGroups hs) =
      Some ((acc @ groupBytes g) @ concat (map groupBytes hs), Some (length acc + 2), [])" if "hs \<noteq> []"
      using v6_groups [OF that] Cons.prems k by simp
    then show ?thesis using True k v6_ellipsis [OF g, of k' acc "joinGroups hs"] hd_joinGroups [of hs]
      by (cases "hs = []") auto
  next
    case False
    then have "joinGroups gs \<noteq> []" "hd (joinGroups gs) \<noteq> CHR '':''" using hd_joinGroups [of gs] by auto
    then have "v6Loop k acc None (joinGroups (g # gs) @ ''::'' @ joinGroups hs)
        = v6Loop k' (acc @ groupBytes g) None (joinGroups gs @ ''::'' @ joinGroups hs)"
      using v6_colon [OF g, of "joinGroups gs @ ''::'' @ joinGroups hs"] False k by (simp add: joinGroups_Cons)
    also have "\<dots> = Some ((acc @ groupBytes g) @ concat (map groupBytes gs) @ concat (map groupBytes hs),
        Some (length (acc @ groupBytes g) + 2 * length gs), [])"
      using Cons False k by (intro Cons.IH) (simp_all add: small_def)
    finally show ?thesis by simp
  qed
qed simp

subsection \<open>The run of zeros\<close>

lemma zeroRun_zeros:
  assumes "i + length gs = length all" and "drop i all = gs"
    and "fst best \<le> snd best" and "snd best \<le> length all" and "\<forall>j. fst best \<le> j \<and> j < snd best \<longrightarrow> all ! j = 0"
    and "zeroRun i gs best = (e0, e1)"
  shows "e0 \<le> e1 \<and> e1 \<le> length all \<and> (\<forall>j. e0 \<le> j \<and> j < e1 \<longrightarrow> all ! j = 0)"
  using assms
proof (induction gs arbitrary: i best)
  case (Cons g gs)
  define n where "n = length (takeWhile ((=) 0) (g # gs))"
  have n: "n \<le> length (g # gs)" unfolding n_def by (rule length_takeWhile_le)
  have zeros: "all ! j = 0" if "i \<le> j" "j < i + n" for j
  proof -
    have j: "j - i < length (takeWhile ((=) 0) (g # gs))" using that by (simp add: n_def)
    then have "(g # gs) ! (j - i) = takeWhile ((=) 0) (g # gs) ! (j - i)" by (rule takeWhile_nth [symmetric])
    moreover have "takeWhile ((=) 0) (g # gs) ! (j - i) = 0" using nth_mem [OF j] by (auto dest: set_takeWhileD)
    moreover have "all ! j = (g # gs) ! (j - i)" using that Cons.prems(1,2) by (metis add_diff_inverse_nat le_add_diff_inverse nth_drop le_iff_add le_add1)
    ultimately show ?thesis by simp
  qed
  let ?best = "if snd best - fst best < n then (i, i + n) else best"
  have "zeroRun (Suc i) gs ?best = (e0, e1)" using Cons.prems(6) by (simp only: zeroRun.simps Let_def n_def)
  moreover have "drop (Suc i) all = gs" using Cons.prems(2) by (metis drop_Suc list.sel(3) tl_drop)
  ultimately show ?case
    using Cons.prems n zeros by (intro Cons.IH [of "Suc i" ?best]) auto
qed auto

lemma zero_slice:
  assumes "e0 \<le> e1" and "e1 \<le> length gs" and "\<forall>j. e0 \<le> j \<and> j < e1 \<longrightarrow> gs ! j = 0"
  shows "gs = take e0 gs @ replicate (e1 - e0) 0 @ drop e1 gs"
proof (rule nth_equalityI)
  show "length gs = length (take e0 gs @ replicate (e1 - e0) 0 @ drop e1 gs)" using assms by simp
  fix j assume "j < length gs"
  with assms show "gs ! j = (take e0 gs @ replicate (e1 - e0) 0 @ drop e1 gs) ! j"
    by (auto simp: nth_append)
qed

lemma zero_bytes: "concat (replicate n (groupBytes 0)) = replicate (2 * n) 0"
  by (induction n) (simp_all add: groupBytes_def)

lemma length_bytes: "length (concat (map groupBytes gs)) = 2 * length gs"
  by (induction gs) simp_all

lemma v6Finish_groups:
  assumes "length gs + n + length hs = 8" and "0 < n"
  shows "v6Finish (concat (map groupBytes gs) @ concat (map groupBytes hs), Some (2 * length gs), [])
    = Some (concat (map groupBytes (gs @ replicate n 0 @ hs)))"
proof -
  have "16 - (2 * length gs + 2 * length hs) = 2 * n" using assms(1) by simp
  with assms show ?thesis by (simp add: v6Finish_def length_bytes zero_bytes)
qed

text \<open>An ellipsis in front, or between groups.\<close>

lemma parseIPv6_ellipsis:
  assumes "length gs + n + length hs = 8" and "0 < n" and "small gs" and "small hs"
  shows "parseIPv6 (joinGroups gs @ ''::'' @ joinGroups hs) = Some (concat (map groupBytes (gs @ replicate n 0 @ hs)))"
proof (cases "gs = []")
  case True
  have "v6Loop 8 [] (Some 0) (joinGroups hs) = Some (concat (map groupBytes hs), Some 0, [])" if "hs \<noteq> []"
    using v6_groups [OF that, of 8 "[]" "Some 0"] assms by simp
  then show ?thesis
    using True assms hd_joinGroups [of hs] v6Finish_groups [of "[]" n hs]
    by (cases "hs = []") (simp_all add: parseIPv6_def HasPrefix_def zero_bytes)
next
  case False
  then have hd: "joinGroups gs \<noteq> []" "hd (joinGroups gs) \<noteq> CHR '':''" using hd_joinGroups [of gs] by auto
  then have "\<not> HasPrefix (joinGroups gs @ ''::'' @ joinGroups hs) ''::''"
    by (cases "joinGroups gs") (simp_all add: HasPrefix_def)
  then show ?thesis
    using v6_split [OF False, of hs 8 "[]"] v6Finish_groups [of gs n hs] assms
    by (simp add: parseIPv6_def)
qed

lemma parseIPv6_full:
  assumes "length gs = 8" and "small gs"
  shows "parseIPv6 (joinGroups gs) = Some (concat (map groupBytes gs))"
proof -
  have ne: "gs \<noteq> []" using assms by auto
  then have "\<not> HasPrefix (joinGroups gs) ''::''"
    using hd_joinGroups [of gs] by (cases "joinGroups gs") (auto simp: HasPrefix_def)
  then show ?thesis
    using v6_groups [OF ne, of 8 "[]" None] assms by (simp add: parseIPv6_def v6Finish_def length_bytes)
qed

lemma parseIPv6_String:
  assumes "length gs = 8" and "small gs"
  shows "parseIPv6 (ipv6String gs) = Some (concat (map groupBytes gs))"
proof -
  obtain e0 e1 where e: "zeroRun 0 gs (0, 0) = (e0, e1)" by force
  have run: "e0 \<le> e1 \<and> e1 \<le> length gs \<and> (\<forall>j. e0 \<le> j \<and> j < e1 \<longrightarrow> gs ! j = 0)"
    by (rule zeroRun_zeros [of 0 gs gs "(0, 0)"]) (simp_all add: e)
  then have eq: "take e0 gs @ replicate (e1 - e0) 0 @ drop e1 gs = gs" using zero_slice [of e0 e1 gs] by simp
  have "small (take e0 gs)" "small (drop e1 gs)"
    using assms(2) by (auto simp: small_def list_all_iff dest: in_set_takeD in_set_dropD)
  then show ?thesis
    using parseIPv6_ellipsis [of "take e0 gs" "e1 - e0" "drop e1 gs"] parseIPv6_full [OF assms] run eq assms
    by (auto simp: ipv6String_def e)
qed

subsection \<open>The first mark\<close>

lemma first_mark_join: "1 < length gs \<Longrightarrow> dropWhile (\<lambda>c. c \<noteq> CHR ''.'' \<and> c \<noteq> CHR '':'') (joinGroups gs @ r) \<noteq> [] \<and>
    hd (dropWhile (\<lambda>c. c \<noteq> CHR ''.'' \<and> c \<noteq> CHR '':'') (joinGroups gs @ r)) = CHR '':''"
proof -
  assume "1 < length gs"
  then obtain g h hs where "gs = g # h # hs" by (cases gs rule: joinGroups.cases) auto
  then have "joinGroups gs @ r = showHex g @ CHR '':'' # (joinGroups (h # hs) @ r)" by simp
  then show ?thesis by (simp only:) (simp add: dropWhile_shown digits_no_mark)
qed

lemma first_mark_ellipsis:
  "dropWhile (\<lambda>c. c \<noteq> CHR ''.'' \<and> c \<noteq> CHR '':'') (joinGroups gs @ ''::'' @ r) \<noteq> [] \<and>
   hd (dropWhile (\<lambda>c. c \<noteq> CHR ''.'' \<and> c \<noteq> CHR '':'') (joinGroups gs @ ''::'' @ r)) = CHR '':''"
proof (cases "1 < length gs")
  case True
  then show ?thesis by (rule first_mark_join)
next
  case False
  then consider "gs = []" | g where "gs = [g]" by (cases gs rule: joinGroups.cases) auto
  then show ?thesis by cases (simp_all add: dropWhile_shown digits_no_mark)
qed

lemma ParseIP_v6:
  assumes "length gs = 8"
  shows "ParseIP (ipv6String gs) = parseIPv6 (ipv6String gs)"
proof -
  obtain e0 e1 where e: "zeroRun 0 gs (0, 0) = (e0, e1)" by force
  let ?d = "dropWhile (\<lambda>c. c \<noteq> CHR ''.'' \<and> c \<noteq> CHR '':'') (ipv6String gs)"
  have "?d \<noteq> [] \<and> hd ?d = CHR '':''"
    using first_mark_join [of gs "[]"] first_mark_ellipsis [of "take e0 gs" "joinGroups (drop e1 gs)"] assms
    by (simp add: ipv6String_def e)
  then show ?thesis by (cases ?d) (auto simp: ParseIP_def)
qed

lemma ParseIP_String:
  assumes "length a = 16"
  shows "ParseIP (IP_String a) = Some a"
proof (cases "To4 a")
  case None
  have "length (groups a) = 8" "small (groups a)"
    using assms groups_bound by (auto simp: length_groups small_def list_all_iff)
  moreover have "IP_String a = ipv6String (groups a)" using None assms by (auto simp: IP_String_def)
  ultimately show ?thesis
    using assms by (simp add: ParseIP_v6 parseIPv6_String groups_bytes)
next
  case (Some b)
  then have "a = v4InV6Prefix @ b" "length b = 4"
    using assms by (auto simp: To4_def split: if_splits) (metis append_take_drop_id)
  with Some show ?thesis by (simp add: IP_String_def ParseIP_dotted v4InV6Prefix_def)
qed

interpretation addresses: codec "\<lambda>a. length a = 16" IP_String ParseIP
  by unfold_locales (rule ParseIP_String)

section \<open>Prefixes, bit by bit\<close>

text \<open>The bits of an address, the most significant first.\<close>

definition byteBits :: "byte \<Rightarrow> bool list" where
  "byteBits b = map (\<lambda>i. bit b (7 - i)) [0..<8]"

definition ipBits :: "ip \<Rightarrow> bool list" where
  "ipBits a = concat (map byteBits a)"

lemma ipBits_simps [simp]: "ipBits [] = []" "ipBits (b # a) = byteBits b @ ipBits a"
  by (simp_all add: ipBits_def)

lemma length_byteBits [simp]: "length (byteBits b) = 8"
  by (simp add: byteBits_def)

lemma length_ipBits [simp]: "length (ipBits a) = 8 * length a"
  by (induction a) simp_all

lemma byteBits_inj: "byteBits a = byteBits b \<longleftrightarrow> a = b"
proof
  assume eq: "byteBits a = byteBits b"
  show "a = b"
  proof (rule bit_word_eqI)
    fix n assume "n < LENGTH(8)"
    then have n: "7 - n < length [0..<8]" "7 - (7 - n) = n" by simp_all
    then have "[0..<8] ! (7 - n) = 7 - n" by (subst nth_upt) simp_all
    then have "byteBits a ! (7 - n) = bit a n" "byteBits b ! (7 - n) = bit b n"
      unfolding byteBits_def nth_map [OF n(1)] n(2) by (simp_all only: n(2))
    with eq show "bit a n = bit b n" by simp
  qed
qed simp

lemma take_byteBits_iff:
  assumes "k \<le> 8"
  shows "take k (byteBits a) = take k (byteBits b) \<longleftrightarrow> (\<forall>i<8. 8 - k \<le> i \<longrightarrow> bit a i = bit b i)"
proof -
  have "take k (byteBits a) = take k (byteBits b) \<longleftrightarrow> (\<forall>j<k. bit a (7 - j) = bit b (7 - j))"
    using assms by (auto simp: list_eq_iff_nth_eq byteBits_def)
  also have "\<dots> \<longleftrightarrow> (\<forall>i<8. 8 - k \<le> i \<longrightarrow> bit a i = bit b i)"
  proof safe
    fix i assume h: "\<forall>j<k. bit a (7 - j) = bit b (7 - j)" and i: "i < 8" "8 - k \<le> i"
    then have "7 - i < k" "7 - (7 - i) = i" using assms by auto
    with h show "bit a i \<Longrightarrow> bit b i" "bit b i \<Longrightarrow> bit a i" by metis+
  next
    fix j assume h: "\<forall>i<8. 8 - k \<le> i \<longrightarrow> bit a i = bit b i" and j: "j < k"
    then have "7 - j < 8" "8 - k \<le> 7 - j" by auto
    with h show "bit a (7 - j) \<Longrightarrow> bit b (7 - j)" "bit b (7 - j) \<Longrightarrow> bit a (7 - j)" by metis+
  qed
  finally show ?thesis .
qed

lemma mask_byte_iff:
  assumes "k \<le> 8"
  shows "(a :: byte) AND NOT (mask (8 - k)) = b AND NOT (mask (8 - k)) \<longleftrightarrow> take k (byteBits a) = take k (byteBits b)"
  unfolding take_byteBits_iff [OF assms] by (auto simp: bit_eq_iff bit_simps)

text \<open>Two addresses agree under a mask exactly if their first bits agree.\<close>

lemma maskBytes_prefix:
  "length a = n \<Longrightarrow> length b = n \<Longrightarrow>
   maskBytes a (CIDRMask ones n) = maskBytes b (CIDRMask ones n) \<longleftrightarrow> take ones (ipBits a) = take ones (ipBits b)"
proof (induction ones n arbitrary: a b rule: CIDRMask.induct)
  case (2 ones n)
  then obtain x a' y b' where ab: "a = x # a'" "b = y # b'" "length a' = n" "length b' = n"
    by (metis length_Suc_conv)
  have IH: "maskBytes a' (CIDRMask (ones - 8) n) = maskBytes b' (CIDRMask (ones - 8) n)
      \<longleftrightarrow> take (ones - 8) (ipBits a') = take (ones - 8) (ipBits b')" by (rule "2.IH" [OF ab(3,4)])
  have ff: "(0xff :: byte) = NOT (mask 0)" by (simp add: mask_eq_exp_minus_1)
  show ?case
  proof (cases "8 \<le> ones")
    case True
    have "x AND 0xff = y AND 0xff \<longleftrightarrow> byteBits x = byteBits y"
      unfolding ff using mask_byte_iff [of 8 x y] by simp
    with True IH ab show ?thesis by (simp add: maskBytes_def)
  next
    case False
    then have z: "ones - 8 = 0" "ones \<le> 8" by simp_all
    with False IH ab mask_byte_iff [of ones x y] show ?thesis by (simp add: maskBytes_def)
  qed
qed (simp add: maskBytes_def)

lemma length_CIDRMask [simp]: "length (CIDRMask ones n) = n"
  by (induction ones n rule: CIDRMask.induct) simp_all

lemma maskBytes_idem: "maskBytes (maskBytes a m) m = maskBytes a m"
  unfolding maskBytes_def by (induction a m rule: list_induct2') simp_all

lemma dottedBytes_length: "dottedBytes k st s = Some bs \<Longrightarrow> length bs = k"
  by (induction k st s arbitrary: bs rule: dottedBytes.induct) (auto split: if_splits option.splits prod.splits)

lemma parseIPv4_shape: "parseIPv4 s = Some a \<Longrightarrow> \<exists>b. a = v4InV6Prefix @ b \<and> length b = 4"
  by (auto simp: parseIPv4_def dest: dottedBytes_length)

lemma To4_append [simp]: "length b = 4 \<Longrightarrow> To4 (v4InV6Prefix @ b) = Some b"
  by (simp add: To4_def v4InV6Prefix_def)

lemma To4_length: "To4 a = Some b \<Longrightarrow> length b = 4"
  by (auto simp: To4_def split: if_splits)

text \<open>
  A dotted prefix contains an address of four bytes exactly if the first \<open>n\<close> bits of the address
  are those of the prefix.
\<close>

lemma Contains_v4:
  assumes "parseIPv4 (takeWhile (\<lambda>c. c \<noteq> CHR ''/'') s) = Some i" and "ParseCIDR s = Some (i, n)" and "To4 a = Some a4"
  shows "\<exists>ones i4. ones \<le> 32 \<and> To4 i = Some i4 \<and> (Contains n a \<longleftrightarrow> take ones (ipBits a4) = take ones (ipBits i4))"
proof -
  obtain i4 where i4: "i = v4InV6Prefix @ i4" "length i4 = 4" using parseIPv4_shape [OF assms(1)] by blast
  obtain ones where ones: "ones \<le> 32" "n = \<lparr>net_IP = ipMask i (CIDRMask ones 4), net_Mask = CIDRMask ones 4\<rparr>"
    using assms(1,2) by (fastforce simp: ParseCIDR_def Let_def not_less split: if_splits option.splits prod.splits list.splits)
  have ip: "net_IP n = maskBytes i4 (CIDRMask ones 4)" using ones i4 by (simp add: ipMask_def v4InV6Prefix_def)
  have "length (maskBytes i4 (CIDRMask ones 4)) = 4" using i4 by (simp add: maskBytes_def)
  then have "To4 (net_IP n) = Some (net_IP n)" by (simp add: ip To4_def)
  then have "Contains n a \<longleftrightarrow> maskBytes i4 (CIDRMask ones 4) = maskBytes a4 (CIDRMask ones 4)"
    using ip ones assms(3) To4_length [OF assms(3)] \<open>length (maskBytes _ _) = 4\<close>
    by (simp add: Contains_def maskBytes_idem Let_def)
  also have "\<dots> \<longleftrightarrow> take ones (ipBits a4) = take ones (ipBits i4)"
    using maskBytes_prefix [of i4 4 a4 ones] i4 To4_length [OF assms(3)] by auto
  finally show ?thesis using ones(1) i4 by auto
qed

end
