(* ===== verification/Vm.thy ===== *)
theory Vm
  imports OS Codec
begin

text \<open>
  The data that runq, proxy and init exchange (\<^verbatim>\<open>pkg/vm/vm.go\<close>) and its encodings. Field
  names carry the struct's name as a prefix. The packages gob and gzip appear as arguments of the
  functions that use them.
\<close>

section \<open>Types\<close>

type_synonym msgtype = "8 word"

definition msgSignal :: msgtype where "msgSignal = 1"
definition msgVmdata :: msgtype where "msgVmdata = 2"

record msg =
  msg_Type :: msgtype
  msg_Data :: "byte list"

datatype (plugins only: code size) disktype = DisktypeUnknown | BlockDevice | Qcow2Image | RawFile

record appCapabilities =
  caps_Ambient :: "string list"
  caps_Bounding :: "string list"
  caps_Effective :: "string list"
  caps_Inheritable :: "string list"
  caps_Permitted :: "string list"

record network =
  nw_Name :: string
  nw_MacAddress :: string
  nw_MTU :: int
  nw_Addrs :: "addr list"
  nw_Gateway :: "ip option"
  nw_TapDevice :: string

record disk =
  disk_Cache :: string
  disk_Dir :: string
  disk_Fstype :: string
  disk_ID :: string
  disk_Mount :: bool
  disk_Path :: string
  disk_Serial :: string
  disk_Type :: disktype

record mount =
  mount_Data :: string
  mount_Flags :: int
  mount_Fstype :: string
  mount_ID :: string
  mount_Source :: string
  mount_Target :: string

text \<open>Embedded structs are record extensions: an entrypoint has the fields of its user.\<close>

record user =
  user_UID :: "32 word"
  user_GID :: "32 word"
  user_AdditionalGids :: "32 word list"

record certificates =
  cert_CACert :: "byte list"
  cert_Cert :: "byte list"
  cert_Key :: "byte list"

record rlimit =
  rl_Cur :: "64 word"
  rl_Max :: "64 word"

record entrypoint = user +
  ep_Args :: "string list"
  ep_Capabilities :: appCapabilities
  ep_Cwd :: string
  ep_DockerInit :: string
  ep_Env :: "string list"
  ep_NoNewPrivileges :: bool
  ep_Rlimits :: "(string \<times> rlimit) list"
  ep_Runqenv :: bool
  ep_SeccompGob :: "byte list"
  ep_Systemd :: bool
  ep_Terminal :: bool

record vsockd = certificates +
  vs_EntrypointPid :: int
  vs_EntrypointEnv :: "string list"
  vs_CID :: "32 word"

record dns =
  dns_Server :: "string list"
  dns_Options :: string
  dns_Search :: string
  dns_Preserve :: bool

record vmdata =
  vm_APDevice :: string
  vm_ContainerID :: string
  vm_CPU :: int
  vm_Disks :: "disk list"
  vm_DNS :: dns
  vm_GitCommit :: string
  vm_Hostname :: string
  vm_MachineType :: string
  vm_Mem :: int
  vm_Mounts :: "mount list"
  vm_NestedVM :: bool
  vm_Networks :: "network list"
  vm_NoExec :: bool
  vm_QemuVersion :: string
  vm_Rootdisk :: string
  vm_RootdiskExclude :: "string list"
  vm_Sysctl :: "(string \<times> string) list"
  vm_Entrypoint :: entrypoint
  vm_Vsockd :: vsockd

section \<open>Encodings\<close>

text \<open>
  The gob encoder and decoder and the gzip writer and reader are arguments: \<open>None\<close> is an
  error of the package. \<open>enc\<close> and \<open>dec\<close> are \<^verbatim>\<open>gob.Encoder.Encode\<close> and
  \<^verbatim>\<open>gob.Decoder.Decode\<close> on a fresh buffer.
\<close>

type_synonym 'd gobenc = "'d \<Rightarrow> byte list option"
type_synonym 'd gobdec = "byte list \<Rightarrow> 'd option"

definition Encode :: "'d gobenc \<Rightarrow> 'd \<Rightarrow> gerror + byte list" where
  "Encode enc d = (case enc d of
      None \<Rightarrow> Inl (Errorf ''gob: encode'' []) | Some bs \<Rightarrow> Inr bs)"

definition DecodeDataGob :: "vmdata gobdec \<Rightarrow> byte list \<Rightarrow> gerror + vmdata" where
  "DecodeDataGob dec buf = (case dec buf of
      None \<Rightarrow> Inl (Errorf ''gob: decode'' []) | Some v \<Rightarrow> Inr v)"

definition DecodeEntrypointGob :: "entrypoint gobdec \<Rightarrow> byte list \<Rightarrow> gerror + entrypoint" where
  "DecodeEntrypointGob dec buf = (case dec buf of
      None \<Rightarrow> Inl (Errorf ''gob: decode'' []) | Some v \<Rightarrow> Inr v)"

definition DecodeVsockdGob :: "vsockd gobdec \<Rightarrow> byte list \<Rightarrow> gerror + vsockd" where
  "DecodeVsockdGob dec buf = (case dec buf of
      None \<Rightarrow> Inl (Errorf ''gob: decode'' []) | Some v \<Rightarrow> Inr v)"

definition ZipEncodeBase64 ::
  "'d gobenc \<Rightarrow> (byte list \<Rightarrow> byte list option) \<Rightarrow> 'd \<Rightarrow> gerror + string" where
  "ZipEncodeBase64 enc gzip d = (case enc d of
      None \<Rightarrow> Inl (Errorf ''gob: encode'' [])
    | Some bs \<Rightarrow> (case gzip bs of
          None \<Rightarrow> Inl (Errorf ''gzip: close'' [])
        | Some z \<Rightarrow> Inr (base64_Encode z)))"

definition ZipDecodeBase64 ::
  "vmdata gobdec \<Rightarrow> (byte list \<Rightarrow> byte list option) \<Rightarrow> string \<Rightarrow> gerror + vmdata" where
  "ZipDecodeBase64 dec gunzip str = (case base64_Decode str of
      None \<Rightarrow> Inl (Errorf ''illegal base64 data'' [])
    | Some s \<Rightarrow> (case gunzip s of
          None \<Rightarrow> Inl (Errorf ''gzip: invalid'' [])
        | Some res \<Rightarrow> DecodeDataGob dec res))"

text \<open>
  The documented contract of an encoder and a decoder of one of these packages: whatever the
  encoder produces, the decoder turns back into the value.
\<close>

definition recovers :: "('a \<Rightarrow> 'b option) \<Rightarrow> ('b \<Rightarrow> 'a option) \<Rightarrow> bool" where
  "recovers enc dec \<longleftrightarrow> (\<forall>a b. enc a = Some b \<longrightarrow> dec b = Some a)"

lemma zip_base64_decode:
  assumes "recovers enc dec" and "recovers gzip gunzip" and "ZipEncodeBase64 enc gzip d = Inr s"
  shows "ZipDecodeBase64 dec gunzip s = Inr d"
  using assms
  by (auto simp: recovers_def ZipEncodeBase64_def ZipDecodeBase64_def DecodeDataGob_def b64.dec_enc
      split: option.splits)

lemma encode_decode_data:
  assumes "recovers enc dec" and "Encode enc d = Inr bs"
  shows "DecodeDataGob dec bs = Inr d"
  using assms by (auto simp: recovers_def Encode_def DecodeDataGob_def split: option.splits)

end
