(* ===== verification/Channel.thy ===== *)
theory Channel
  imports Vm
begin

text \<open>
  The message channel between the proxy and init (\<^verbatim>\<open>cmd/proxy/channel.go\<close>,
  \<^verbatim>\<open>cmd/init/channel.go\<close>): a byte stream in each direction. The sender's frame is
  a four-byte big-endian length, one type byte and the payload. The receiver's system calls see the
  stream in chunks: a read returns at most the requested number of bytes and never more than the
  chunk at the front. Init reads the payload through a fresh \<^verbatim>\<open>bufio.Reader\<close> of at
  least sixteen bytes, which is dropped with whatever it holds.
\<close>

section \<open>Frames\<close>

text \<open>\<^verbatim>\<open>binary.BigEndian.PutUint32\<close> and \<^verbatim>\<open>binary.BigEndian.Uint32\<close>.\<close>

definition PutUint32 :: "32 word \<Rightarrow> byte list" where
  "PutUint32 v = [ucast (drop_bit 24 v), ucast (drop_bit 16 v), ucast (drop_bit 8 v), ucast v]"

fun Uint32 :: "byte list \<Rightarrow> 32 word" where
  "Uint32 (a # b # c # d # _) =
     ucast d OR push_bit 8 (ucast c) OR push_bit 16 (ucast b) OR push_bit 24 (ucast a)"
| "Uint32 _ = 0"

text \<open>The buffer that the proxy writes for a message.\<close>

definition frame :: "msg \<Rightarrow> byte list" where
  "frame m = (let size = (word_of_nat (length (msg_Data m)) :: 32 word)
              in PutUint32 size @ [msg_Type m] @ msg_Data m)"

definition headerSize :: nat where "headerSize = 4 + 1"

section \<open>Reading from the device\<close>

type_synonym chunks = "byte list list"

text \<open>One \<^verbatim>\<open>Read\<close> of at most \<open>n\<close> bytes; no chunk left is the end of the stream.\<close>

fun fd_read :: "nat \<Rightarrow> chunks \<Rightarrow> (byte list \<times> chunks) option" where
  "fd_read n [] = None"
| "fd_read n (c # cs) =
     (if length c \<le> n then Some (c, cs) else Some (take n c, drop n c # cs))"

text \<open>\<^verbatim>\<open>io.ReadFull\<close> on the device: reads until \<open>n\<close> bytes are there.\<close>

function read_full :: "nat \<Rightarrow> chunks \<Rightarrow> (byte list \<times> chunks) option" where
  "read_full n cs =
     (if n = 0 then Some ([], cs)
      else case fd_read n cs of
          None \<Rightarrow> None
        | Some (b, cs') \<Rightarrow> map_option (\<lambda>(b', r). (b @ b', r)) (read_full (n - length b) cs'))"
  by pat_completeness auto
termination
proof (relation "measure (\<lambda>(n, cs). n + length cs)", goal_cases)
  case (2 n cs x b cs')
  then show ?case by (cases cs) (auto split: if_splits)
qed simp

declare read_full.simps [simp del]

text \<open>
  \<^verbatim>\<open>bufio.Reader.Read\<close>: the reader holds \<open>buf\<close>. An empty buffer and a request that is
  at least as large as the buffer go to the device directly; otherwise one device read fills the
  buffer, and the request is served from it.
\<close>

fun bufio_read :: "nat \<Rightarrow> nat \<Rightarrow> byte list \<Rightarrow> chunks \<Rightarrow> (byte list \<times> byte list \<times> chunks) option" where
  "bufio_read bsz n buf cs =
     (if buf = [] then
        (if bsz \<le> n then map_option (\<lambda>(b, r). (b, [], r)) (fd_read n cs)
         else map_option (\<lambda>(b, r). (take n b, drop n b, r)) (fd_read bsz cs))
      else Some (take n buf, drop n buf, cs))"

lemma bufio_read_progress:
  assumes "bufio_read bsz n buf cs = Some (b, buf', cs')" and "0 < n"
  shows "n - length b + length cs' < n + length cs"
proof (cases "buf = []")
  case True
  with assms show ?thesis
    by (cases cs) (auto split: if_splits simp: min_def)
next
  case False
  then have "0 < length buf" by simp
  with assms False show ?thesis by (auto simp: min_def)
qed

text \<open>\<^verbatim>\<open>io.ReadFull\<close> on the buffered reader.\<close>

function bufio_full ::
  "nat \<Rightarrow> nat \<Rightarrow> byte list \<Rightarrow> chunks \<Rightarrow> (byte list \<times> byte list \<times> chunks) option" where
  "bufio_full bsz n buf cs =
     (if n = 0 then Some ([], buf, cs)
      else case bufio_read bsz n buf cs of
          None \<Rightarrow> None
        | Some (b, buf', cs') \<Rightarrow>
            map_option (\<lambda>(b', r). (b @ b', r)) (bufio_full bsz (n - length b) buf' cs'))"
  by pat_completeness auto
termination
proof (relation "measure (\<lambda>(bsz, n, buf, cs). n + length cs)", goal_cases)
  case (2 bsz n buf cs x b y buf' cs')
  then show ?case using bufio_read_progress [of bsz n buf cs b buf' cs']
    by (auto simp del: bufio_read.simps)
qed simp

declare bufio_full.simps [simp del]

definition minReadBufferSize :: nat where "minReadBufferSize = 16"

text \<open>
  One turn of init's receive loop: header, then payload; \<open>None\<close> is \<^verbatim>\<open>log.Panic\<close>.
  What the buffered reader still holds is lost.
\<close>

definition read_msg :: "chunks \<Rightarrow> (msg \<times> chunks) option" where
  "read_msg cs = (case read_full headerSize cs of
      None \<Rightarrow> None
    | Some (hdr, cs1) \<Rightarrow>
        (let payloadSize = unat (Uint32 (take 4 hdr)); msgType = hdr ! 4
         in case bufio_full (max minReadBufferSize payloadSize) payloadSize [] cs1 of
              None \<Rightarrow> None
            | Some (buf, lost, cs2) \<Rightarrow> Some (\<lparr>msg_Type = msgType, msg_Data = buf\<rparr>, cs2)))"

text \<open>The messages that \<open>n\<close> turns of the loop put into the channel, and the rest of the stream.\<close>

fun read_msgs :: "nat \<Rightarrow> chunks \<Rightarrow> (msg list \<times> chunks) option" where
  "read_msgs 0 cs = Some ([], cs)"
| "read_msgs (Suc n) cs = (case read_msg cs of
      None \<Rightarrow> None
    | Some (m, cs') \<Rightarrow> map_option (\<lambda>(ms, r). (m # ms, r)) (read_msgs n cs'))"

text \<open>
  The acknowledge direction: init writes single bytes; the proxy reads with a 4096-byte buffer and
  panics unless it got exactly one byte. The result is what goes to the channel, and whether
  the loop ended in the panic.
\<close>

definition defaultBufSize :: nat where "defaultBufSize = 4096"

function read_acks :: "chunks \<Rightarrow> int list \<times> bool" where
  "read_acks cs = (case fd_read defaultBufSize cs of
      None \<Rightarrow> ([], False)
    | Some (b, cs') \<Rightarrow>
        (if length b \<noteq> 1 then ([], True)
         else (let (as, p) = read_acks cs' in (uint (hd b) # as, p))))"
  by pat_completeness auto
termination
proof (relation "measure (\<lambda>cs. length cs)", goal_cases)
  case (2 cs x b cs')
  then show ?case by (cases cs) (auto simp: defaultBufSize_def split: if_splits)
qed simp

declare read_acks.simps [simp del]

definition write_ack :: "byte \<Rightarrow> byte list" where "write_ack v = [v]"

section \<open>The readers deliver the bytes of the stream\<close>

lemma Uint32_PutUint32 [simp]: "Uint32 (PutUint32 v @ r) = v"
proof (rule bit_word_eqI)
  fix n assume "n < LENGTH(32)"
  then consider "n < 8" | "8 \<le> n" "n < 16" | "16 \<le> n" "n < 24" | "24 \<le> n" "n < 32" by fastforce
  then show "bit (Uint32 (PutUint32 v @ r)) n = bit v n"
    by cases (auto simp: PutUint32_def bit_simps)
qed

lemma length_PutUint32 [simp]: "length (PutUint32 v) = 4"
  by (simp add: PutUint32_def)

lemma fd_read_within:
  assumes "a \<noteq> []" and "fd_read n (a @ r) = Some (b, cs)"
  obtains a' where "cs = a' @ r" and "concat a = b @ concat a'" and "length b \<le> n"
  using assms by (cases a) (auto split: if_splits intro: that [of "tl a"] that [of "drop n (hd a) # tl a"])

lemma fd_read_some: "cs \<noteq> [] \<Longrightarrow> \<exists>b cs'. fd_read n cs = Some (b, cs')"
  by (cases cs) auto

text \<open>
  A read that needs no more than the bytes of the chunks \<open>a\<close> leaves the chunks behind them
  alone.
\<close>

lemma read_full_within:
  "n \<le> length (concat a) \<Longrightarrow>
     \<exists>a'. read_full n (a @ r) = Some (take n (concat a), a' @ r) \<and> concat a' = drop n (concat a)"
proof (induction n "a @ r" arbitrary: a rule: read_full.induct)
  case (1 n)
  show ?case
  proof (cases "n = 0")
    case True
    then show ?thesis by (auto simp: read_full.simps)
  next
    case False
    with 1 have "a \<noteq> []" by auto
    then obtain b cs where rd: "fd_read n (a @ r) = Some (b, cs)"
      using fd_read_some [of "a @ r" n] by auto
    with \<open>a \<noteq> []\<close> obtain a' where a': "cs = a' @ r" "concat a = b @ concat a'" "length b \<le> n"
      by (rule fd_read_within)
    with 1(2) have "n - length b \<le> length (concat a')" by simp
    with 1(1) [OF False rd [unfolded a'(1)] refl] obtain a'' where
      "read_full (n - length b) cs = Some (take (n - length b) (concat a'), a'' @ r)"
      "concat a'' = drop (n - length b) (concat a')"
      using a'(1) by blast
    with a' False rd show ?thesis by (simp add: read_full.simps [of n])
  qed
qed

text \<open>The buffered reader, when the chunks end where the request ends: nothing is left over.\<close>

lemma bufio_full_exact:
  "n = length buf + length (concat a) \<Longrightarrow>
     \<exists>a'. bufio_full bsz n buf (a @ r) = Some (buf @ concat a, [], a' @ r) \<and> concat a' = []"
proof (induction bsz n buf "a @ r" arbitrary: a rule: bufio_full.induct)
  case (1 bsz n buf)
  show ?case
  proof (cases "n = 0")
    case True
    with 1(2) show ?thesis by (intro exI [of _ a]) (simp add: bufio_full.simps)
  next
    case n: False
    show ?thesis
    proof (cases "buf = []")
      case False
      with 1(2) have rd: "bufio_read bsz n buf (a @ r) = Some (buf, [], a @ r)" by simp
      from 1(1) [OF n rd refl refl] 1(2) obtain a' where
        "bufio_full bsz (n - length buf) [] (a @ r) = Some (concat a, [], a' @ r)" "concat a' = []"
        by auto
      with n rd show ?thesis
        by (simp add: bufio_full.simps [of bsz n] del: bufio_read.simps concat_eq_Nil_conv)
    next
      case True
      with 1(2) n have "a \<noteq> []" by auto
      obtain b cs where fr: "fd_read (if bsz \<le> n then n else bsz) (a @ r) = Some (b, cs)"
        using fd_read_some [of "a @ r"] \<open>a \<noteq> []\<close> by blast
      with \<open>a \<noteq> []\<close> obtain a' where a': "cs = a' @ r" "concat a = b @ concat a'"
        by (rule fd_read_within)
      with 1(2) True have "length b \<le> n" by simp
      with True fr have rd: "bufio_read bsz n buf (a @ r) = Some (b, [], cs)"
        by (cases "bsz \<le> n") auto
      from 1(2) True a'(2) have "n - length b = length [] + length (concat a')" by simp
      from 1(1) [OF n rd [unfolded a'(1)] refl refl this] obtain a'' where
        "bufio_full bsz (n - length b) [] (a' @ r) = Some (concat a', [], a'' @ r)" "concat a'' = []"
        by auto
      with n rd a' True show ?thesis
        by (simp add: bufio_full.simps [of bsz n] del: bufio_read.simps concat_eq_Nil_conv)
    qed
  qed
qed

text \<open>The buffered reader on any chunks: the request is served in full; what was read beyond it
  stays in the buffer.\<close>

lemma bufio_full_any:
  "n \<le> length buf + length (concat cs) \<Longrightarrow> length buf < bsz \<Longrightarrow>
     \<exists>lost cs'. bufio_full bsz n buf cs = Some (take n (buf @ concat cs), lost, cs')
       \<and> lost @ concat cs' = drop n (buf @ concat cs) \<and> length lost < bsz"
proof (induction bsz n buf cs rule: bufio_full.induct)
  case (1 bsz n buf cs)
  show ?case
  proof (cases "n = 0")
    case True
    with 1(3) show ?thesis by (simp add: bufio_full.simps)
  next
    case n: False
    show ?thesis
    proof (cases "buf = []")
      case False
      then have rd: "bufio_read bsz n buf cs = Some (take n buf, drop n buf, cs)" by simp
      from 1(1) [OF n rd refl refl] 1(2,3) n rd show ?thesis
        by (fastforce simp: bufio_full.simps [of bsz n] min_def simp del: bufio_read.simps
            split: if_splits)
    next
      case True
      with 1(2) n have "cs \<noteq> []" by auto
      obtain b cs1 where fr: "fd_read (if bsz \<le> n then n else bsz) (cs @ []) = Some (b, cs1)"
        using fd_read_some [of "cs @ []"] \<open>cs \<noteq> []\<close> by blast
      with \<open>cs \<noteq> []\<close> obtain a' where a': "cs1 = a' @ []" "concat cs = b @ concat a'"
          "length b \<le> (if bsz \<le> n then n else bsz)"
        by (rule fd_read_within)
      have rd: "bufio_read bsz n buf cs = Some (take n b, drop n b, cs1)"
        using True fr a'(3) by (cases "bsz \<le> n") auto
      have lt: "length (drop n b) < bsz"
        using a'(3) n 1(3) by (auto split: if_splits)
      from 1(1) [OF n rd refl refl] 1(2) a' True n rd lt show ?thesis
        by (fastforce simp: bufio_full.simps [of bsz n] min_def simp del: bufio_read.simps
            split: if_splits)
    qed
  qed
qed

section \<open>Messages\<close>

text \<open>What the four length bytes can say; a larger payload would be announced with a wrong size.\<close>

definition framable :: "msg \<Rightarrow> bool" where
  "framable m \<longleftrightarrow> length (msg_Data m) < 2 ^ 32"

definition frame_header :: "msg \<Rightarrow> byte list" where
  "frame_header m = PutUint32 (word_of_nat (length (msg_Data m))) @ [msg_Type m]"

lemma frame_split: "frame m = frame_header m @ msg_Data m"
  by (simp add: frame_def frame_header_def)

lemma frame_header_facts:
  "length (frame_header m) = headerSize"
  "frame_header m ! 4 = msg_Type m"
  "Uint32 (take 4 (frame_header m)) = word_of_nat (length (msg_Data m))"
  using Uint32_PutUint32 [of _ "[]"]
  by (simp_all add: frame_header_def headerSize_def nth_append)

lemma framable_size: "framable m \<Longrightarrow> unat (word_of_nat (length (msg_Data m)) :: 32 word) = length (msg_Data m)"
  by (simp add: framable_def unat_of_nat take_bit_nat_eq_self)

text \<open>The reference reader: one frame off the front of the bytes of the stream.\<close>

definition get_frame :: "byte list \<Rightarrow> (msg \<times> byte list) option" where
  "get_frame s =
     (if length s < headerSize then None
      else let n = unat (Uint32 (take 4 s)); r = drop headerSize s
           in if length r < n then None
              else Some (\<lparr>msg_Type = s ! 4, msg_Data = take n r\<rparr>, drop n r))"

interpretation frames: stream_codec framable frame get_frame
proof
  fix m r assume "framable m"
  moreover have "take 4 (frame m @ r) = take 4 (frame_header m)"
    using frame_header_facts(1) by (simp add: frame_split headerSize_def)
  moreover have "(frame m @ r) ! 4 = msg_Type m"
    using frame_header_facts(1,2) by (simp add: frame_split nth_append headerSize_def)
  ultimately show "get_frame (frame m @ r) = Some (m, r)"
    using frame_header_facts [of m]
    by (simp add: get_frame_def Let_def framable_size frame_split headerSize_def)
qed

text \<open>One turn of the loop on chunks that end with the message.\<close>

lemma read_msg_exact:
  assumes "framable m" and a: "concat a = frame m"
  shows "\<exists>a'. read_msg (a @ r) = Some (m, a' @ r) \<and> concat a' = []"
proof -
  have "headerSize \<le> length (concat a)"
    by (simp add: a frame_split frame_header_facts)
  then obtain a1 where hdr: "read_full headerSize (a @ r) = Some (frame_header m, a1 @ r)"
      and a1: "concat a1 = msg_Data m"
    using read_full_within [of headerSize a r] frame_header_facts(1) [of m]
    by (auto simp: a frame_split)
  let ?n = "length (msg_Data m)"
  obtain a2 where pay: "bufio_full (max minReadBufferSize ?n) ?n [] (a1 @ r) = Some (msg_Data m, [], a2 @ r)"
      and a2: "concat a2 = []"
    using bufio_full_exact [of ?n "[]" a1 "max minReadBufferSize ?n" r] a1 by auto
  have "read_msg (a @ r) = Some (m, a2 @ r)"
    using assms(1) by (simp add: read_msg_def hdr pay Let_def frame_header_facts framable_size)
  with a2 show ?thesis by blast
qed

lemma read_msg_skip: "concat e = [] \<Longrightarrow> read_msg (e @ r) = read_msg r"
proof (induction e)
  case (Cons x e)
  then have "read_full headerSize (x # e @ r) = read_full headerSize (e @ r)"
    by (subst read_full.simps) (simp add: headerSize_def option.map_id)
  with Cons show ?case by (simp add: read_msg_def)
qed simp

lemma read_msgs_exact:
  assumes "list_all framable ms" and "map concat css = map frame ms"
  shows "\<exists>e. read_msgs (length ms) (concat css @ r) = Some (ms, e @ r) \<and> concat e = []"
proof -
  have "\<exists>e. read_msgs (length ms) (e0 @ concat css @ r) = Some (ms, e @ r) \<and> concat e = []"
    if "concat e0 = []" for e0
    using assms that
  proof (induction ms arbitrary: css e0)
    case Nil
    then show ?case by (intro exI [of _ e0]) simp
  next
    case (Cons m ms)
    then obtain a css' where css: "css = a # css'" "concat a = frame m" "map concat css' = map frame ms"
      by (cases css) auto
    then obtain a' where "read_msg (e0 @ concat css @ r) = Some (m, a' @ concat css' @ r)" "concat a' = []"
      using read_msg_exact [of m a "concat css' @ r"] Cons.prems read_msg_skip [of e0] by auto
    with Cons.IH [of css' a'] Cons.prems css show ?case by auto
  qed
  from this [of "[]"] show ?thesis by simp
qed

text \<open>One turn on any chunks: the message itself is always intact.\<close>

lemma read_msg_any:
  assumes "framable m" and cs: "concat cs = frame m @ r"
  shows "\<exists>lost cs'. read_msg cs = Some (m, cs') \<and> r = lost @ concat cs'
    \<and> length lost < max minReadBufferSize (length (msg_Data m))"
proof -
  let ?n = "length (msg_Data m)"
  have "headerSize \<le> length (concat cs)"
    by (simp add: cs frame_split frame_header_facts)
  then obtain c1 where hdr: "read_full headerSize cs = Some (frame_header m, c1)"
      and c1: "concat c1 = msg_Data m @ r"
    using read_full_within [of headerSize cs "[]"] frame_header_facts(1) [of m]
    by (auto simp: cs frame_split)
  have pos: "0 < max minReadBufferSize ?n" by (simp add: minReadBufferSize_def)
  obtain lost c2 where pay: "bufio_full (max minReadBufferSize ?n) ?n [] c1 = Some (msg_Data m, lost, c2)"
      and "lost @ concat c2 = r" and "length lost < max minReadBufferSize ?n"
    using bufio_full_any [of ?n "[]" c1 "max minReadBufferSize ?n"] c1 pos by auto
  moreover have "read_msg cs = Some (m, c2)"
    using assms(1) by (simp add: read_msg_def hdr pay Let_def frame_header_facts framable_size)
  ultimately show ?thesis by blast
qed

section \<open>Acknowledge bytes\<close>

lemma read_acks_single:
  "read_acks (map write_ack vs) = (map uint vs, False)"
  by (induction vs) (simp_all add: read_acks.simps [of "_ # _"] read_acks.simps [of "[]"]
      write_ack_def defaultBufSize_def)

lemma read_acks_coalesced:
  "read_acks ((write_ack u @ write_ack v @ w) # cs) = ([], True)"
  by (subst read_acks.simps) (auto simp: write_ack_def defaultBufSize_def)


section \<open>Properties\<close>

text \<open>
  C10: The messages that the proxy sends are the messages that init receives, in order and with their
  type and payload, when no read of init returns bytes of two messages: the chunks of each message
  (\<open>css\<close> has one list of chunks per message) concatenate to its frame. Payloads are
  shorter than 4 GiB, the most the length field can say. The loop takes exactly the stream.
\<close>

theorem channel_roundtrip:
  assumes "list_all framable ms" and "map concat css = map frame ms"
  shows "\<exists>rest. read_msgs (length ms) (concat css) = Some (ms, rest) \<and> concat rest = []"
  using read_msgs_exact [OF assms, of "[]"] by auto

definition signal_msg :: "byte \<Rightarrow> msg" where
  "signal_msg s = \<lparr>msg_Type = msgSignal, msg_Data = [s]\<rparr>"

definition signal_chunks :: "chunks list" where
  "signal_chunks = [[[0, 0, 0, 1, 1, 15]], [[0, 0, 0], [1, 1, 1]]]"

theorem channel_roundtrip_witness:
  "\<exists>rest. read_msgs (Suc (Suc 0)) (concat signal_chunks) = Some ([signal_msg 15, signal_msg 1], rest)
     \<and> concat rest = []"
proof -
  have valid: "list_all framable [signal_msg 15, signal_msg 1]"
    by (simp add: framable_def signal_msg_def)
  have "map concat signal_chunks = map frame [signal_msg 15, signal_msg 1]"
    by (simp add: signal_chunks_def frame_def signal_msg_def PutUint32_def msgSignal_def)
  from channel_roundtrip [OF valid this] show ?thesis by simp
qed

text \<open>
  C38: The first message of a stream is received intact however the stream is cut into reads, and
  what follows it is only shortened at its front, by fewer bytes than the read buffer holds. The
  configuration of the VM is such a message: nothing is sent behind it until init has
  acknowledged it.
\<close>

theorem channel_first_message_intact:
  assumes "framable m" and "concat cs = frame m @ later"
  shows "\<exists>lost cs'. read_msg cs = Some (m, cs') \<and> later = lost @ concat cs'
    \<and> length lost < max minReadBufferSize (length (msg_Data m))"
  using assms by (rule read_msg_any)

theorem channel_first_message_intact_witness:
  "\<exists>lost cs'. read_msg [[0, 0, 0, 2, 2, 7], [8, 0, 0, 0]] = Some (\<lparr>msg_Type = 2, msg_Data = [7, 8]\<rparr>, cs')
     \<and> [0, 0, 0] = lost @ concat cs' \<and> length lost < max minReadBufferSize 2"
proof -
  let ?m = "\<lparr>msg_Type = 2, msg_Data = [7, 8]\<rparr> :: msg"
  have valid: "framable ?m" by (simp add: framable_def)
  have "concat [[0, 0, 0, 2, 2, 7], [8, 0, 0, 0]] = frame ?m @ [0, 0, 0]"
    by (simp add: frame_def PutUint32_def)
  from channel_first_message_intact [OF valid this] show ?thesis by (simp add: numeral_2_eq_2)
qed

text \<open>
  C39: Two signals that arrive in one read lose the second one: the buffered reader that serves the
  one-byte payload of the first takes up to sixteen bytes from the device and is dropped with the
  frame of the second signal in its buffer.
\<close>

theorem channel_coalesced_signal_lost:
  "read_msg [frame (signal_msg s1) @ frame (signal_msg s2)] = Some (signal_msg s1, [])"
proof -
  have "frame (signal_msg s) = [0, 0, 0, 1, msgSignal, s]" for s
    by (simp add: frame_def signal_msg_def PutUint32_def)
  moreover have "read_full headerSize [[0, 0, 0, 1, msgSignal, s1, 0, 0, 0, 1, msgSignal, s2]]
      = Some ([0, 0, 0, 1, msgSignal], [[s1, 0, 0, 0, 1, msgSignal, s2]])"
    by (simp add: read_full.simps headerSize_def)
  moreover have "bufio_full 16 1 [] [[s1, 0, 0, 0, 1, msgSignal, s2]]
      = Some ([s1], [0, 0, 0, 1, msgSignal, s2], [])"
    by (simp add: bufio_full.simps)
  ultimately show ?thesis
    by (simp add: read_msg_def minReadBufferSize_def signal_msg_def)
qed

text \<open>
  Every byte that init acknowledges reaches the proxy as the number it is, as long as each is read
  on its own; two bytes in one read end the proxy in a panic and deliver nothing.
\<close>

lemma ack_channel:
  "read_acks (map write_ack vs) = (map uint vs, False)
   \<and> read_acks ((write_ack u @ write_ack v @ w) # cs) = ([], True)"
  by (simp add: read_acks_single read_acks_coalesced)

end
