(* ===== verification/Cfg.thy ===== *)
theory Cfg
  imports Vm "HOL-Library.Multiset"
begin

text \<open>
  The constants of \<^verbatim>\<open>internal/cfg/cfg.go\<close>, and the values of the system constants
  that it and the other sources name. A Go map literal is the list of its entries.
\<close>

definition MinMem :: int where "MinMem = 64"

definition KernelParameters :: string where
  "KernelParameters = ''console=ttyS0 panic=1 module.sig_enforce=0 loglevel=3''"

definition Envfile :: string where "Envfile = ''/.runqenv''"

text \<open>In milliseconds.\<close>

definition ReaperInterval :: nat where "ReaperInterval = 60000"

definition SysctlDefault :: "(string \<times> string) list" where
  "SysctlDefault =
     [(''fs.file-max'', ''9223372036854775807''),
      (''kernel.panic_on_oops'', ''1''),
      (''net.ipv6.conf.all.disable_ipv6'', ''1''),
      (''net.ipv6.conf.default.disable_ipv6'', ''1''),
      (''vm.overcommit_memory'', ''0''),
      (''vm.panic_on_oom'', ''0'')]"

definition SysctlOverride :: "(string \<times> string) list" where
  "SysctlOverride = [(''kernel.kexec_load_disabled'', ''1'')]"

definition RLIM_INFINITY :: "64 word" where "RLIM_INFINITY = - 1"

definition cfgRlimits :: "(string \<times> rlimit) list" where
  "cfgRlimits =
     [(''RLIMIT_NOFILE'', \<lparr>rl_Cur = 65536, rl_Max = 65536\<rparr>),
      (''RLIMIT_NPROC'', \<lparr>rl_Cur = RLIM_INFINITY, rl_Max = RLIM_INFINITY\<rparr>),
      (''RLIMIT_SIGPENDING'', \<lparr>rl_Cur = 65536, rl_Max = 65536\<rparr>)]"

definition SIGHUP :: int where "SIGHUP = 1"
definition SIGINT :: int where "SIGINT = 2"
definition SIGQUIT :: int where "SIGQUIT = 3"
definition SIGKILL :: int where "SIGKILL = 9"
definition SIGUSR1 :: int where "SIGUSR1 = 10"
definition SIGUSR2 :: int where "SIGUSR2 = 12"
definition SIGTERM :: int where "SIGTERM = 15"
definition SIGCONT :: int where "SIGCONT = 18"
definition SIGSTOP :: int where "SIGSTOP = 19"

definition Signals :: "int list" where
  "Signals = [SIGHUP, SIGINT, SIGQUIT, SIGTERM, SIGUSR1, SIGUSR2, SIGCONT, SIGSTOP]"

definition RlimitsMap :: "(string \<times> int) list" where
  "RlimitsMap =
     [(''RLIMIT_AS'', 9), (''RLIMIT_CORE'', 4), (''RLIMIT_CPU'', 0), (''RLIMIT_DATA'', 2),
      (''RLIMIT_FSIZE'', 1), (''RLIMIT_LOCKS'', 10), (''RLIMIT_MEMLOCK'', 8),
      (''RLIMIT_MSGQUEUE'', 12), (''RLIMIT_NICE'', 13), (''RLIMIT_NOFILE'', 7),
      (''RLIMIT_NPROC'', 6), (''RLIMIT_RSS'', 5), (''RLIMIT_RTPRIO'', 14),
      (''RLIMIT_RTTIME'', 15), (''RLIMIT_SIGPENDING'', 11), (''RLIMIT_STACK'', 3)]"

definition ReadonlyPaths :: "string list" where
  "ReadonlyPaths = [''/proc/bus'', ''/proc/sysrq-trigger'']"

definition MaskedPaths :: "string list" where
  "MaskedPaths =
     [''/proc/kcore'', ''/proc/latency_stats'', ''/proc/timer_list'', ''/proc/timer_stats'',
      ''/proc/sched_debug'', ''/proc/scsi'', ''/sys/firmware'']"

text \<open>Mount flags of Linux.\<close>

definition MS_RDONLY :: int where "MS_RDONLY = 1"
definition MS_NOSUID :: int where "MS_NOSUID = 2"
definition MS_NODEV :: int where "MS_NODEV = 4"
definition MS_NOEXEC :: int where "MS_NOEXEC = 8"
definition MS_REMOUNT :: int where "MS_REMOUNT = 32"
definition MS_DIRSYNC :: int where "MS_DIRSYNC = 128"
definition MS_BIND :: int where "MS_BIND = 4096"
definition MS_MOVE :: int where "MS_MOVE = 8192"
definition MS_REC :: int where "MS_REC = 16384"
definition MNT_DETACH :: int where "MNT_DETACH = 2"

lemmas ms_defs = MS_RDONLY_def MS_NOSUID_def MS_NODEV_def MS_NOEXEC_def MS_REMOUNT_def
  MS_DIRSYNC_def MS_BIND_def MS_MOVE_def MS_REC_def MNT_DETACH_def

section \<open>Iteration over maps\<close>

text \<open>
  Go leaves the order of a loop over a map open. The loops over maps of init take the entries in the
  order that these functions choose; a \<open>fair_order\<close> visits every entry exactly once.
\<close>

record maporder =
  mo_strings :: "(string \<times> string) list \<Rightarrow> (string \<times> string) list"
  mo_rlimits :: "(string \<times> rlimit) list \<Rightarrow> (string \<times> rlimit) list"
  mo_caps :: "(captype \<times> string list) list \<Rightarrow> (captype \<times> string list) list"

definition fair_order :: "maporder \<Rightarrow> bool" where
  "fair_order mo \<longleftrightarrow> (\<forall>xs. mset (mo_strings mo xs) = mset xs) \<and> (\<forall>xs. mset (mo_rlimits mo xs) = mset xs)
     \<and> (\<forall>xs. mset (mo_caps mo xs) = mset xs)"

definition source_order :: maporder where
  "source_order = \<lparr>mo_strings = id, mo_rlimits = id, mo_caps = id\<rparr>"

lemma fair_source_order: "fair_order source_order"
  by (simp add: fair_order_def source_order_def)

lemma fair_set:
  assumes "fair_order mo"
  shows "set (mo_strings mo xs) = set xs" and "set (mo_rlimits mo ys) = set ys" and "set (mo_caps mo zs) = set zs"
  using assms unfolding fair_order_def by (metis set_mset_mset)+

lemma fair_distinct:
  assumes "fair_order mo"
  shows "distinct (map f (mo_strings mo xs)) = distinct (map f xs)"
    and "distinct (map g (mo_rlimits mo ys)) = distinct (map g ys)"
    and "distinct (map h (mo_caps mo zs)) = distinct (map h zs)"
  using assms unfolding fair_order_def by (metis mset_eq_imp_distinct_iff mset_map)+

end
