(* ===== verification/Util.thy ===== *)
theory Util
  imports Cfg Bracket
begin

text \<open>
  \<^verbatim>\<open>internal/util/util.go\<close>: small helpers of the proxy, init and vsockd.
\<close>

section \<open>Random strings\<close>

definition hexBytes :: "string \<Rightarrow> string" where
  "hexBytes bs = concat (map (\<lambda>c. [digitChar (of_char c div 16), digitChar (of_char c mod 16)]) bs)"

text \<open>\<^verbatim>\<open>rand.Read\<close> fills the buffer of \<open>n\<close> bytes with what the system delivers.\<close>

definition rand_Read :: "nat \<Rightarrow> string io" where
  "rand_Read n = bnd (ask (\<lambda>K t. k_str K t (Proc (RandRead n))) SysErrno (Proc (RandRead n)))
     (\<lambda>r. ret (take n (r @ replicate n (CHR 0x00))))"

definition RandStr :: "nat \<Rightarrow> string io" where
  "RandStr n = bnd (attempt (rand_Read n)) (\<lambda>r. case r of
      Inl e \<Rightarrow> panic ''rand.Read: %v''
    | Inr b \<Rightarrow> ret (take n (hexBytes b)))"

section \<open>Files\<close>

definition FileExists :: "string \<Rightarrow> bool io" where
  "FileExists p = bnd (attempt (os_Stat p)) (\<lambda>r. case r of
      Inl e \<Rightarrow> ret False | Inr st \<Rightarrow> ret (fi_kind st = FRegular))"

definition DirExists :: "string \<Rightarrow> bool io" where
  "DirExists p = bnd (attempt (os_Stat p)) (\<lambda>r. case r of
      Inl e \<Rightarrow> ret False | Inr st \<Rightarrow> ret (fi_kind st = FDir))"

definition S_IFBLK :: int where "S_IFBLK = 0x6000"
definition S_IFCHR :: int where "S_IFCHR = 0x2000"

text \<open>The device number: in Go \<^verbatim>\<open>&\<close> and \<^verbatim>\<open><<\<close> bind alike and to the left.\<close>

definition mkdev :: "int \<Rightarrow> int \<Rightarrow> int" where
  "mkdev major minor =
     (push_bit 12 (minor AND 0xfff00) OR push_bit 8 (major AND 0xfff)) OR (minor AND 0xff)"

definition Mknod :: "string \<Rightarrow> string \<Rightarrow> int \<Rightarrow> int \<Rightarrow> int \<Rightarrow> unit io" where
  "Mknod path devtype fmode major minor =
     bnd (DirExists (filepath_Dir path)) (\<lambda>ex.
     thn (whn (\<not> ex) (mapErr (ErrorfE ''Mkdir %s failed: %v'' [path])
            (os_MkdirAll (filepath_Dir path) mode0755)))
     (let mknod = (\<lambda>mode. thn (note_call (Fs Umask))
            (deferring (mapErr (ErrorfE ''Mknod %s failed: %v'' [path])
                (call SysErrno (Fs (MknodCall path mode (mkdev major minor)))))
              (note_call (Fs Umask))))
      in if devtype = ''b'' then mknod (S_IFBLK OR fmode)
         else if devtype = ''c'' then mknod (S_IFCHR OR fmode)
         else fail (Errorf ''type %s not supported'' [devtype])))"

definition SetSysctl :: "string \<Rightarrow> string \<Rightarrow> unit io" where
  "SetSysctl name value =
     (let path = ''/proc/sys/'' @ map (\<lambda>c. if c = CHR ''.'' then CHR ''/'' else c) name
      in mapErr (ErrorfE ''WriteFile %s failed: %v'' [path]) (ioutil_WriteFile path value mode0644))"


text \<open>
  \<^verbatim>\<open>fmt.Sscanf(s, "%d:%d", ...)\<close>: for each number, spaces, a sign and digits; a newline
  where a number is due is an error; what follows the second number is not looked at.
\<close>

definition scanInt :: "string \<Rightarrow> (int \<times> string) option" where
  "scanInt s =
     (let s1 = dropWhile (\<lambda>c. isSpace c \<and> c \<noteq> CHR 0x0A) s;
          sg = takeWhile (\<lambda>c. c = CHR ''+'' \<or> c = CHR ''-'') (take 1 s1);
          s2 = drop (length sg) s1;
          ds = takeWhile isDigit s2
      in map_option (\<lambda>i. (i, drop (length ds) s2)) (if ds = [] then None else Atoi (sg @ ds)))"

definition Sscanf_d_d :: "string \<Rightarrow> (int \<times> int) option" where
  "Sscanf_d_d s = (case scanInt s of
      Some (a, CHR '':'' # r) \<Rightarrow> map_option (\<lambda>(b, _). (a, b)) (scanInt r)
    | _ \<Rightarrow> None)"

definition MajorMinor :: "string \<Rightarrow> (int \<times> int) io" where
  "MajorMinor path =
     bnd (mapErr (ErrorfE ''ReadFile %s failed: %v'' [path]) (ioutil_ReadFile path)) (\<lambda>buf.
     case Sscanf_d_d buf of
       None \<Rightarrow> fail (Errorf ''Sscanf %s failed: %v'' [path])
     | Some mm \<Rightarrow> ret mm)"

section \<open>Users\<close>

text \<open>The loop of \<^verbatim>\<open>UserHome\<close> over the lines of \<^verbatim>\<open>/etc/passwd\<close>.\<close>

fun passwdHome :: "int \<Rightarrow> string list \<Rightarrow> string" where
  "passwdHome uid [] = ''/''"
| "passwdHome uid (l # ls) =
     (let field = Split (CHR '':'') l
      in if length field < 7 then passwdHome uid ls
         else case Atoi (field ! 2) of
             None \<Rightarrow> passwdHome uid ls
           | Some uidInt \<Rightarrow>
               (if uidInt = uid \<and> field ! 5 \<noteq> [] then field ! 5 else passwdHome uid ls))"

definition UserHome :: "int \<Rightarrow> string io" where
  "UserHome uid = bnd (attempt (os_Open ''/etc/passwd'')) (\<lambda>r. case r of
      Inl e \<Rightarrow> ret ''/''
    | Inr (text, _) \<Rightarrow> ret (passwdHome uid (fst (scanLines text))))"

section \<open>Killing every process\<close>

text \<open>
  \<^verbatim>\<open>filepath.Walk\<close> over \<^verbatim>\<open>/proc\<close> with the callback of \<^verbatim>\<open>Killall\<close>. The
  callback returns \<^verbatim>\<open>SkipDir\<close> for every entry: for a directory this skips its contents,
  for anything else it ends the walk. \<open>killEntry\<close> is the callback on an entry of
  \<^verbatim>\<open>/proc\<close>.
\<close>

definition procPath :: "string \<Rightarrow> string" where "procPath name = ''/proc/'' @ name"

definition killEntry :: "string \<Rightarrow> unit io" where
  "killEntry name = (case Atoi name of
      None \<Rightarrow> ret ()
    | Some pid \<Rightarrow>
        (if pid = 1 then ret ()
         else bnd (attempt (ioutil_ReadFile (procPath (name @ ''/cmdline'')))) (\<lambda>r. case r of
             Inl e \<Rightarrow> ret ()
           | Inr buf \<Rightarrow>
               (if buf = [] then ret () else ignore (call SysErrno (Proc (KillCall pid SIGKILL)))))))"

text \<open>One entry of the walk: the Boolean says whether the walk goes on.\<close>

definition walkEntry :: "string \<Rightarrow> bool io" where
  "walkEntry name = (let path = procPath name in
     bnd (attempt (os_Lstat path)) (\<lambda>r. case r of
       Inl e \<Rightarrow> thn (log_Print ''%v'') (ret True)
     | Inr st \<Rightarrow>
         (if fi_kind st \<noteq> FDir then thn (killEntry name) (ret False)
          else bnd (attempt (ask (\<lambda>K t. k_strs K t (Fs (Readdirnames path)))
                     (PathError ''open'' path) (Fs (Readdirnames path)))) (\<lambda>d. case d of
              Inl e \<Rightarrow> thn (log_Print ''%v'') (ret True)
            | Inr _ \<Rightarrow> thn (killEntry name) (ret True)))))"

fun walkProc :: "string list \<Rightarrow> unit io" where
  "walkProc [] = ret ()"
| "walkProc (n # ns) = bnd (walkEntry n) (\<lambda>go. if go then walkProc ns else ret ())"

definition Killall :: "unit io" where
  "Killall = bnd (attempt (os_Lstat ''/proc'')) (\<lambda>r. case r of
      Inl e \<Rightarrow> log_Print ''%v''
    | Inr st \<Rightarrow>
        (if fi_kind st \<noteq> FDir then ret ()
         else bnd (attempt (ask (\<lambda>K t. k_strs K t (Fs (Readdirnames ''/proc'')))
                    (PathError ''open'' ''/proc'') (Fs (Readdirnames ''/proc'')))) (\<lambda>d. case d of
             Inl e \<Rightarrow> log_Print ''%v''
           | Inr names \<Rightarrow> walkProc (sort names))))"

section \<open>Exit codes\<close>

text \<open>\<^verbatim>\<open>syscall.WaitStatus\<close> on Linux.\<close>

definition Exited :: "waitstatus \<Rightarrow> bool" where
  "Exited w \<longleftrightarrow> w AND 0x7F = 0"

definition Signaled :: "waitstatus \<Rightarrow> bool" where
  "Signaled w \<longleftrightarrow> w AND 0x7F \<noteq> 0x7F \<and> w AND 0x7F \<noteq> 0"

definition ExitStatus :: "waitstatus \<Rightarrow> int" where
  "ExitStatus w = (if Exited w then uint (drop_bit 8 w AND 0xFF) else - 1)"

definition WSignal :: "waitstatus \<Rightarrow> int" where
  "WSignal w = (if Signaled w then uint (w AND 0x7F) else - 1)"

text \<open>
  \<^verbatim>\<open>ErrorToRc\<close>: no error is code 0 and no message. The message is the error itself.
\<close>

definition ErrorToRc :: "gerror option \<Rightarrow> byte \<times> gerror option" where
  "ErrorToRc e = (case e of
      None \<Rightarrow> (0, None)
    | Some err \<Rightarrow>
        (case err of
           ExitError w \<Rightarrow>
             (if Exited w then word_of_int (ExitStatus w)
              else if Signaled w then word_of_int (WSignal w) + 128 else 1)
         | PathError _ _ n \<Rightarrow>
             (if n \<in> {EACCES, ENOEXEC, EISDIR, EPERM} then 126
              else if n = ENOENT then 127 else 1)
         | ExecError _ _ \<Rightarrow> 127
         | ExecNotFound _ \<Rightarrow> 127
         | _ \<Rightarrow> 1, Some err))"

section \<open>Links, flags, machine type\<close>

definition CreateSymlink :: "string \<Rightarrow> string \<Rightarrow> unit io" where
  "CreateSymlink target newPath0 =
     (let newPath = Clean newPath0;
          linkup = (\<lambda>tgt.
            thn (bnd (attempt (os_RemoveAll newPath)) (\<lambda>r. case r of
                   Inl e \<Rightarrow> whn (\<not> IsNotExist e)
                     (fail (ErrorfE ''create symlink %q -> %q failed: %v'' [newPath, tgt] e))
                 | Inr _ \<Rightarrow> ret ()))
              (mapErr (ErrorfE ''create symlink %q -> %q failed: %v'' [newPath, tgt])
                 (os_Symlink tgt newPath)))
      in if IsAbs newPath then linkup target
         else bnd os_Getwd (\<lambda>wd.
              thn (os_Chdir (filepath_Dir target))
                (deferring (linkup (filepath_Base target)) (os_Chdir wd))))"

definition ToBool :: "string \<Rightarrow> bool" where
  "ToBool s \<longleftrightarrow> ToLower (TrimSpace s) \<in> {''1'', ''on'', ''yes'', ''true''}"

text \<open>\<^verbatim>\<open>runtime.GOARCH\<close>: runq is built for two platforms.\<close>

datatype (plugins only: code size) goarch = Amd64 | S390x

fun sysinfoType :: "string list \<Rightarrow> string" where
  "sysinfoType [] = []"
| "sysinfoType (l # ls) =
     (let field = Fields l
      in if length field < 2 then sysinfoType ls
         else if field ! 0 = ''Type:'' then field ! 1 else sysinfoType ls)"

definition MachineType :: "goarch \<Rightarrow> string io" where
  "MachineType arch =
     (if arch \<noteq> S390x then ret []
      else bnd (os_Open ''/proc/sysinfo'') (\<lambda>(text, rderr).
        let (ls, toolong) = scanLines text; typ = sysinfoType ls
        in if typ = [] \<and> (toolong \<or> rderr \<noteq> None) then fail (Errorf ''can't read maschine type: %v'' [''<nil>''])
           else if length typ \<noteq> 4 then fail (Errorf ''invalid machine type %q'' [typ])
           else if take 1 typ = ''2'' then ret ''z13''
           else if take 1 typ = ''3'' then ret ''z14''
           else if take 1 typ = ''8'' then ret ''z15''
           else fail (Errorf ''unknown machine type %q'' [typ])))"

section \<open>Facts\<close>

lemma length_hexBytes [simp]: "length (hexBytes bs) = 2 * length bs"
  by (induction bs) (simp_all add: hexBytes_def)

lemma rand_Read_length: "rand_Read n K t = (Ret b, t') \<Longrightarrow> length b = n"
  by (auto simp: rand_Read_def io_Ret_iffs)

lemma isHex_digitChar: "d < 16 \<Longrightarrow> isHex (digitChar d)"
  by (auto simp: digitChar_def isHex_def isDigit_def)

lemma hexBytes_hex: "list_all isHex (hexBytes bs)"
proof (induction bs)
  case (Cons c bs)
  have "(of_char c :: nat) div 16 < 16" using nat_of_char_less_256 [of c] by linarith
  with Cons show ?case by (simp add: hexBytes_def isHex_digitChar)
qed (simp add: hexBytes_def)

lemma RandStr_hex: "RandStr n K t = (Ret s, t') \<Longrightarrow> list_all isHex s"
  using hexBytes_hex by (auto simp: RandStr_def io_Ret_iffs list_all_iff dest!: in_set_takeD)

lemma RandStr_length: "RandStr n K t = (Ret s, t') \<Longrightarrow> length s = n"
  by (auto simp: RandStr_def io_Ret_iffs dest!: rand_Read_length)

lemma and_7F: "w AND 0x7F = take_bit 7 (w :: 'a::len word)"
  by (simp add: take_bit_eq_mask mask_eq_exp_minus_1)

lemma and_FF: "w AND 0xFF = take_bit 8 (w :: 'a::len word)"
  by (simp add: take_bit_eq_mask mask_eq_exp_minus_1)

lemma uint_take_bit_less: "uint (take_bit n (w :: 'a::len word)) < 2 ^ n"
  by (simp add: unsigned_take_bit_eq)

lemma WSignal_bounds:
  assumes "Signaled w"
  shows "0 < WSignal w" and "WSignal w < 127"
proof -
  have "uint (take_bit 7 w) \<noteq> 0" "uint (take_bit 7 w) \<noteq> 127"
    using assms by (auto simp: Signaled_def and_7F word_uint_eq_iff)
  moreover have "uint (take_bit 7 w) < 128" using uint_take_bit_less [of 7 w] by simp
  moreover have "0 \<le> uint (take_bit 7 w)" by (rule uint_nonnegative)
  ultimately have "0 < uint (take_bit 7 w)" "uint (take_bit 7 w) < 127" by linarith+
  then show "0 < WSignal w" "WSignal w < 127"
    using assms by (simp_all only: WSignal_def and_7F if_True)
qed

lemma ExitStatus_bounds: "Exited w \<Longrightarrow> 0 \<le> ExitStatus w \<and> ExitStatus w < 256"
  using uint_take_bit_less [of 8 "drop_bit 8 w"] by (simp add: ExitStatus_def and_FF)

lemma uint_byte_of_int: "0 \<le> i \<Longrightarrow> i < 256 \<Longrightarrow> uint (word_of_int i :: byte) = i"
  by (simp add: unsigned_of_int take_bit_int_eq_self)

lemma Signaled_not_Exited: "Signaled w \<Longrightarrow> \<not> Exited w"
  by (simp add: Signaled_def Exited_def)

lemma ErrorToRc_exited:
  "Exited w \<Longrightarrow> uint (fst (ErrorToRc (Some (ExitError w)))) = ExitStatus w"
  using ExitStatus_bounds [of w] by (simp add: ErrorToRc_def uint_byte_of_int)

lemma ErrorToRc_signaled:
  assumes "Signaled w"
  shows "uint (fst (ErrorToRc (Some (ExitError w)))) = 128 + WSignal w"
proof -
  have "word_of_int (WSignal w) + 128 = (word_of_int (WSignal w + 128) :: byte)" by simp
  then have "uint (word_of_int (WSignal w) + 128 :: byte) = WSignal w + 128"
    using WSignal_bounds [OF assms] uint_byte_of_int [of "WSignal w + 128"] by presburger
  then show ?thesis using Signaled_not_Exited [OF assms] assms by (simp add: ErrorToRc_def)
qed

lemma bit_fff: "bit (0xfff :: int) n \<longleftrightarrow> n < 12"
proof -
  have "(0xfff :: int) = mask 12" by (simp add: mask_eq_exp_minus_1)
  then show ?thesis by (simp only: bit_mask_iff possible_bit_int simp_thms)
qed

lemma bit_ff: "bit (0xff :: int) n \<longleftrightarrow> n < 8"
proof -
  have "(0xff :: int) = mask 8" by (simp add: mask_eq_exp_minus_1)
  then show ?thesis by (simp only: bit_mask_iff possible_bit_int simp_thms)
qed

lemma bit_fff00: "bit (0xfff00 :: int) n \<longleftrightarrow> 8 \<le> n \<and> n < 20"
proof -
  have e: "(0xfff00 :: int) = push_bit 8 0xfff" by (simp add: push_bit_eq_mult)
  show ?thesis unfolding e by (auto simp only: bit_push_bit_iff_int bit_fff)
qed

text \<open>Linux's decoding of a device number.\<close>

definition dev_major :: "int \<Rightarrow> int" where "dev_major d = drop_bit 8 (d AND 0xfff00)"
definition dev_minor :: "int \<Rightarrow> int" where "dev_minor d = (d AND 0xff) OR (drop_bit 12 d AND 0xfff00)"

lemma mkdev_arith:
  assumes "0 \<le> major" "major < 4096" "0 \<le> minor" "minor < 1048576"
  shows "dev_major (mkdev major minor) = major" and "dev_minor (mkdev major minor) = minor"
proof -
  note bits = bit_fff00 bit_fff bit_ff
  note bitops = bit_and_iff bit_or_iff bit_drop_bit_eq comp_def bit_push_bit_iff_int
  have ma: "bit major n \<Longrightarrow> n < 12" for n
    using assms(1,2) bit_take_bit_iff [of 12 major n] by (simp add: take_bit_int_eq_self)
  have mi: "bit minor n \<Longrightarrow> n < 20" for n
    using assms(3,4) bit_take_bit_iff [of 20 minor n] by (simp add: take_bit_int_eq_self)
  show "dev_major (mkdev major minor) = major"
    by (rule bit_eqI, simp only: dev_major_def mkdev_def bitops bits) (auto dest: ma)
  show "dev_minor (mkdev major minor) = minor"
    by (rule bit_eqI, simp only: dev_minor_def mkdev_def bitops bits) (auto dest: mi)
qed


section \<open>Footprints\<close>

lemma emits_DirExists [emits_intros]: "P (Fs (Stat p)) \<Longrightarrow> emits P (DirExists p)"
  unfolding DirExists_def by (intro emits_intros) simp_all

lemma emits_FileExists [emits_intros]: "P (Fs (Stat p)) \<Longrightarrow> emits P (FileExists p)"
  unfolding FileExists_def by (intro emits_intros) simp_all

lemma emits_Mknod [emits_intros]: "(\<And>c. P (Fs c)) \<Longrightarrow> emits P (Mknod p ty fm ma mi)"
  unfolding Mknod_def Let_def by (intro emits_intros) simp_all

lemma returns_exists [returns_intros]: "returns K (FileExists p)" "returns K (DirExists p)"
  by (auto simp: FileExists_def DirExists_def os_Stat_def intro!: returns_intros)

lemma quiet_FileExists: "yields quiet_kernel (FileExists p) False"
  by (simp add: yields_def FileExists_def os_Stat_def io_defs)

section \<open>Walking the process table\<close>

definition kills_only :: "(int \<Rightarrow> bool) \<Rightarrow> syscall \<Rightarrow> bool" where
  "kills_only P c \<longleftrightarrow> (\<forall>p s. c = Proc (KillCall p s) \<longrightarrow> P p \<and> s = SIGKILL)"

lemma kills_only_simps [simp]:
  "kills_only P (Fs f)" "kills_only P (Proc (LogPrint s))"
  "kills_only P (Proc (KillCall p g)) \<longleftrightarrow> P p \<and> g = SIGKILL"
  by (simp_all add: kills_only_def)

text \<open>What a predicate on calls must allow for \<^verbatim>\<open>Killall\<close> to stay within it.\<close>

locale kill_footprint =
  fixes P :: "syscall \<Rightarrow> bool"
  assumes files: "P (Fs f)" and logs: "P (Proc (LogPrint s))" and kills: "p \<noteq> 1 \<Longrightarrow> P (Proc (KillCall p SIGKILL))"
begin

lemma killEntry: "emits P (killEntry n)"
  by (auto simp: killEntry_def intro!: emits_intros files kills)

lemma walkEntry: "emits P (walkEntry n)"
  by (auto simp: walkEntry_def Let_def intro!: emits_intros killEntry files logs)

lemma walkProc: "emits P (walkProc ns)"
  by (induction ns) (auto intro!: emits_intros walkEntry)

lemma Killall: "emits P Killall"
  by (auto simp: Killall_def intro!: emits_intros walkProc files logs)

end

interpretation killing: kill_footprint "kills_only (\<lambda>p. p \<noteq> 1)"
  by unfold_locales simp_all

text \<open>\<open>entry_dir K n\<close>: the entry is a directory or gone, so that the walk goes on behind it.\<close>

definition entry_passes :: "kernel \<Rightarrow> string \<Rightarrow> bool" where
  "entry_passes K n \<longleftrightarrow> (\<forall>t. case k_lstat K t (procPath n) of Inl e \<Rightarrow> True | Inr st \<Rightarrow> fi_kind st = FDir)"

definition killed :: "int \<Rightarrow> trace \<Rightarrow> bool" where
  "killed pid t \<longleftrightarrow> (\<exists>ev\<in>set t. ev_call ev = Proc (KillCall pid SIGKILL))"

lemma killed_append [simp]: "killed pid (t @ u) \<longleftrightarrow> killed pid t \<or> killed pid u"
  by (auto simp: killed_def)

text \<open>A process that the walk finds: a directory named by its number, with a command line.\<close>

definition live_process :: "kernel \<Rightarrow> string \<Rightarrow> int \<Rightarrow> bool" where
  "live_process K n pid \<longleftrightarrow> Atoi n = Some pid \<and> pid \<noteq> 1 \<and>
     (\<forall>t. (\<exists>st. k_lstat K t (procPath n) = Inr st \<and> fi_kind st = FDir)
        \<and> (\<exists>ds. k_strs K t (Fs (Readdirnames (procPath n))) = Inr ds)
        \<and> (\<exists>s. k_file K t (procPath (n @ ''/cmdline'')) = Inr (s, None) \<and> s \<noteq> []))"

lemma killEntry_returns: "\<exists>t'. killEntry n K t = (Ret (), t')"
  by (auto simp: killEntry_def io_defs ioutil_ReadFile_def os_Open_def split: option.splits sum.splits)

lemma killEntry_live:
  assumes "live_process K n pid" and "killEntry n K t = (Ret (), t')"
  shows "killed pid t'"
proof -
  from assms(1) obtain s where "k_file K t (procPath (n @ ''/cmdline'')) = Inr (s, None)" "s \<noteq> []"
    and "Atoi n = Some pid" "pid \<noteq> 1"
    by (auto simp: live_process_def)
  with assms(2) show ?thesis
    by (auto simp: killEntry_def io_defs ioutil_ReadFile_def os_Open_def killed_def split: option.splits)
qed

lemma walkEntry_passes:
  assumes "entry_passes K n"
  shows "\<exists>t'. walkEntry n K t = (Ret True, t')"
proof (cases "k_lstat K t (procPath n)")
  case (Inl e)
  then show ?thesis by (simp add: walkEntry_def os_Lstat_def log_Print_def io_defs Let_def)
next
  case (Inr st)
  with assms have dir: "fi_kind st = FDir" by (auto simp: entry_passes_def split: sum.splits)
  define u where "u = t @ [Done (Fs (Lstat (procPath n)))]"
  obtain v where v: "killEntry n K (u @ [Done (Fs (Readdirnames (procPath n)))]) = (Ret (), v)"
    using killEntry_returns by blast
  show ?thesis
    using Inr dir v
    by (cases "k_strs K u (Fs (Readdirnames (procPath n)))")
      (simp_all add: walkEntry_def os_Lstat_def log_Print_def io_defs Let_def flip: u_def)
qed

lemma walkEntry_live:
  assumes "live_process K n pid"
  shows "\<exists>t'. walkEntry n K t = (Ret True, t') \<and> killed pid t'"
proof -
  from assms obtain st ds where "k_lstat K t (procPath n) = Inr st" "fi_kind st = FDir"
    "k_strs K (t @ [Done (Fs (Lstat (procPath n)))]) (Fs (Readdirnames (procPath n))) = Inr ds"
    by (auto simp: live_process_def) blast
  moreover obtain t' where
    k: "killEntry n K ((t @ [Done (Fs (Lstat (procPath n)))]) @ [Done (Fs (Readdirnames (procPath n)))])
        = (Ret (), t')"
    using killEntry_returns by blast
  moreover have "killed pid t'" using killEntry_live [OF assms k] .
  ultimately show ?thesis
    by (simp add: walkEntry_def os_Lstat_def io_defs Let_def)
qed

lemma emits_Ret_killed:
  assumes "emits (kills_only P) m" and "m K t = (r, t')" and "killed pid t"
  shows "killed pid t'"
proof -
  obtain es where "t' = t @ es" by (rule emitsD [OF assms(1,2)])
  with assms(3) show ?thesis by simp
qed

lemma walkProc_reaches:
  assumes "n \<in> set ns" and "sorted ns" and "live_process K n pid"
    and "\<forall>m\<in>set ns. m < n \<longrightarrow> entry_passes K m"
  shows "killed pid (snd (walkProc ns K t))"
  using assms
proof (induction ns arbitrary: t)
  case (Cons m ns)
  show ?case
  proof (cases "m = n")
    case True
    then obtain t' where w: "walkEntry m K t = (Ret True, t')" "killed pid t'"
      using walkEntry_live [OF Cons.prems(3), of t] by auto
    obtain r u where "walkProc ns K t' = (r, u)" by force
    with w emits_Ret_killed [OF killing.walkProc] show ?thesis by (auto simp: bnd_def)
  next
    case False
    with Cons.prems have "n \<in> set ns" "m < n" by (auto simp: less_le)
    with Cons.prems obtain t' where w: "walkEntry m K t = (Ret True, t')"
      using walkEntry_passes [of K m t] by auto
    with Cons.IH [of t'] Cons.prems \<open>n \<in> set ns\<close> show ?thesis by (simp add: bnd_def)
  qed
qed simp

section \<open>Parsing\<close>

lemma takeWhile_digits: "list_all isDigit d \<Longrightarrow> \<not> isDigit c \<Longrightarrow> takeWhile isDigit (d @ c # r) = d"
  by (induction d) auto

lemma takeWhile_digits_end: "list_all isDigit d \<Longrightarrow> takeWhile isDigit d = d"
  by (induction d) auto

lemma digit_not_space: "isDigit c \<Longrightarrow> \<not> isSpace c"
  by (auto simp: isDigit_def isSpace_def)

lemma digit_not_sign: "isDigit c \<Longrightarrow> c \<noteq> CHR ''+'' \<and> c \<noteq> CHR ''-''"
  by (auto simp: isDigit_def)

text \<open>Scanning a printed natural number that a non-digit ends.\<close>

lemma scanInt_showNat:
  assumes "int n \<le> max_int64" and "r = [] \<or> \<not> isDigit (hd r)"
  shows "scanInt (showNat n @ r) = Some (int n, r)"
proof -
  obtain d ds where sn: "showNat n = d # ds" by (cases "showNat n") simp_all
  have dig: "list_all isDigit (d # ds)" using showNat_digits [of n] by (simp add: sn)
  then have d: "\<not> isSpace d" "d \<noteq> CHR ''+''" "d \<noteq> CHR ''-''"
    using digit_not_space digit_not_sign by auto
  have "takeWhile isDigit (showNat n @ r) = showNat n"
    using assms(2) takeWhile_digits [OF showNat_digits [of n]] takeWhile_digits_end [OF showNat_digits [of n]]
    by (cases r) auto
  moreover have "Atoi (showNat n) = Some (int n)"
    using Atoi_Itoa [of "int n"] assms(1) by (simp add: Itoa_def min_int64_def)
  ultimately show ?thesis
    using d by (simp add: scanInt_def Let_def sn)
qed

text \<open>The home directory by the first fitting line, as a search.\<close>

definition passwd_fits :: "int \<Rightarrow> string \<Rightarrow> bool" where
  "passwd_fits uid l \<longleftrightarrow> (let f = Split (CHR '':'') l in
     7 \<le> length f \<and> Atoi (f ! 2) = Some uid \<and> f ! 5 \<noteq> [])"

lemma passwdHome_find:
  "passwdHome uid ls = (case find (passwd_fits uid) ls of
      None \<Rightarrow> ''/'' | Some l \<Rightarrow> Split (CHR '':'') l ! 5)"
  by (induction ls) (auto simp: passwd_fits_def Let_def split: option.splits)

section \<open>Properties\<close>

text \<open>
  C35: Exit codes follow Bash: a command that exits gives its exit status, a command killed by a
  signal gives 128 plus the signal number, and neither wraps around in the eight bits of the
  code (so a killed command is always in 129..254). A missing file gives 127, a file that may
  not be executed 126.
\<close>

theorem exit_codes_like_bash:
  "(Exited w \<longrightarrow> uint (fst (ErrorToRc (Some (ExitError w)))) = ExitStatus w)
   \<and> (Signaled w \<longrightarrow> uint (fst (ErrorToRc (Some (ExitError w)))) = 128 + WSignal w
        \<and> 0 < WSignal w \<and> WSignal w < 127)
   \<and> fst (ErrorToRc (Some (PathError op p ENOENT))) = 127
   \<and> fst (ErrorToRc (Some (PathError op p EACCES))) = 126
   \<and> fst (ErrorToRc None) = 0"
  by (auto simp: ErrorToRc_exited ErrorToRc_signaled WSignal_bounds)
    (simp_all add: ErrorToRc_def)

theorem exit_codes_like_bash_witness:
  "uint (fst (ErrorToRc (Some (ExitError 0x2A00)))) = 42 \<and> uint (fst (ErrorToRc (Some (ExitError 9)))) = 137"
  using exit_codes_like_bash [of "0x2A00"] exit_codes_like_bash [of 9]
  by (simp add: Exited_def Signaled_def ExitStatus_def WSignal_def)

text \<open>
  A device number that \<^verbatim>\<open>Mknod\<close> builds is read back by Linux as the major and minor
  number it was built from, for every major number of 12 bits and minor number of 20 bits.
\<close>

lemma mkdev_roundtrip:
  assumes "0 \<le> major" and "major < 4096" and "0 \<le> minor" and "minor < 1048576"
  shows "dev_major (mkdev major minor) = major \<and> dev_minor (mkdev major minor) = minor"
  using mkdev_arith [OF assms] by blast


text \<open>A small system: processes 1 and 42, and the file \<^verbatim>\<open>/proc/uptime\<close>.\<close>

definition demo_proc :: kernel where
  "demo_proc = quiet_kernel\<lparr>
     k_strs := (\<lambda>t c. if c = Fs (Readdirnames ''/proc'') then Inr [''uptime'', ''42'', ''1''] else Inr []),
     k_file := (\<lambda>t p. Inr (''sh'', None)),
     k_lstat := (\<lambda>t p. Inr \<lparr>fi_kind = (if p = ''/proc/uptime'' then FRegular else FDir), fi_size = 0\<rparr>)\<rparr>"


text \<open>
  The home directory of a user is field 6 of the first line of \<^verbatim>\<open>/etc/passwd\<close> that has
  seven fields, the user's number in field 3 and a nonempty field 6; without such a line, and
  when the file cannot be opened, it is the root directory. It is never empty, and
  \<^verbatim>\<open>UserHome\<close> never fails.
\<close>

lemma user_home:
  "UserHome uid K t =
     (Ret (case k_file K t ''/etc/passwd'' of
         Inl e \<Rightarrow> ''/''
       | Inr (text, _) \<Rightarrow> (case find (passwd_fits uid) (fst (scanLines text)) of
             None \<Rightarrow> ''/'' | Some l \<Rightarrow> Split (CHR '':'') l ! 5)),
      snd (os_Open ''/etc/passwd'' K t))
   \<and> passwdHome uid ls \<noteq> []"
proof -
  have "passwdHome uid ls \<noteq> []" by (induction ls) (auto simp: Let_def split: option.splits)
  then show ?thesis
    by (auto simp: UserHome_def os_Open_def io_defs passwdHome_find split: sum.splits)
qed

text \<open>
  The numbers of a device file of sysfs (\<^verbatim>\<open>major:minor\<close> and a newline) are read as the
  numbers that were printed.
\<close>

lemma major_minor_roundtrip:
  assumes "int a \<le> max_int64" and "int b \<le> max_int64"
  shows "Sscanf_d_d (showNat a @ '':'' @ showNat b @ ''\<newline>'') = Some (int a, int b)"
  using scanInt_showNat [OF assms(1), of "CHR '':'' # showNat b @ ''\<newline>''"]
    scanInt_showNat [OF assms(2), of "''\<newline>''"]
  by (simp add: Sscanf_d_d_def isDigit_def)

end
