(* ===== verification/Vs.thy ===== *)
theory Vs
  imports Util
begin

text \<open>
  \<^verbatim>\<open>internal/vs/vs.go\<close>: what runq-exec and vsockd share. A job identifier is four bytes.
\<close>

definition vsPort :: nat where "vsPort = 1"

definition TypeControlConn :: byte where "TypeControlConn = 0"
definition TypeExecuteConn :: byte where "TypeExecuteConn = 1"
definition vsDone :: byte where "vsDone = 2"

type_synonym jobid = "byte list"

record jobRequest =
  jr_Args :: "string list"
  jr_Env :: "string list"
  jr_WithStdin :: bool
  jr_WithTTY :: bool

definition jr_Encode :: "jobRequest gobenc \<Rightarrow> jobRequest \<Rightarrow> gerror + byte list" where
  "jr_Encode enc jr = (case enc jr of
      None \<Rightarrow> Inl (Errorf ''gob: encode'' []) | Some bs \<Rightarrow> Inr bs)"

definition DecodeJobRequest :: "jobRequest gobdec \<Rightarrow> byte list \<Rightarrow> gerror + jobRequest" where
  "DecodeJobRequest dec buf = (case dec buf of
      None \<Rightarrow> Inl (Errorf ''gob: decode'' []) | Some jr \<Rightarrow> Inr jr)"

text \<open>The regular expression \<^verbatim>\<open>^[0-9a-fA-F]{8,}\<close>: at least eight hexadecimal digits at the front.\<close>

definition hex8 :: "string \<Rightarrow> bool" where
  "hex8 s \<longleftrightarrow> 8 \<le> length s \<and> list_all isHex (take 8 s)"

definition ContextID :: "string \<Rightarrow> gerror + 32 word" where
  "ContextID ident =
     (if \<not> hex8 ident then Inl (Errorf ''ContextID: invalid id: %s'' [ident])
      else let i = readBase 16 (take 8 ident)
           in if i < 3 \<or> i = 2 ^ 32 - 1 then Inl (Errorf ''ContextID: invalid id: %s'' [ident])
              else Inr (word_of_nat i))"

section \<open>Facts\<close>

lemma digitVal_hex_less: "isHex c \<Longrightarrow> digitVal c < 16"
proof -
  assume "isHex c"
  then consider "48 \<le> (of_char c :: nat)" "(of_char c :: nat) \<le> 57"
    | "97 \<le> (of_char c :: nat)" "(of_char c :: nat) \<le> 102"
    | "65 \<le> (of_char c :: nat)" "(of_char c :: nat) \<le> 70"
    by (auto simp: isHex_def isDigit_def)
  then show ?thesis by cases (simp_all add: digitVal_def isDigit_def isLower_def)
qed

lemma readBase_snoc_bound: "list_all isHex s \<Longrightarrow> readBase 16 s < 16 ^ length s"
proof (induction s rule: rev_induct)
  case (snoc c s)
  then have "readBase 16 s < 16 ^ length s" "digitVal c < 16"
    by (simp_all add: digitVal_hex_less)
  then show ?case by (simp add: readBase_append)
qed (simp add: readBase_def)

lemma ContextID_value:
  assumes "ContextID ident = Inr c"
  shows "unat c = readBase 16 (take 8 ident)" and "hex8 ident"
    and "3 \<le> readBase 16 (take 8 ident)" and "readBase 16 (take 8 ident) < 2 ^ 32 - 1"
proof -
  have h: "hex8 ident" and c: "c = word_of_nat (readBase 16 (take 8 ident))"
    and r: "3 \<le> readBase 16 (take 8 ident)" "readBase 16 (take 8 ident) \<noteq> 2 ^ 32 - 1"
    using assms by (auto simp: ContextID_def Let_def split: if_splits)
  have lt: "readBase 16 (take 8 ident) < 2 ^ 32"
    using readBase_snoc_bound [of "take 8 ident"] h by (simp add: hex8_def)
  with c show "unat c = readBase 16 (take 8 ident)"
    by (simp add: unat_of_nat take_bit_nat_eq_self)
  from lt r show "readBase 16 (take 8 ident) < 2 ^ 32 - 1" by simp
qed (use assms in \<open>auto simp: ContextID_def Let_def split: if_splits\<close>)

lemma hex8_prefix: "8 \<le> n \<Longrightarrow> hex8 (take n s) \<longleftrightarrow> hex8 s"
  by (auto simp: hex8_def min_def)

lemma of_char_toLowerC:
  "(of_char (toLowerC c) :: nat) = (if isUpper c then of_char c + 32 else of_char c)"
  by (auto simp: toLowerC_def isUpper_def)

lemma hex_lower_code:
  "isHex c \<Longrightarrow> (of_char (toLowerC c) :: nat) = (if digitVal c < 10 then 48 + digitVal c else 87 + digitVal c)"
proof -
  assume "isHex c"
  then consider "48 \<le> (of_char c :: nat)" "(of_char c :: nat) \<le> 57"
    | "97 \<le> (of_char c :: nat)" "(of_char c :: nat) \<le> 102"
    | "65 \<le> (of_char c :: nat)" "(of_char c :: nat) \<le> 70"
    by (auto simp: isHex_def isDigit_def)
  then show ?thesis
    unfolding of_char_toLowerC digitVal_def
    by cases (simp_all add: isDigit_def isLower_def isUpper_def)
qed

lemma toLowerC_digitVal:
  assumes "isHex a" and "isHex b" and "digitVal a = digitVal b"
  shows "toLowerC a = toLowerC b"
proof -
  have "of_char (toLowerC a) = (of_char (toLowerC b) :: nat)"
    unfolding hex_lower_code [OF assms(1)] hex_lower_code [OF assms(2)] assms(3) ..
  then show ?thesis by simp
qed

lemma base16_split:
  fixes a b c d :: nat
  assumes "c < 16" and "d < 16" and "a * 16 + c = b * 16 + d"
  shows "c = d \<and> a = b"
proof -
  have "(a * 16 + c) mod 16 = c" and "(b * 16 + d) mod 16 = d" using assms(1,2) by simp_all
  then have "c = d" using assms(3) by metis
  with assms(3) show ?thesis by simp
qed

lemma readBase_hex_inj:
  assumes "length s = length u" and "list_all isHex s" and "list_all isHex u"
    and "readBase 16 s = readBase 16 u"
  shows "map toLowerC s = map toLowerC u"
  using assms
proof (induction s arbitrary: u rule: rev_induct)
  case (snoc c s)
  then obtain v d where u: "u = v @ [d]" by (cases u rule: rev_cases) auto
  have "digitVal c < 16" "digitVal d < 16" using snoc.prems u by (simp_all add: digitVal_hex_less)
  moreover have "readBase 16 s * 16 + digitVal c = readBase 16 v * 16 + digitVal d"
    using snoc.prems u by (simp add: readBase_append)
  ultimately have "digitVal c = digitVal d" "readBase 16 s = readBase 16 v"
    using base16_split by blast+
  with snoc u show ?case using toLowerC_digitVal by auto
qed simp

section \<open>Properties\<close>

text \<open>
  A context ID that runq computes is never one of the addresses that vsock reserves (the
  hypervisor, the loopback, the host, and the wildcard \<^verbatim>\<open>0xffffffff\<close>).
\<close>

lemma context_id_not_reserved:
  assumes "ContextID ident = Inr c"
  shows "3 \<le> unat c \<and> unat c < 2 ^ 32 - 1"
  using ContextID_value [OF assms] by simp

text \<open>
  C37: The two sides of a connection agree: the proxy computes the context ID from the twelve
  characters of the container ID it was given, runq-exec from the full ID, and both get the same
  number, or both refuse the ID. And two containers get the same number only if the first eight
  digits of their IDs are the same up to case.
\<close>

theorem context_id_agrees:
  "(case (ContextID (take 12 full), ContextID full) of
      (Inr c, Inr d) \<Rightarrow> c = d | (Inl _, Inl _) \<Rightarrow> True | _ \<Rightarrow> False)
   \<and> (ContextID a = Inr c \<and> ContextID b = Inr c \<longrightarrow> ToLower (take 8 a) = ToLower (take 8 b))"
proof
  have "take 8 (take 12 full) = take 8 full" by (simp add: min_def)
  then show "case (ContextID (take 12 full), ContextID full) of
      (Inr c, Inr d) \<Rightarrow> c = d | (Inl _, Inl _) \<Rightarrow> True | _ \<Rightarrow> False"
    by (simp add: ContextID_def hex8_prefix Let_def)
  show "ContextID a = Inr c \<and> ContextID b = Inr c \<longrightarrow> ToLower (take 8 a) = ToLower (take 8 b)"
  proof
    assume "ContextID a = Inr c \<and> ContextID b = Inr c"
    then have "readBase 16 (take 8 a) = readBase 16 (take 8 b)" "hex8 a" "hex8 b"
      using ContextID_value by metis+
    then show "ToLower (take 8 a) = ToLower (take 8 b)"
      unfolding ToLower_def by (intro readBase_hex_inj) (simp_all add: hex8_def min_def)
  qed
qed

theorem context_id_agrees_witness:
  "ToLower (take 8 ''0000000A11'') = ToLower (take 8 ''0000000a22'')"
proof -
  have "ContextID ''0000000A11'' = Inr 10 \<and> ContextID ''0000000a22'' = Inr 10"
    by (simp add: ContextID_def hex8_def isHex_def isDigit_def isLower_def readBase_def digitVal_def)
  with context_id_agrees [of "[]" "''0000000A11''" 10 "''0000000a22''"] show ?thesis by blast
qed

end
