(* ===== verification/Vsockd.thy ===== *)
theory Vsockd
  imports Vs
begin

text \<open>
  \<^verbatim>\<open>cmd/vsockd/main.go\<close>: the server inside the VM that runs commands for runq-exec. Every
  connection is served by its own goroutine; the goroutines share the table of jobs under a
  mutex. A goroutine is cut at its critical sections and at the points where it waits, and the
  step relation interleaves these pieces in any order. Connections are numbered in the order in
  which they are accepted.
\<close>

section \<open>Accepting a connection\<close>

type_synonym conn = nat

text \<open>
  What the server learns of a connection: whether it is a TLS connection, whether the handshake
  (which demands and verifies a client certificate) succeeds, the context ID of its vsock
  address, and what the first read of up to 4096 bytes returns.
\<close>

record conninfo =
  ci_tls :: bool
  ci_handshake :: bool
  ci_addr :: "32 word option"
  ci_read :: "byte list option"

datatype (plugins only: code size) dispatch = Crash | Reject | Control "byte list" | Execute "byte list"

text \<open>\<open>Crash\<close>: the connection is not a TLS connection, and closing the nil pointer panics.\<close>

definition handleConnection :: "conninfo \<Rightarrow> dispatch" where
  "handleConnection ci =
     (if \<not> ci_tls ci then Crash
      else if \<not> ci_handshake ci then Reject
      else case ci_addr ci of
          None \<Rightarrow> Reject
        | Some cid \<Rightarrow>
            (if cid \<noteq> 2 then Reject
             else case ci_read ci of
                 None \<Rightarrow> Reject
               | Some buf0 \<Rightarrow>
                   (let buf = take 4096 buf0
                    in if length buf < 2 then Reject
                       else if hd buf = TypeControlConn then Control (tl buf)
                       else if hd buf = TypeExecuteConn then Execute (tl buf)
                       else Reject)))"

section \<open>State\<close>

record jobExecution =
  je_Path :: string
  je_Args :: "string list"
  je_Env :: "string list"
  je_ctrlConn :: conn
  je_started :: bool
  je_withStdin :: bool
  je_withTTY :: bool

text \<open>What is written to a connection: bytes, or the text of an error and a newline.\<close>

datatype (plugins only: code size) payload = Bytes string | ErrLine gerror

text \<open>
  The table of jobs; the goroutines of control connections that sleep before they look at their job
  again; the goroutines of execute connections with their copy of the job and whether the exit
  code has been sent; and a history: the connections accepted, the identifiers drawn, the control
  connections whose command was started, what was written to a connection, which connections
  were closed (the most recent first).
\<close>

record vstate =
  jobs :: "jobid \<Rightarrow> jobExecution option"
  timers :: "(conn \<times> jobid) list"
  execs :: "(conn \<times> jobid \<times> jobExecution \<times> bool) list"
  accepted :: nat
  drawn :: "jobid list"
  launched :: "conn list"
  written :: "(conn \<times> payload) list"
  closed :: "conn list"

definition vinit :: vstate where
  "vinit = \<lparr>jobs = (\<lambda>_. None), timers = [], execs = [], accepted = 0, drawn = [],
     launched = [], written = [], closed = []\<rparr>"

text \<open>What \<^verbatim>\<open>run\<close> read at startup: the process of the entrypoint and its environment.\<close>

record vconfig =
  entrypointPid :: string
  entrypointEnv :: "string list"

section \<open>Control connections\<close>

text \<open>The job of a decoded request.\<close>

definition mkJob :: "vconfig \<Rightarrow> conn \<Rightarrow> jobRequest \<Rightarrow> jobExecution" where
  "mkJob cfg c jr =
     \<lparr>je_Path = ''/sbin/nsenter'', je_Args = [''nsenter'', entrypointPid cfg] @ jr_Args jr,
      je_Env = entrypointEnv cfg @ jr_Env jr, je_ctrlConn = c, je_started = False,
      je_withStdin = jr_WithStdin jr, je_withTTY = jr_WithTTY jr\<rparr>"

definition close_conn :: "conn \<Rightarrow> vstate \<Rightarrow> vstate" where
  "close_conn c s = s\<lparr>closed := c # closed s\<rparr>"

text \<open>
  Up to the sleep. \<open>rnd\<close> is what \<^verbatim>\<open>rand.Read\<close> returns: the identifier, or an error.
\<close>

definition ctl_register :: "vconfig \<Rightarrow> jobRequest gobdec \<Rightarrow> conn \<Rightarrow> byte list \<Rightarrow> jobid option \<Rightarrow> vstate \<Rightarrow> vstate" where
  "ctl_register cfg dec c buf rnd s =
     (if length buf < 2 then close_conn c s
      else case DecodeJobRequest dec buf of
          Inl e \<Rightarrow> close_conn c s
        | Inr jr \<Rightarrow> (case rnd of
              None \<Rightarrow> close_conn c s
            | Some jid \<Rightarrow>
                s\<lparr>jobs := (jobs s)(jid \<mapsto> mkJob cfg c jr), timers := (c, jid) # timers s,
                  drawn := jid # drawn s, written := (c, Bytes (map (char_of \<circ> unat) jid)) # written s\<rparr>))"

text \<open>After the sleep: a job that was not started is removed.\<close>

definition ctl_expire :: "conn \<Rightarrow> jobid \<Rightarrow> vstate \<Rightarrow> vstate" where
  "ctl_expire c jid s0 =
     (let s = s0\<lparr>timers := remove1 (c, jid) (timers s0)\<rparr>
      in case jobs s jid of
          None \<Rightarrow> s
        | Some job \<Rightarrow>
            (if \<not> je_started job then close_conn c (s\<lparr>jobs := (jobs s)(jid := None)\<rparr>) else s))"

section \<open>Execute connections\<close>

text \<open>\<^verbatim>\<open>copy(id[:], buf)\<close> into four zero bytes.\<close>

definition copyId :: "byte list \<Rightarrow> jobid" where
  "copyId buf = take 4 (buf @ replicate 4 0)"

definition exec_begin :: "conn \<Rightarrow> byte list \<Rightarrow> vstate \<Rightarrow> vstate" where
  "exec_begin c buf s =
     (let jid = copyId buf
      in case jobs s jid of
          None \<Rightarrow> close_conn c s
        | Some job \<Rightarrow>
            (if je_started job then close_conn c s
             else let job' = job\<lparr>je_started := True\<rparr>
                  in s\<lparr>jobs := (jobs s)(jid \<mapsto> job'), execs := (c, jid, job', False) # execs s,
                       launched := je_ctrlConn job # launched s\<rparr>))"

text \<open>
  The command ended with \<open>err\<close>: its message goes to the execute connection, the exit code to the
  control connection.
\<close>

definition exec_report :: "conn \<Rightarrow> jobid \<Rightarrow> jobExecution \<Rightarrow> gerror option \<Rightarrow> vstate \<Rightarrow> vstate" where
  "exec_report c jid job err s =
     (let (rc, msg) = ErrorToRc err
      in s\<lparr>execs := (c, jid, job, True) # remove1 (c, jid, job, False) (execs s),
           written := (je_ctrlConn job, Bytes (Itoa (uint rc)))
             # (case msg of None \<Rightarrow> [] | Some e \<Rightarrow> [(c, ErrLine e)]) @ written s\<rparr>)"

text \<open>After the acknowledgement or three seconds.\<close>

definition exec_cleanup :: "conn \<Rightarrow> jobid \<Rightarrow> jobExecution \<Rightarrow> vstate \<Rightarrow> vstate" where
  "exec_cleanup c jid job0 s0 =
     (let s = s0\<lparr>execs := remove1 (c, jid, job0, True) (execs s0)\<rparr>
      in case jobs s jid of
          None \<Rightarrow> s
        | Some job \<Rightarrow>
            close_conn c (close_conn (je_ctrlConn job) (s\<lparr>jobs := (jobs s)(jid := None)\<rparr>)))"

section \<open>The command itself\<close>

text \<open>
  Starting the command, with and without a terminal. The copies of the streams run until the
  command closes its side; their errors are ignored.
\<close>

definition startCommandWithTTY :: "jobExecution \<Rightarrow> unit io" where
  "startCommandWithTTY job =
     thn (call (ExtError ''pty.Start'') (Proc (StartProcess (je_Path job) (je_Args job) [] [])))
       (deferring
         (seqs [whn (je_withStdin job) (note_call (Proc (GoRoutine ''io.Copy(ptmx, c)''))),
                ignore (call SysErrno (Proc (CopyStream ''io.Copy(c, ptmx)'')))])
         (call SysErrno (Proc (CloseFd ''ptmx''))))"

definition startCommandNoTTY :: "jobExecution \<Rightarrow> unit io" where
  "startCommandNoTTY job =
     seqs [whn (je_withStdin job)
             (mapErr (ErrorfE ''create pipe STDIN failed: %v'' []) (call SysErrno (Proc PipeCall))),
           mapErr (ErrorfE ''create pipe STDOUT failed: %v'' []) (call SysErrno (Proc PipeCall)),
           mapErr (ErrorfE ''create pipe STDERR failed: %v'' []) (call SysErrno (Proc PipeCall)),
           call (PathError ''fork/exec'' (je_Path job)) (Proc (StartProcess (je_Path job) (je_Args job) [] [])),
           whn (je_withStdin job) (note_call (Proc (GoRoutine ''io.Copy(stdin, c)''))),
           note_call (Proc (GoRoutine ''io.Copy(c, stdout)'')),
           ignore (call SysErrno (Proc (CopyStream ''io.Copy(c, stderr)''))),
           note_call (Proc ChanRecv)]"

text \<open>
  \<^verbatim>\<open>job.cmd.Wait\<close>: the wait status of the command, zero for success. The error of the start
  or of the wait is the result.
\<close>

definition run_command :: "jobExecution \<Rightarrow> gerror option io" where
  "run_command job =
     bnd (attempt (if je_withTTY job then startCommandWithTTY job else startCommandNoTTY job)) (\<lambda>r.
     case r of
       Inl e \<Rightarrow> ret (Some e)
     | Inr _ \<Rightarrow>
         bnd (attempt (ask (\<lambda>K t. k_int K t (Proc (Wait4 0))) SysErrno (Proc (Wait4 0)))) (\<lambda>w.
         case w of
           Inl e \<Rightarrow> ret (Some e)
         | Inr st \<Rightarrow> ret (if st = 0 then None else Some (ExitError (word_of_int st)))))"

section \<open>Steps\<close>

definition accept :: "vstate \<Rightarrow> vstate" where
  "accept s = s\<lparr>accepted := Suc (accepted s)\<rparr>"

inductive vstep :: "vconfig \<Rightarrow> jobRequest gobdec \<Rightarrow> vstate \<Rightarrow> vstate \<Rightarrow> bool" for cfg dec where
  rejected: "handleConnection ci = Reject \<Longrightarrow>
     vstep cfg dec s (close_conn (accepted s) (accept s))"
| control: "handleConnection ci = Control buf \<Longrightarrow> (\<forall>jid. rnd = Some jid \<longrightarrow> length jid = 4) \<Longrightarrow>
     vstep cfg dec s (ctl_register cfg dec (accepted s) buf rnd (accept s))"
| expire: "(c, jid) \<in> set (timers s) \<Longrightarrow> vstep cfg dec s (ctl_expire c jid s)"
| execute: "handleConnection ci = Execute buf \<Longrightarrow>
     vstep cfg dec s (exec_begin (accepted s) buf (accept s))"
| report: "(c, jid, job, False) \<in> set (execs s) \<Longrightarrow>
     vstep cfg dec s (exec_report c jid job err s)"
| cleanup: "(c, jid, job, True) \<in> set (execs s) \<Longrightarrow>
     vstep cfg dec s (exec_cleanup c jid job s)"

inductive vreach :: "vconfig \<Rightarrow> jobRequest gobdec \<Rightarrow> vstate \<Rightarrow> bool" for cfg dec where
  start: "vreach cfg dec vinit"
| step: "vreach cfg dec s \<Longrightarrow> vstep cfg dec s s' \<Longrightarrow> vreach cfg dec s'"

inductive_cases vstepE: "vstep cfg dec s s'"

section \<open>Startup\<close>

text \<open>
  \<^verbatim>\<open>run\<close> up to the accept loop. The parsers of certificates are arguments: whether the CA
  certificate is accepted, and the error of \<^verbatim>\<open>tls.X509KeyPair\<close>.
\<close>

definition vsockd_run ::
  "vsockd gobdec \<Rightarrow> (byte list \<Rightarrow> bool) \<Rightarrow> (byte list \<Rightarrow> byte list \<Rightarrow> gerror option) \<Rightarrow> string list \<Rightarrow> vconfig io" where
  "vsockd_run dec appendCerts keyPair args =
     (if length args < 2 then fail (Errorf ''Usage: %s <pid of entrypoint>'' (take 1 args))
      else case Atoi (args ! 1) of
          None \<Rightarrow> fail (Errorf ''invalid pid of entrypoint : %v'' [args ! 1])
        | Some _ \<Rightarrow>
            bnd (mapErr WithStack (ask (\<lambda>K t. k_str K t (Proc (ReadAllFd 3))) SysErrno (Proc (ReadAllFd 3)))) (\<lambda>text.
            thn (mapErr WithStack (call SysErrno (Proc (CloseFd ''rd''))))
            (case DecodeVsockdGob dec (map of_char text) of
               Inl e \<Rightarrow> fail (WithStack e)
             | Inr v \<Rightarrow>
                 (if \<not> appendCerts (cert_CACert v) then fail (Errorf ''failed to parse CA certificate'' [])
                  else case keyPair (cert_Cert v) (cert_Key v) of
                      Some e \<Rightarrow> fail (Wrap ''failed to parse certificate/key pair'' e)
                    | None \<Rightarrow>
                        thn (mapErr (ErrorfE ''listen failed: %v'' []) (call SysErrno (Proc (ListenCall (Itoa (int vsPort))))))
                          (ret \<lparr>entrypointPid = args ! 1, entrypointEnv = vs_EntrypointEnv v\<rparr>)))))"

text \<open>The accept loop that follows with this configuration is the relation above.\<close>

definition vsockd_main ::
  "vsockd gobdec \<Rightarrow> (byte list \<Rightarrow> bool) \<Rightarrow> (byte list \<Rightarrow> byte list \<Rightarrow> gerror option) \<Rightarrow> string list \<Rightarrow> vconfig io" where
  "vsockd_main dec appendCerts keyPair args =
     bnd (attempt (vsockd_run dec appendCerts keyPair args)) (\<lambda>r. case r of
         Inl e \<Rightarrow> log_Fatal ''%+v'' | Inr cfg \<Rightarrow> ret cfg)"

section \<open>Each command is started at most once\<close>

lemmas vs_ops = accept_def close_conn_def ctl_register_def ctl_expire_def exec_begin_def
  exec_report_def exec_cleanup_def

text \<open>
  Entries of the table belong to different control connections, and one that is not started has
  not been launched. Nothing is assumed about the identifiers drawn.
\<close>

definition table_inv :: "vstate \<Rightarrow> bool" where
  "table_inv s \<longleftrightarrow>
     (\<forall>j job. jobs s j = Some job \<longrightarrow> je_ctrlConn job < accepted s)
   \<and> (\<forall>c\<in>set (launched s). c < accepted s)
   \<and> (\<forall>j j' job job'. jobs s j = Some job \<longrightarrow> jobs s j' = Some job' \<longrightarrow>
        je_ctrlConn job = je_ctrlConn job' \<longrightarrow> j = j')
   \<and> (\<forall>j job. jobs s j = Some job \<longrightarrow> \<not> je_started job \<longrightarrow> je_ctrlConn job \<notin> set (launched s))
   \<and> distinct (launched s)"

lemma table_inv_init: "table_inv vinit"
  by (simp add: table_inv_def vinit_def)

lemma table_inv_remove:
  "table_inv s \<Longrightarrow> jobs s' = (jobs s)(j := None) \<Longrightarrow> accepted s' = accepted s \<Longrightarrow>
     launched s' = launched s \<Longrightarrow> table_inv s'"
  unfolding table_inv_def by (auto split: if_splits)

lemma table_inv_same:
  "table_inv s \<Longrightarrow> jobs s' = jobs s \<Longrightarrow> accepted s \<le> accepted s' \<Longrightarrow>
     launched s' = launched s \<Longrightarrow> table_inv s'"
  unfolding table_inv_def by (auto dest: less_le_trans)

lemma table_inv_insert:
  assumes "table_inv s" and "jobs s' = (jobs s)(j \<mapsto> job)" and "je_ctrlConn job = accepted s"
    and "accepted s' = Suc (accepted s)" and "launched s' = launched s"
  shows "table_inv s'"
  using assms unfolding table_inv_def by (auto split: if_splits dest: less_SucI) fastforce+

lemma table_inv_launch:
  assumes "table_inv s" and "jobs s j = Some job" and "\<not> je_started job"
    and "jobs s' = (jobs s)(j \<mapsto> job\<lparr>je_started := True\<rparr>)" and "accepted s' = Suc (accepted s)"
    and "launched s' = je_ctrlConn job # launched s"
  shows "table_inv s'"
  using assms unfolding table_inv_def
  by (auto split: if_splits dest: less_SucI)

lemma table_inv_step: "vstep cfg dec s s' \<Longrightarrow> table_inv s \<Longrightarrow> table_inv s'"
proof (induction rule: vstep.induct)
  case (rejected ci s)
  then show ?case by (auto simp: vs_ops intro: table_inv_same)
next
  case (control ci buf rnd s)
  then show ?case
    by (auto simp: vs_ops mkJob_def split: sum.splits option.splits
        intro: table_inv_same table_inv_insert)
next
  case (expire c jid s)
  then show ?case
    by (auto simp: vs_ops Let_def split: option.splits intro: table_inv_same table_inv_remove)
next
  case (execute ci buf s)
  then show ?case
    by (auto simp: vs_ops Let_def split: option.splits intro: table_inv_same table_inv_launch)
next
  case (report c jid job s err)
  then show ?case by (auto simp: vs_ops Let_def split: prod.splits intro: table_inv_same)
next
  case (cleanup c jid job s)
  then show ?case
    by (auto simp: vs_ops Let_def split: option.splits intro: table_inv_same table_inv_remove)
qed

lemma table_inv_reach: "vreach cfg dec s \<Longrightarrow> table_inv s"
  by (induction rule: vreach.induct) (auto intro: table_inv_init table_inv_step)

section \<open>No job is forgotten\<close>

text \<open>
  A waiting job has its timer, a started job the goroutine that serves it.
\<close>

definition owned :: "vstate \<Rightarrow> bool" where
  "owned s \<longleftrightarrow> (\<forall>j job. jobs s j = Some job \<longrightarrow>
     (if je_started job then \<exists>c b. (c, j, job, b) \<in> set (execs s)
      else (je_ctrlConn job, j) \<in> set (timers s)))"

lemma owned_init: "owned vinit"
  by (simp add: owned_def vinit_def)

lemma in_set_remove1_other: "x \<in> set xs \<Longrightarrow> x \<noteq> y \<Longrightarrow> x \<in> set (remove1 y xs)"
  by (induction xs) auto

lemma mark_reported:
  assumes "(c', j, jb, b) \<in> set es"
  shows "\<exists>b. (c', j, jb, b) \<in> set ((c, jid, job, True) # remove1 (c, jid, job, False) es)"
proof (cases "(c', j, jb, b) = (c, jid, job, False)")
  case False
  with assms have "(c', j, jb, b) \<in> set (remove1 (c, jid, job, False) es)"
    by (rule in_set_remove1_other)
  then show ?thesis by (intro exI [of _ b]) simp
qed auto

lemma owned_step: "vstep cfg dec s s' \<Longrightarrow> owned s \<Longrightarrow> owned s'"
proof (induction rule: vstep.induct)
  case (rejected ci s)
  then show ?case by (simp add: owned_def vs_ops)
next
  case (control ci buf rnd s)
  then show ?case
    by (auto simp: owned_def vs_ops mkJob_def split: sum.splits option.splits if_splits)
next
  case (expire c jid s)
  then show ?case
    by (auto simp: owned_def vs_ops Let_def split: option.splits if_splits
        intro!: in_set_remove1_other)
next
  case (execute ci buf s)
  then show ?case
    by (auto simp: owned_def vs_ops Let_def split: option.splits if_splits)
next
  case (report c jid job s err)
  show ?case
    unfolding owned_def
  proof (intro allI impI)
    fix j jb
    assume "jobs (exec_report c jid job err s) j = Some jb"
    then have "jobs s j = Some jb" by (simp add: exec_report_def Let_def split: prod.splits)
    with report have o: "if je_started jb then \<exists>c b. (c, j, jb, b) \<in> set (execs s)
        else (je_ctrlConn jb, j) \<in> set (timers s)" by (simp add: owned_def)
    with o mark_reported [of _ j jb _ "execs s" c jid job]
    show "if je_started jb then \<exists>c' b. (c', j, jb, b) \<in> set (execs (exec_report c jid job err s))
        else (je_ctrlConn jb, j) \<in> set (timers (exec_report c jid job err s))"
      by (simp add: exec_report_def Let_def split: prod.splits) metis
  qed
next
  case (cleanup c jid job s)
  then show ?case
    by (auto simp: owned_def vs_ops Let_def split: option.splits if_splits)
      (metis Pair_inject in_set_remove1_other option.distinct(1))+
qed

lemma owned_reach: "vreach cfg dec s \<Longrightarrow> owned s"
  by (induction rule: vreach.induct) (auto intro: owned_init owned_step)

inductive vsteps :: "vconfig \<Rightarrow> jobRequest gobdec \<Rightarrow> vstate \<Rightarrow> vstate \<Rightarrow> bool" for cfg dec where
  vrefl: "vsteps cfg dec s s"
| vtrans: "vstep cfg dec s s' \<Longrightarrow> vsteps cfg dec s' s'' \<Longrightarrow> vsteps cfg dec s s''"

lemma vsteps_reach: "vsteps cfg dec s s' \<Longrightarrow> vreach cfg dec s \<Longrightarrow> vreach cfg dec s'"
  by (induction rule: vsteps.induct) (auto intro: vreach.step)

lemma vsteps_single: "vstep cfg dec s s' \<Longrightarrow> vsteps cfg dec s s'"
  by (blast intro: vsteps.intros)

lemma vsteps_append: "vsteps cfg dec s s' \<Longrightarrow> vsteps cfg dec s' s'' \<Longrightarrow> vsteps cfg dec s s''"
  by (induction rule: vsteps.induct) (auto intro: vsteps.intros)

lemma expire_timers: "timers (ctl_expire c j s) = remove1 (c, j) (timers s)"
  and expire_execs: "execs (ctl_expire c j s) = execs s"
  by (auto simp: vs_ops Let_def split: option.splits)

lemma report_execs: "execs (exec_report c j job err s) = (c, j, job, True) # remove1 (c, j, job, False) (execs s)"
  and report_timers: "timers (exec_report c j job err s) = timers s"
  by (auto simp: vs_ops Let_def split: prod.splits)

lemma cleanup_execs: "execs (exec_cleanup c j job s) = remove1 (c, j, job, True) (execs s)"
  and cleanup_timers: "timers (exec_cleanup c j job s) = timers s"
  by (auto simp: vs_ops Let_def split: option.splits)

lemmas pending_simps = expire_timers expire_execs report_execs report_timers cleanup_execs cleanup_timers

lemma drain_timers: "\<exists>s'. vsteps cfg dec s s' \<and> timers s' = [] \<and> execs s' = execs s"
proof (induction "length (timers s)" arbitrary: s)
  case 0
  then show ?case by (auto intro: vrefl)
next
  case (Suc n)
  then obtain c j ts where ts: "timers s = (c, j) # ts" by (cases "timers s") auto
  have st: "vstep cfg dec s (ctl_expire c j s)" by (rule vstep.expire) (simp add: ts)
  have "n = length (timers (ctl_expire c j s))" using Suc(2) by (simp add: expire_timers ts)
  from Suc(1) [OF this] st show ?case
    by (auto simp: expire_execs intro: vtrans)
qed

text \<open>One goroutine of an execute connection, driven to its end.\<close>

lemma drain_exec:
  assumes "execs s = (c, j, job, b) # es"
  shows "\<exists>s'. vsteps cfg dec s s' \<and> execs s' = es \<and> timers s' = timers s"
proof -
  have clean: "\<exists>s'. vsteps cfg dec u s' \<and> execs s' = es \<and> timers s' = timers u"
    if "execs u = (c, j, job, True) # es" for u
    using that by (intro exI [of _ "exec_cleanup c j job u"])
      (auto simp: pending_simps intro!: vsteps_single vstep.cleanup)
  show ?thesis
  proof (cases b)
    case True
    with clean [of s] assms show ?thesis by simp
  next
    case False
    let ?u = "exec_report c j job None s"
    have "vstep cfg dec s ?u" by (rule vstep.report) (simp add: assms False)
    moreover have "execs ?u = (c, j, job, True) # es" "timers ?u = timers s"
      by (simp_all add: pending_simps assms False)
    ultimately show ?thesis using clean [of ?u] by (auto intro: vtrans)
  qed
qed

lemma drain_execs: "\<exists>s'. vsteps cfg dec s s' \<and> execs s' = [] \<and> timers s' = timers s"
proof (induction "length (execs s)" arbitrary: s)
  case 0
  then show ?case by (auto intro: vrefl)
next
  case (Suc n)
  then obtain c j job b es where es: "execs s = (c, j, job, b) # es"
    by (cases "execs s") auto
  then obtain u where u: "vsteps cfg dec s u" "execs u = es" "timers u = timers s"
    using drain_exec by blast
  with Suc(2) es have "n = length (execs u)" by simp
  from Suc(1) [OF this] u show ?case by (auto intro: vsteps_append)
qed

section \<open>The life of a job\<close>

text \<open>
  What the server promises for one identifier: it is drawn, waits, is started, reports its exit
  code and is gone; or it expires while it waits. Nothing else happens to it.
\<close>

datatype (plugins only: code size) phase = Absent | Waiting | Running | Reported | Gone

inductive phase_step :: "phase \<Rightarrow> phase \<Rightarrow> bool" where
  "phase_step Absent Waiting"
| "phase_step Waiting Running"
| "phase_step Waiting Gone"
| "phase_step Running Reported"
| "phase_step Reported Gone"

definition phase_of :: "vstate \<Rightarrow> jobid \<Rightarrow> phase" where
  "phase_of s j = (case jobs s j of
      None \<Rightarrow> if j \<in> set (drawn s) then Gone else Absent
    | Some job \<Rightarrow>
        if \<not> je_started job then Waiting
        else if list_ex (\<lambda>(c, j', job', b). j' = j \<and> b) (execs s) then Reported else Running)"

text \<open>
  As long as no identifier was drawn twice, the goroutines agree with the table, and no
  connection that is still in use has been closed.
\<close>

definition jobs_ok :: "vstate \<Rightarrow> bool" where
  "jobs_ok s \<longleftrightarrow>
     (\<forall>j job. jobs s j = Some job \<longrightarrow> j \<in> set (drawn s) \<and> je_ctrlConn job \<notin> set (closed s))"

definition timers_ok :: "vstate \<Rightarrow> bool" where
  "timers_ok s \<longleftrightarrow>
     (\<forall>c j. (c, j) \<in> set (timers s) \<longrightarrow> j \<in> set (drawn s) \<and> c < accepted s
        \<and> (\<forall>job. jobs s j = Some job \<longrightarrow> je_ctrlConn job = c))"

definition exec_ok :: "vstate \<Rightarrow> conn \<times> jobid \<times> jobExecution \<times> bool \<Rightarrow> bool" where
  "exec_ok s = (\<lambda>(c, j, job, b). jobs s j = Some job \<and> je_started job \<and> c < accepted s
     \<and> c \<notin> set (closed s) \<and> (\<forall>j' job'. jobs s j' = Some job' \<longrightarrow> je_ctrlConn job' \<noteq> c))"

definition execs_ok :: "vstate \<Rightarrow> bool" where
  "execs_ok s \<longleftrightarrow> (\<forall>x\<in>set (execs s). exec_ok s x)
     \<and> distinct (map (\<lambda>x. fst (snd x)) (execs s)) \<and> distinct (map fst (execs s))"

definition closed_ok :: "vstate \<Rightarrow> bool" where
  "closed_ok s \<longleftrightarrow> (\<forall>c\<in>set (closed s). c < accepted s) \<and> distinct (closed s)"

definition live_inv :: "vstate \<Rightarrow> bool" where
  "live_inv s \<longleftrightarrow> jobs_ok s \<and> timers_ok s \<and> execs_ok s \<and> closed_ok s"

lemmas live_defs = live_inv_def jobs_ok_def timers_ok_def closed_ok_def

lemma live_inv_init: "live_inv vinit"
  by (simp add: live_defs execs_ok_def vinit_def)

lemma drawn_suffix: "vstep cfg dec s s' \<Longrightarrow> distinct (drawn s') \<Longrightarrow> distinct (drawn s)"
  by (erule vstepE) (auto simp: vs_ops Let_def split: sum.splits option.splits if_splits prod.splits)

lemma distinct_map_remove1: "distinct (map f xs) \<Longrightarrow> distinct (map f (remove1 x xs))"
  by (induction xs) (auto dest: notin_set_remove1 set_remove1_subset [THEN subsetD])

lemma notin_map_remove1:
  assumes "distinct (map f xs)" and "x \<in> set xs" and "y \<in> set (remove1 x xs)"
  shows "f y \<noteq> f x"
proof -
  have "distinct xs" "inj_on f (set xs)" using assms(1) by (simp_all add: distinct_map)
  with assms show ?thesis by (auto simp: inj_on_def)
qed

lemma table_ctrl_less: "table_inv s \<Longrightarrow> jobs s j = Some job \<Longrightarrow> je_ctrlConn job < accepted s"
  by (simp add: table_inv_def)

lemma table_ctrl_inj:
  "table_inv s \<Longrightarrow> jobs s j = Some job \<Longrightarrow> jobs s j' = Some job' \<Longrightarrow>
     je_ctrlConn job = je_ctrlConn job' \<Longrightarrow> j = j'"
  unfolding table_inv_def by blast

text \<open>How the goroutines of execute connections fare when a job or a connection goes away.\<close>

lemma live_inv_closeNew:
  assumes "live_inv s" and "table_inv s"
  shows "live_inv (close_conn (accepted s) (accept s))"
proof -
  have "exec_ok (close_conn (accepted s) (accept s)) x" if "exec_ok s x" for x
    using that by (auto simp: exec_ok_def close_conn_def accept_def)
  moreover have "execs_ok s" using assms by (simp add: live_inv_def)
  ultimately have "execs_ok (close_conn (accepted s) (accept s))"
    by (simp add: execs_ok_def close_conn_def accept_def)
  with assms show ?thesis
    by (auto simp: live_defs close_conn_def accept_def less_SucI dest: table_ctrl_less)
qed

lemma live_inv_register:
  assumes inv: "live_inv s" "table_inv s" and fresh: "j \<notin> set (drawn s)"
    and job: "je_ctrlConn job = accepted s" "\<not> je_started job"
  shows "live_inv (s\<lparr>accepted := Suc (accepted s), jobs := (jobs s)(j \<mapsto> job),
     timers := (accepted s, j) # timers s, drawn := j # drawn s, written := w\<rparr>)" (is "live_inv ?u")
proof -
  have none: "jobs s j = None" using inv fresh by (cases "jobs s j") (auto simp: live_defs)
  have "exec_ok ?u x" if "exec_ok s x" for x
    using that none job by (auto simp: exec_ok_def)
  moreover have "execs_ok s" using inv by (simp add: live_inv_def)
  ultimately have "execs_ok ?u" by (simp add: execs_ok_def)
  moreover have "jobs_ok ?u" using inv job by (auto simp: live_defs)
  moreover have "timers_ok ?u" using inv job fresh by (auto simp: live_defs less_SucI)
  moreover have "closed_ok ?u" using inv by (auto simp: live_defs less_SucI)
  ultimately show ?thesis by (simp add: live_inv_def)
qed

lemma live_inv_launch:
  assumes inv: "live_inv s" "table_inv s" and e: "jobs s j = Some job" "\<not> je_started job"
  shows "live_inv (s\<lparr>accepted := Suc (accepted s), jobs := (jobs s)(j \<mapsto> job\<lparr>je_started := True\<rparr>),
     execs := (accepted s, j, job\<lparr>je_started := True\<rparr>, False) # execs s,
     launched := je_ctrlConn job # launched s\<rparr>)" (is "live_inv ?u")
proof -
  have ok: "exec_ok s x" if "x \<in> set (execs s)" for x
    using that inv by (simp add: live_inv_def execs_ok_def)
  have old: "exec_ok ?u x" if "exec_ok s x" for x
    using that e by (cases x) (auto simp: exec_ok_def)
  have ne: "fst x \<noteq> accepted s" "fst (snd x) \<noteq> j" if "exec_ok s x" for x
    using that e by (cases x, auto simp: exec_ok_def)+
  have new: "exec_ok ?u (accepted s, j, job\<lparr>je_started := True\<rparr>, False)"
    using inv e by (auto simp: exec_ok_def live_defs dest: table_ctrl_less)
  have "j \<notin> (\<lambda>x. fst (snd x)) ` set (execs s)" by (auto dest!: ok ne(2))
  moreover have "accepted s \<notin> fst ` set (execs s)" by (auto dest!: ok ne(1))
  moreover have "execs_ok s" using inv by (simp add: live_inv_def)
  ultimately have "execs_ok ?u" using ok old new by (simp add: execs_ok_def)
  moreover have "jobs_ok ?u" using inv e by (auto simp: live_defs)
  moreover have "timers_ok ?u" using inv e by (auto simp: live_defs less_SucI)
  moreover have "closed_ok ?u" using inv by (auto simp: live_defs less_SucI)
  ultimately show ?thesis by (simp add: live_inv_def)
qed

lemma execs_ok_removed:
  assumes ok: "execs_ok s" and x: "(c, j, z) \<in> set (execs s)"
  shows "y \<in> set (remove1 (c, j, z) (execs s)) \<Longrightarrow> exec_ok s y"
    and "y \<in> set (remove1 (c, j, z) (execs s)) \<Longrightarrow> fst y \<noteq> c"
    and "y \<in> set (remove1 (c, j, z) (execs s)) \<Longrightarrow> fst (snd y) \<noteq> j"
  using ok notin_map_remove1 [of fst "execs s" "(c, j, z)" y]
    notin_map_remove1 [of "\<lambda>x. fst (snd x)" "execs s" "(c, j, z)" y] x
  by (auto simp: execs_ok_def dest: set_remove1_subset [THEN subsetD])

lemma execs_ok_distinct:
  assumes "execs_ok s"
  shows "distinct (map (\<lambda>x. fst (snd x)) (remove1 x (execs s)))"
    and "distinct (map fst (remove1 x (execs s)))"
  using assms by (simp_all add: execs_ok_def distinct_map_remove1)

lemma live_inv_report:
  assumes inv: "live_inv s" and e: "(c, j, job, False) \<in> set (execs s)"
  shows "live_inv (s\<lparr>execs := (c, j, job, True) # remove1 (c, j, job, False) (execs s), written := w\<rparr>)"
    (is "live_inv ?u")
proof -
  have ok: "execs_ok s" using inv by (simp add: live_inv_def)
  note rem = execs_ok_removed [OF ok e] and dist = execs_ok_distinct [OF ok, of "(c, j, job, False)"]
  have same: "exec_ok ?u x = exec_ok s x" for x by (simp add: exec_ok_def)
  have "exec_ok s (c, j, job, False)" using ok e by (simp add: execs_ok_def)
  then have "exec_ok s (c, j, job, True)" by (simp add: exec_ok_def)
  moreover have "j \<notin> (\<lambda>x. fst (snd x)) ` set (remove1 (c, j, job, False) (execs s))"
    by (auto dest!: rem(3))
  moreover have "c \<notin> fst ` set (remove1 (c, j, job, False) (execs s))" by (auto dest!: rem(2))
  ultimately have "execs_ok ?u" using rem dist by (simp add: execs_ok_def same)
  with inv show ?thesis by (auto simp: live_defs)
qed

lemma live_inv_cleanup:
  assumes inv: "live_inv s" "table_inv s" and e: "(c, j, job, True) \<in> set (execs s)"
  shows "live_inv (s\<lparr>execs := remove1 (c, j, job, True) (execs s), jobs := (jobs s)(j := None),
     closed := c # je_ctrlConn job # closed s\<rparr>)" (is "live_inv ?u")
proof -
  have ok: "execs_ok s" using inv by (simp add: live_inv_def)
  note rem = execs_ok_removed [OF ok e] and dist = execs_ok_distinct [OF ok, of "(c, j, job, True)"]
  have this_ok: "exec_ok s (c, j, job, True)" using ok e by (simp add: execs_ok_def)
  have "exec_ok ?u y" if "y \<in> set (remove1 (c, j, job, True) (execs s))" for y
    using rem [OF that] this_ok by (cases y) (simp add: exec_ok_def, metis)
  then have "execs_ok ?u" using dist by (simp add: execs_ok_def)
  moreover have "jobs_ok ?u" using inv this_ok by (auto simp: live_defs exec_ok_def dest: table_ctrl_inj)
  moreover have "timers_ok ?u" using inv by (auto simp: live_defs)
  moreover have "closed_ok ?u" using inv this_ok by (auto simp: live_defs exec_ok_def dest: table_ctrl_less)
  ultimately show ?thesis by (simp add: live_inv_def)
qed

lemma live_inv_expire:
  assumes inv: "live_inv s" "table_inv s" and e: "(c, j) \<in> set (timers s)"
    and w: "jobs s j = Some job" "\<not> je_started job"
  shows "live_inv (s\<lparr>timers := remove1 (c, j) (timers s), jobs := (jobs s)(j := None),
     closed := c # closed s\<rparr>)" (is "live_inv ?u")
proof -
  have cj: "je_ctrlConn job = c" and ok: "execs_ok s" and co: "c \<notin> set (closed s)"
    using inv e w by (simp_all add: live_defs) metis
  have "exec_ok ?u y" if "y \<in> set (execs s)" for y
  proof -
    have "exec_ok s y" using ok that by (simp add: execs_ok_def)
    then show ?thesis using w cj by (cases y) (auto simp: exec_ok_def)
  qed
  then have "execs_ok ?u" using ok by (simp add: execs_ok_def)
  moreover have "jobs_ok ?u" using inv w cj by (auto simp: live_defs dest: table_ctrl_inj)
  moreover have "timers_ok ?u" using inv by (auto simp: live_defs dest: set_remove1_subset [THEN subsetD])
  moreover have "closed_ok ?u" using inv e co by (simp add: live_defs)
  ultimately show ?thesis by (simp add: live_inv_def)
qed

lemma live_inv_fewer_timers:
  "live_inv s \<Longrightarrow> live_inv (s\<lparr>timers := remove1 x (timers s)\<rparr>)"
  by (auto simp: live_defs execs_ok_def exec_ok_def dest: set_remove1_subset [THEN subsetD])

lemma live_inv_accept: "live_inv s \<Longrightarrow> live_inv (accept s)"
proof -
  assume inv: "live_inv s"
  have "exec_ok (accept s) x" if "exec_ok s x" for x
    using that by (cases x) (simp add: exec_ok_def accept_def)
  then have "execs_ok (accept s)" using inv by (simp add: live_inv_def execs_ok_def) (simp add: accept_def)
  with inv show ?thesis by (auto simp: live_defs accept_def less_SucI)
qed

lemma live_inv_expire_step:
  assumes "live_inv s" and "table_inv s" and "(c, j) \<in> set (timers s)"
  shows "live_inv (ctl_expire c j s)"
proof (cases "\<exists>job. jobs s j = Some job \<and> \<not> je_started job")
  case True
  then obtain job where "jobs s j = Some job" "\<not> je_started job" by blast
  with live_inv_expire [OF assms this] show ?thesis by (simp add: ctl_expire_def close_conn_def Let_def)
next
  case False
  with live_inv_fewer_timers [OF assms(1)] show ?thesis
    by (auto simp: ctl_expire_def Let_def split: option.splits)
qed

lemma live_inv_control_step:
  assumes "live_inv s" and "table_inv s"
    and "distinct (drawn (ctl_register cfg dec (accepted s) buf rnd (accept s)))"
  shows "live_inv (ctl_register cfg dec (accepted s) buf rnd (accept s))"
proof (cases "\<exists>jr j. 2 \<le> length buf \<and> DecodeJobRequest dec buf = Inr jr \<and> rnd = Some j")
  case True
  then obtain jr j where c: "2 \<le> length buf" "DecodeJobRequest dec buf = Inr jr" "rnd = Some j" by blast
  with assms(3) have "j \<notin> set (drawn s)" by (auto simp: ctl_register_def accept_def)
  with c live_inv_register [OF assms(1,2), of j "mkJob cfg (accepted s) jr"] show ?thesis
    by (simp add: ctl_register_def accept_def mkJob_def)
next
  case False
  then have "ctl_register cfg dec (accepted s) buf rnd (accept s) = close_conn (accepted s) (accept s)"
    by (auto simp: ctl_register_def split: sum.splits option.splits)
  then show ?thesis using live_inv_closeNew assms by simp
qed

lemma live_inv_execute_step:
  assumes "live_inv s" and "table_inv s"
  shows "live_inv (exec_begin (accepted s) buf (accept s))"
proof (cases "\<exists>job. jobs s (copyId buf) = Some job \<and> \<not> je_started job")
  case True
  then obtain job where "jobs s (copyId buf) = Some job" "\<not> je_started job" by blast
  with live_inv_launch [OF assms this] show ?thesis by (simp add: exec_begin_def accept_def Let_def)
next
  case False
  then have "exec_begin (accepted s) buf (accept s) = close_conn (accepted s) (accept s)"
    by (auto simp: exec_begin_def Let_def accept_def split: option.splits)
  then show ?thesis using live_inv_closeNew assms by simp
qed

lemma live_inv_cleanup_step:
  assumes "live_inv s" and "table_inv s" and "(c, j, job, True) \<in> set (execs s)"
  shows "live_inv (exec_cleanup c j job s)"
proof -
  have "jobs s j = Some job" using assms(1,3) by (auto simp: live_inv_def execs_ok_def exec_ok_def)
  with live_inv_cleanup [OF assms] show ?thesis by (simp add: exec_cleanup_def close_conn_def Let_def)
qed

lemma live_inv_step:
  assumes "vstep cfg dec s s'" and "live_inv s" and "table_inv s" and "distinct (drawn s')"
  shows "live_inv s'"
  using assms(1)
proof cases
  case (rejected ci)
  with assms live_inv_closeNew show ?thesis by simp
next
  case (control ci buf rnd)
  with assms live_inv_control_step show ?thesis by simp
next
  case (expire c jid)
  with assms live_inv_expire_step show ?thesis by simp
next
  case (execute ci buf)
  with assms live_inv_execute_step show ?thesis by simp
next
  case (report c jid job err)
  with assms live_inv_report [of s c jid job] show ?thesis
    by (simp add: exec_report_def Let_def split: prod.splits)
next
  case (cleanup c jid job)
  with assms live_inv_cleanup_step show ?thesis by simp
qed

lemma live_inv_reach: "vreach cfg dec s \<Longrightarrow> distinct (drawn s) \<Longrightarrow> live_inv s"
proof (induction rule: vreach.induct)
  case start
  show ?case by (rule live_inv_init)
next
  case (step s s')
  then show ?case using live_inv_step table_inv_reach drawn_suffix by blast
qed

lemma remove1_other_iff: "y \<noteq> x \<Longrightarrow> y \<in> set (remove1 x xs) \<longleftrightarrow> y \<in> set xs"
  by (induction xs) auto

text \<open>Whether a goroutine has reported the exit code of a job.\<close>

definition reported :: "vstate \<Rightarrow> jobid \<Rightarrow> bool" where
  "reported s j \<longleftrightarrow> (\<exists>c job. (c, j, job, True) \<in> set (execs s))"

lemma phase_of_alt:
  "phase_of s j = (case jobs s j of
      None \<Rightarrow> if j \<in> set (drawn s) then Gone else Absent
    | Some job \<Rightarrow> if \<not> je_started job then Waiting else if reported s j then Reported else Running)"
proof -
  have "list_ex (\<lambda>(c, j', job', b). j' = j \<and> b) (execs s) \<longleftrightarrow> reported s j"
    by (auto simp: list_ex_iff reported_def) (metis (no_types, lifting) case_prod_conv)
  then show ?thesis by (simp add: phase_of_def)
qed

lemma exec_unique:
  assumes "execs_ok s" and "(c, j, job, b) \<in> set (execs s)" and "(c', j, job', b') \<in> set (execs s)"
  shows "b = b'"
proof -
  have "inj_on (\<lambda>x. fst (snd x)) (set (execs s))"
    using assms(1) by (simp add: execs_ok_def distinct_map)
  from inj_onD [OF this _ assms(2,3)] show ?thesis by simp
qed

lemma phase_close: "phase_of (close_conn c (accept s)) j = phase_of s j"
proof -
  have "reported (close_conn c (accept s)) j = reported s j"
    by (simp add: reported_def close_conn_def accept_def)
  then show ?thesis by (simp add: phase_of_alt) (simp add: close_conn_def accept_def)
qed

lemma phase_register:
  assumes "live_inv s" and d: "distinct (drawn (ctl_register cfg dec (accepted s) buf rnd (accept s)))"
  shows "phase_of (ctl_register cfg dec (accepted s) buf rnd (accept s)) j = phase_of s j
    \<or> phase_step (phase_of s j) (phase_of (ctl_register cfg dec (accepted s) buf rnd (accept s)) j)"
proof (cases "\<exists>jr i. 2 \<le> length buf \<and> DecodeJobRequest dec buf = Inr jr \<and> rnd = Some i")
  case True
  then obtain jr i where c: "2 \<le> length buf" "DecodeJobRequest dec buf = Inr jr" "rnd = Some i" by blast
  let ?u = "ctl_register cfg dec (accepted s) buf rnd (accept s)"
  have u: "reported ?u j \<longleftrightarrow> reported s j" "drawn ?u = i # drawn s"
    "jobs ?u = (jobs s)(i \<mapsto> mkJob cfg (accepted s) jr)"
    using c by (simp_all add: ctl_register_def accept_def reported_def)
  then have fresh: "i \<notin> set (drawn s)" using d by simp
  then have "jobs s i = None" using assms(1) by (cases "jobs s i") (auto simp: live_defs)
  with u fresh show ?thesis
    by (cases "j = i") (simp_all add: phase_of_alt phase_step.intros mkJob_def)
next
  case False
  then have "ctl_register cfg dec (accepted s) buf rnd (accept s) = close_conn (accepted s) (accept s)"
    by (auto simp: ctl_register_def split: sum.splits option.splits)
  then show ?thesis by (simp add: phase_close)
qed

lemma phase_expire:
  assumes "live_inv s" and "(c, i) \<in> set (timers s)"
  shows "phase_of (ctl_expire c i s) j = phase_of s j
    \<or> phase_step (phase_of s j) (phase_of (ctl_expire c i s) j)"
proof -
  have "i \<in> set (drawn s)" using assms by (auto simp: live_defs)
  moreover have "reported (ctl_expire c i s) j = reported s j" by (simp add: reported_def expire_execs)
  ultimately show ?thesis
    by (simp add: phase_of_alt)
      (auto simp: ctl_expire_def close_conn_def Let_def split: option.splits intro: phase_step.intros)
qed

lemma phase_execute:
  assumes "live_inv s"
  shows "phase_of (exec_begin (accepted s) buf (accept s)) j = phase_of s j
    \<or> phase_step (phase_of s j) (phase_of (exec_begin (accepted s) buf (accept s)) j)"
proof (cases "\<exists>job. jobs s (copyId buf) = Some job \<and> \<not> je_started job")
  case True
  then obtain job where job: "jobs s (copyId buf) = Some job" "\<not> je_started job" by blast
  let ?u = "exec_begin (accepted s) buf (accept s)"
  have "\<not> reported s (copyId buf)"
    using assms job by (auto simp: live_inv_def execs_ok_def exec_ok_def reported_def)
  moreover have "reported ?u j \<longleftrightarrow> reported s j" "drawn ?u = drawn s"
    "jobs ?u = (jobs s)(copyId buf \<mapsto> job\<lparr>je_started := True\<rparr>)"
    using job by (simp_all add: exec_begin_def accept_def Let_def reported_def)
  ultimately show ?thesis
    using job by (cases "j = copyId buf") (simp_all add: phase_of_alt phase_step.intros)
next
  case False
  then have "exec_begin (accepted s) buf (accept s) = close_conn (accepted s) (accept s)"
    by (auto simp: exec_begin_def Let_def accept_def split: option.splits)
  then show ?thesis by (simp add: phase_close)
qed

lemma phase_report:
  assumes "live_inv s" and e: "(c, i, job, False) \<in> set (execs s)"
  shows "phase_of (exec_report c i job err s) j = phase_of s j
    \<or> phase_step (phase_of s j) (phase_of (exec_report c i job err s) j)"
proof -
  have ok: "execs_ok s" using assms(1) by (simp add: live_inv_def)
  have ji: "jobs s i = Some job" "je_started job"
    using ok e by (auto simp: execs_ok_def exec_ok_def)
  have "\<not> reported s i" using exec_unique [OF ok e] by (auto simp: reported_def)
  then have i: "phase_of s i = Running" using ji by (simp add: phase_of_alt)
  have rep: "reported (exec_report c i job err s) k \<longleftrightarrow> k = i \<or> reported s k" for k
    by (auto simp: reported_def report_execs remove1_other_iff)
  have same: "jobs (exec_report c i job err s) = jobs s" "drawn (exec_report c i job err s) = drawn s"
    by (simp_all add: exec_report_def Let_def split: prod.splits)
  show ?thesis
  proof (cases "j = i")
    case True
    with ji i rep same show ?thesis by (simp add: phase_of_alt phase_step.intros)
  next
    case False
    with rep same show ?thesis by (simp add: phase_of_alt)
  qed
qed

lemma phase_cleanup:
  assumes "live_inv s" and e: "(c, i, job, True) \<in> set (execs s)"
  shows "phase_of (exec_cleanup c i job s) j = phase_of s j
    \<or> phase_step (phase_of s j) (phase_of (exec_cleanup c i job s) j)"
proof -
  have ji: "jobs s i = Some job" "je_started job" "i \<in> set (drawn s)"
    using assms by (auto simp: live_defs execs_ok_def exec_ok_def)
  have i: "phase_of s i = Reported" using ji e by (auto simp: phase_of_alt reported_def)
  have rep: "reported (exec_cleanup c i job s) j \<longleftrightarrow> reported s j" if "j \<noteq> i"
    using that by (auto simp: reported_def cleanup_execs remove1_other_iff)
  have same: "jobs (exec_cleanup c i job s) = (jobs s)(i := None)" "drawn (exec_cleanup c i job s) = drawn s"
    using ji by (simp_all add: exec_cleanup_def close_conn_def Let_def)
  show ?thesis
    using i ji rep same by (cases "j = i") (simp_all add: phase_of_alt phase_step.intros)
qed

lemma vstep_phase:
  assumes "vstep cfg dec s s'" and "live_inv s" and "distinct (drawn s')"
  shows "phase_of s' j = phase_of s j \<or> phase_step (phase_of s j) (phase_of s' j)"
  using assms
  by cases (auto simp: phase_close phase_register phase_expire phase_execute phase_report phase_cleanup)

section \<open>A concrete run\<close>

text \<open>One job is requested, started and ends with exit code 42.\<close>

definition demo_cfg :: vconfig where
  "demo_cfg = \<lparr>entrypointPid = ''7'', entrypointEnv = [''PATH=/bin'']\<rparr>"

definition demo_dec :: "jobRequest gobdec" where
  "demo_dec bs = Some \<lparr>jr_Args = [''ls''], jr_Env = [], jr_WithStdin = False, jr_WithTTY = False\<rparr>"

definition demo_conn :: "byte list \<Rightarrow> conninfo" where
  "demo_conn bs = \<lparr>ci_tls = True, ci_handshake = True, ci_addr = Some 2, ci_read = Some bs\<rparr>"

definition demo_s1 :: vstate where
  "demo_s1 = ctl_register demo_cfg demo_dec 0 [9, 9] (Some [1, 2, 3, 4]) (accept vinit)"

definition demo_s2 :: vstate where
  "demo_s2 = exec_begin 1 [1, 2, 3, 4] (accept demo_s1)"

lemma demo_step1: "vstep demo_cfg demo_dec vinit demo_s1"
proof -
  have "handleConnection (demo_conn [0, 9, 9]) = Control [9, 9]"
    by (simp add: handleConnection_def demo_conn_def TypeControlConn_def)
  from vstep.control [OF this, of "Some [1, 2, 3, 4]" demo_cfg demo_dec vinit] show ?thesis
    by (simp add: demo_s1_def vinit_def)
qed

lemma demo_step2: "vstep demo_cfg demo_dec demo_s1 demo_s2"
proof -
  have "handleConnection (demo_conn [1, 1, 2, 3, 4]) = Execute [1, 2, 3, 4]"
    by (simp add: handleConnection_def demo_conn_def TypeControlConn_def TypeExecuteConn_def)
  from vstep.execute [OF this, of demo_cfg demo_dec demo_s1] show ?thesis
    by (simp add: demo_s2_def demo_s1_def ctl_register_def demo_dec_def DecodeJobRequest_def accept_def vinit_def)
qed

lemma demo_reach1: "vreach demo_cfg demo_dec demo_s1"
  by (rule vreach.step [OF vreach.start demo_step1])

lemma demo_reach2: "vreach demo_cfg demo_dec demo_s2"
  by (rule vreach.step [OF demo_reach1 demo_step2])

lemmas demo_simps = demo_s2_def demo_s1_def ctl_register_def demo_dec_def DecodeJobRequest_def
  accept_def vinit_def exec_begin_def copyId_def Let_def mkJob_def

section \<open>Properties\<close>

text \<open>
  C1: However the connections interleave, and even if an identifier is drawn twice, the command of
  a job request is started at most once: no control connection occurs twice among the launched.
\<close>

theorem job_started_at_most_once:
  assumes "vreach cfg dec s"
  shows "distinct (launched s)"
  using table_inv_reach [OF assms] by (simp add: table_inv_def)

theorem job_started_at_most_once_witness: "launched demo_s2 = [0] \<and> distinct (launched demo_s2)"
  using job_started_at_most_once [OF demo_reach2] by (simp add: demo_simps)


text \<open>
  C12: As long as no identifier is drawn twice, every step of the server moves each job along its
  life: absent, waiting, running, reported, gone, with expiry as the only shortcut. In particular
  a job that is gone never comes back, and one that runs is never removed before it reported.
\<close>

theorem job_lifecycle_refines:
  assumes "vreach cfg dec s" and "vstep cfg dec s s'" and "distinct (drawn s')"
  shows "phase_of s' j = phase_of s j \<or> phase_step (phase_of s j) (phase_of s' j)"
  using vstep_phase [OF assms(2)] live_inv_reach [OF assms(1)] drawn_suffix [OF assms(2,3)] assms(3)
  by blast

theorem job_lifecycle_refines_witness:
  "phase_of demo_s1 [1, 2, 3, 4] = Waiting \<and> phase_of demo_s2 [1, 2, 3, 4] = Running
   \<and> phase_step (phase_of demo_s1 [1, 2, 3, 4]) (phase_of demo_s2 [1, 2, 3, 4])"
proof -
  have "phase_of demo_s1 [1, 2, 3, 4] = Waiting" "phase_of demo_s2 [1, 2, 3, 4] = Running"
    "distinct (drawn demo_s2)"
    by (simp_all add: phase_of_def demo_simps)
  with job_lifecycle_refines [OF demo_reach1 demo_step2, of "[1, 2, 3, 4]"] show ?thesis by simp
qed

text \<open>
  C13: As long as no identifier is drawn twice, no connection is closed twice, and the connections
  of a job in the table and of a running command are open.
\<close>

theorem connections_closed_once:
  assumes "vreach cfg dec s" and "distinct (drawn s)"
  shows "distinct (closed s)
    \<and> (\<forall>j job. jobs s j = Some job \<longrightarrow> je_ctrlConn job \<notin> set (closed s))
    \<and> (\<forall>c j job b. (c, j, job, b) \<in> set (execs s) \<longrightarrow> c \<notin> set (closed s))"
  using live_inv_reach [OF assms] by (auto simp: live_defs execs_ok_def exec_ok_def)

theorem connections_closed_once_witness:
  "distinct (closed demo_s2) \<and> 0 \<notin> set (closed demo_s2)"
  using connections_closed_once [OF demo_reach2] by (simp add: demo_simps)

text \<open>
  C14: No job is ever stuck in the table: from every reachable state the goroutines that are already
  there can run to their end, and the table is then empty.
\<close>

theorem jobs_drain:
  assumes "vreach cfg dec s"
  shows "\<exists>s'. vsteps cfg dec s s' \<and> jobs s' = (\<lambda>_. None) \<and> timers s' = [] \<and> execs s' = []"
proof -
  obtain u where u: "vsteps cfg dec s u" "timers u = []" using drain_timers by blast
  obtain v where v: "vsteps cfg dec u v" "execs v = []" "timers v = []" using drain_execs u by metis
  have sv: "vsteps cfg dec s v" using u v vsteps_append by blast
  then have "owned v" using vsteps_reach owned_reach assms by blast
  with v have "jobs v j = None" for j by (cases "jobs v j") (auto simp: owned_def split: if_splits)
  with sv v show ?thesis by blast
qed

theorem jobs_drain_witness:
  "jobs demo_s2 [1, 2, 3, 4] \<noteq> None \<and> (\<exists>s'. vsteps demo_cfg demo_dec demo_s2 s' \<and> jobs s' = (\<lambda>_. None))"
  using jobs_drain [OF demo_reach2] by (auto simp: demo_simps)


end
