(* ===== verification/Loopback.thy ===== *)
theory Loopback
  imports Util
begin

text \<open>
  \<^verbatim>\<open>internal/loopback/loopback.go\<close>: loop devices for disk images. A device is known by its
  path; the file that it keeps open between \<^verbatim>\<open>Attach\<close> and \<^verbatim>\<open>Detach\<close> is the path.
\<close>

definition loopPath :: "int \<Rightarrow> string" where
  "loopPath nr = ''/dev/loop'' @ Itoa nr"

definition loopback_New :: "string io" where
  "loopback_New =
     thn (os_OpenFile ''/dev/loop-control'')
       (deferring
         (bnd (mapErr (ErrorfE ''Get next free loop device file: %v'' [])
                (ask (\<lambda>K t. k_int K t (Proc LoopGetFree)) SysErrno (Proc LoopGetFree))) (\<lambda>nr.
          bnd (attempt (os_Stat (loopPath nr))) (\<lambda>st.
          thn (case st of
                 Inl _ \<Rightarrow> mapErr (ErrorfE ''create %q failed: %v'' [loopPath nr])
                   (Mknod (loopPath nr) ''b'' (int mode0600) 7 nr)
               | Inr _ \<Rightarrow> ret ())
            (ret (loopPath nr)))))
         (call SysErrno (Proc (CloseFd ''/dev/loop-control''))))"

definition loopback_Attach :: "string \<Rightarrow> string \<Rightarrow> unit io" where
  "loopback_Attach name file =
     thn (os_OpenFile name)
       (mapErr (ErrorfE ''Attach file to %q failed: %v'' [name])
         (call SysErrno (Proc (LoopSetFd name file))))"

definition loopback_Detach :: "string \<Rightarrow> unit io" where
  "loopback_Detach name =
     deferring (mapErr (ErrorfE ''Detach file from %q failed: %v'' [name])
         (call SysErrno (Proc (LoopClrFd name))))
       (call SysErrno (Proc (CloseFd name)))"

end
