(* ===== verification/Proxy_Disk.thy ===== *)
theory Proxy_Disk
  imports Loopback Bracket
begin

text \<open>
  \<^verbatim>\<open>cmd/proxy/disk.go\<close>: block devices and disk images of a container. The proxy checks
  them, derives their settings from their paths, and fills a root disk.
\<close>

section \<open>Disk types\<close>

definition qcowMagic :: string where
  "qcowMagic = [CHR 0x51, CHR 0x46, CHR 0x49, CHR 0xFB]"

definition disktype :: "string \<Rightarrow> disktype io" where
  "disktype path =
     bnd (mapErr WithStack (os_Stat path)) (\<lambda>st.
       if fi_kind st = FDevice then ret BlockDevice
       else if fi_kind st \<noteq> FRegular then ret DisktypeUnknown
       else if fi_size st < 4 then ret RawFile
       else bnd (os_Open path) (\<lambda>(content, rderr).
         deferring
           (if length content < 4
            then fail (case rderr of Some n \<Rightarrow> PathError ''read'' path n
                                   | None \<Rightarrow> Errorf ''unexpected EOF'' [])
            else ret (if take 4 content = qcowMagic then Qcow2Image else RawFile))
           (call SysErrno (Proc (CloseFd path)))))"

section \<open>Settings in the path of a disk\<close>

text \<open>The regular expression \<^verbatim>\<open>^[a-zA-Z0-9-_]{1,36}$\<close>.\<close>

definition reDiskID :: "string \<Rightarrow> bool" where
  "reDiskID s \<longleftrightarrow> 1 \<le> length s \<and> length s \<le> 36 \<and>
     list_all (\<lambda>c. isAlnum c \<or> c = CHR ''-'' \<or> c = CHR ''_'') s"

definition cacheTypes :: "string list" where
  "cacheTypes = [''none'', ''writeback'', ''writethrough'', ''unsafe'']"

definition diskFilesystems :: "string list" where
  "diskFilesystems = [[], ''ext2'', ''ext3'', ''ext4'', ''xfs'', ''btrfs'']"

text \<open>\<^verbatim>\<open>/dev/runq/<id>/<cache>[/<filesystem>/<mountpoint>]\<close>, filled up to six fields.\<close>

definition diskFields :: "string \<Rightarrow> string list" where
  "diskFields path = SplitN (CHR ''/'') 6 (TrimLeft path ''/ '')"

definition padFields :: "string list \<Rightarrow> string list" where
  "padFields f = f @ replicate (6 - length f) []"

text \<open>One round of the loop; \<open>ids\<close> are the IDs seen before.\<close>

definition updateDisk :: "string list \<Rightarrow> disk \<Rightarrow> disk io" where
  "updateDisk ids d =
     (let f0 = diskFields (disk_Path d); f = padFields f0
      in if length f0 < 4 then fail (Errorf ''invalid disk: %s'' [disk_Path d])
         else if \<not> reDiskID (f ! 2) then fail (Errorf ''invalid disk ID '%s' '' [f ! 2])
         else if f ! 2 \<in> set ids then fail (Errorf ''duplicate disk ID: '%s' '' [f ! 2])
         else if f ! 3 \<notin> set cacheTypes then fail (Errorf ''invalid cache type for %s'' [disk_Path d])
         else if f ! 4 \<notin> set diskFilesystems then fail (Errorf ''unsupported filesystem '%s' in %s'' [f ! 4, disk_Path d])
         else let d1 = d\<lparr>disk_ID := f ! 2, disk_Cache := f ! 3, disk_Fstype := f ! 4\<rparr>;
                  d2 = (if f ! 5 \<noteq> [] then d1\<lparr>disk_Dir := CHR ''/'' # f ! 5\<rparr> else d1);
                  d3 = (if disk_Fstype d2 \<noteq> [] \<and> disk_Dir d2 \<noteq> [] then d2\<lparr>disk_Mount := True\<rparr> else d2)
              in bnd (if disk_Type d3 = DisktypeUnknown
                      then bnd (mapErr (ErrorfE ''%s: detect disktype failed: %v'' [disk_Path d]) (disktype (disk_Path d3)))
                             (\<lambda>dt. if dt = DisktypeUnknown then fail (Errorf ''%s: unknown disktype'' [disk_Path d])
                                   else ret (d3\<lparr>disk_Type := dt\<rparr>))
                      else ret d3) (\<lambda>d4.
                 if disk_Type d4 = DisktypeUnknown then fail (Errorf ''%s: unknown disktype'' [disk_Path d])
                 else bnd (RandStr 12) (\<lambda>serial. ret (d4\<lparr>disk_Serial := serial\<rparr>))))"

fun updateLoop :: "string list \<Rightarrow> disk list \<Rightarrow> disk list io" where
  "updateLoop ids [] = ret []"
| "updateLoop ids (d # ds) =
     bnd (updateDisk ids d) (\<lambda>d'. bnd (updateLoop (disk_ID d' # ids) ds) (\<lambda>ds'. ret (d' # ds')))"

definition updateDisks :: "disk list \<Rightarrow> disk list io" where
  "updateDisks disks = updateLoop [] disks"

section \<open>The root disk\<close>

definition rootdiskDest :: string where "rootdiskDest = ''/dev/rootdisk''"

definition dirIsEmpty :: "string \<Rightarrow> bool io" where
  "dirIsEmpty name =
     thn (os_OpenFile name)
       (deferring
         (bnd (ask (\<lambda>K t. k_strs K t (Fs (Readdirnames name))) (PathError ''readdirent'' name) (Fs (Readdirnames name))) (\<lambda>names.
          let dirs = take 2 names
          in if dirs = [] then ret True else ret (list_all (\<lambda>d. d = ''lost+found'') dirs)))
         (call SysErrno (Proc (CloseFd name))))"

definition rootdiskExcludes :: "vmdata \<Rightarrow> string list" where
  "rootdiskExcludes v =
     [''/dev'', ''/lib/modules'', ''/lost+found'', ''/proc'', ''/qemu'', ''/sys''] @ vm_RootdiskExclude v"

definition rsyncArgs :: "string list \<Rightarrow> bool \<Rightarrow> string list" where
  "rsyncArgs excl isEmpty =
     [''/usr/bin/rsync'', ''-aRH'']
     @ (if isEmpty then concat (map (\<lambda>d. [''--exclude'', d]) excl) @ [''./'']
        else [''./etc/hosts'', ''./etc/hostname'', ''./etc/resolv.conf''])
     @ [rootdiskDest]"

definition e2fsck :: "string \<Rightarrow> unit io" where
  "e2fsck path =
     bnd (exec_CombinedOutput [''/sbin/e2fsck'', ''-pv'', path]) (\<lambda>(out, err).
       case err of
         None \<Rightarrow> ret ()
       | Some e \<Rightarrow>
           (let rc = fst (ErrorToRc (Some e))
            in thn (whn (0 < rc) (log_Print out))
                 (whn (1 < rc) (fail (ErrorfE ''e2fsck failed: %v'' [] e)))))"

text \<open>Unmounting at the end; both errors are dropped, the first one is logged.\<close>

definition umountRootdisk :: "unit io" where
  "umountRootdisk =
     thn (bnd (attempt (unix_Unmount rootdiskDest MNT_DETACH)) (\<lambda>r. case r of
            Inl e \<Rightarrow> log_Print ''umount rootdisk failed: %v'' | Inr _ \<Rightarrow> ret ()))
       (ignore (os_Remove rootdiskDest))"

text \<open>From the mounted root disk on.\<close>

definition fillRootdisk :: "string list \<Rightarrow> unit io" where
  "fillRootdisk excl =
     deferring
       (bnd (dirIsEmpty rootdiskDest) (\<lambda>diskIsEmpty.
        thn (mapErr (ErrorfE ''chdir to %s failed: %v '' [''/rootfs'']) (os_Chdir ''/rootfs''))
          (deferring
            (bnd (exec_CombinedOutput (rsyncArgs excl diskIsEmpty)) (\<lambda>(out, err).
             thn (case err of
                    None \<Rightarrow> ret ()
                  | Some e \<Rightarrow>
                      (let rc = fst (ErrorToRc (Some e))
                       in whn (0 < rc) (thn (log_Print out)
                            (fail (ErrorfE ''rsync failed: %v rc=%d %s'' [Itoa (uint rc)] e)))))
               (os_MkdirAll ''/lib/modules'' mode0755)))
            (os_Chdir ''/''))))
       umountRootdisk"

definition prepareRootdisk :: "vmdata \<Rightarrow> unit io" where
  "prepareRootdisk v =
     (case find (\<lambda>d. disk_ID d = vm_Rootdisk v) (vm_Disks v) of
        None \<Rightarrow> fail (Errorf ''rootdisk %q not found'' [vm_Rootdisk v])
      | Some disk \<Rightarrow>
          bnd (disktype (disk_Path disk)) (\<lambda>dtype.
            if dtype \<noteq> BlockDevice \<and> dtype \<noteq> RawFile
            then fail (Errorf ''rootdisk %s: unsupported disktype'' [disk_Path disk])
            else if disk_Fstype disk \<noteq> ''ext2'' \<and> disk_Fstype disk \<noteq> ''ext4''
            then fail (Errorf ''rootdisk: fstype %q is not supported, use ext2 or ext4'' [disk_Fstype disk])
            else thn (e2fsck (disk_Path disk))
              (thn (os_Mkdir rootdiskDest mode0700)
              (if dtype = RawFile
               then bnd loopback_New (\<lambda>loop.
                 thn (os_OpenFile (disk_Path disk))
                   (deferring
                     (thn (loopback_Attach loop (disk_Path disk))
                       (deferring
                         (thn (mapErr (ErrorfE ''mount loopback failed: %v'' [])
                                (unix_Mount loop rootdiskDest (disk_Fstype disk) 0 []))
                           (fillRootdisk (rootdiskExcludes v)))
                         (loopback_Detach loop)))
                     (call SysErrno (Proc (CloseFd (disk_Path disk))))))
               else thn (mapErr (ErrorfE ''mount rootdisk failed: %v'' [])
                           (unix_Mount (disk_Path disk) rootdiskDest (disk_Fstype disk) 0 []))
                      (fillRootdisk (rootdiskExcludes v))))))"

section \<open>Facts\<close>

lemma SplitN_step:
  "c \<notin> set x \<Longrightarrow> SplitN c (Suc (Suc n)) (x @ c # r) = x # SplitN c (Suc n) r"
proof -
  assume "c \<notin> set x"
  then have "dropWhile (\<lambda>y. y \<noteq> c) (x @ c # r) = c # r" "takeWhile (\<lambda>y. y \<noteq> c) (x @ c # r) = x"
    by (induction x) auto
  then show ?thesis by simp
qed

lemma padFields_length: "length f \<le> 6 \<Longrightarrow> length (padFields f) = 6"
  by (simp add: padFields_def)

text \<open>What one disk looks like after a successful round.\<close>

definition disk_ok :: "disk \<Rightarrow> disk \<Rightarrow> bool" where
  "disk_ok d d' \<longleftrightarrow>
     (let f = padFields (diskFields (disk_Path d))
      in 4 \<le> length (diskFields (disk_Path d)) \<and> reDiskID (f ! 2) \<and> f ! 3 \<in> set cacheTypes
       \<and> f ! 4 \<in> set diskFilesystems \<and> disk_Path d' = disk_Path d
       \<and> disk_ID d' = f ! 2 \<and> disk_Cache d' = f ! 3 \<and> disk_Fstype d' = f ! 4
       \<and> disk_Dir d' = (if f ! 5 \<noteq> [] then CHR ''/'' # f ! 5 else disk_Dir d)
       \<and> disk_Mount d' = (disk_Mount d \<or> disk_Fstype d' \<noteq> [] \<and> disk_Dir d' \<noteq> [])
       \<and> disk_Type d' \<noteq> DisktypeUnknown \<and> (disk_Type d \<noteq> DisktypeUnknown \<longrightarrow> disk_Type d' = disk_Type d)
       \<and> length (disk_Serial d') = 12 \<and> list_all isHex (disk_Serial d'))"

lemma updateDisk_Ret:
  assumes "updateDisk ids d K t = (Ret d', t')"
  shows "disk_ok d d'" and "disk_ID d' \<notin> set ids"
proof -
  show "disk_ok d d'"
    using assms
    by (auto simp: updateDisk_def disk_ok_def Let_def io_Ret_iffs split: if_splits dest: RandStr_length RandStr_hex)
  show "disk_ID d' \<notin> set ids"
    using assms by (auto simp: updateDisk_def Let_def io_Ret_iffs split: if_splits)
qed

lemma updateLoop_Ret:
  "updateLoop ids ds K t = (Ret ds', t') \<Longrightarrow>
     list_all2 disk_ok ds ds' \<and> distinct (map disk_ID ds') \<and> set (map disk_ID ds') \<inter> set ids = {}"
proof (induction ids ds arbitrary: ds' t t' rule: updateLoop.induct)
  case (1 ids)
  then show ?case by simp
next
  case (2 ids d ds)
  then obtain d' ds1 u where d: "updateDisk ids d K t = (Ret d', u)" and ds': "ds' = d' # ds1"
    and l: "updateLoop (disk_ID d' # ids) ds K u = (Ret ds1, t')"
    by (auto simp: io_Ret_iffs)
  from 2(1) [OF l] updateDisk_Ret [OF d] show ?case by (auto simp: ds')
qed

section \<open>Giving back the root disk\<close>

definition mountsRootdisk :: "event \<Rightarrow> bool" where
  "mountsRootdisk ev \<longleftrightarrow> (case ev of
      Done (Mnt (MountCall src tgt fs fl d)) \<Rightarrow> tgt = rootdiskDest | _ \<Rightarrow> False)"

definition unmountsRootdisk :: "event \<Rightarrow> bool" where
  "unmountsRootdisk ev \<longleftrightarrow> (case ev_call ev of
      Mnt (UnmountCall tgt fl) \<Rightarrow> tgt = rootdiskDest | _ \<Rightarrow> False)"

definition attachesLoop :: "event \<Rightarrow> bool" where
  "attachesLoop ev \<longleftrightarrow> (case ev of Done (Proc (LoopSetFd dev file)) \<Rightarrow> True | _ \<Rightarrow> False)"

definition detachesLoop :: "event \<Rightarrow> bool" where
  "detachesLoop ev \<longleftrightarrow> (case ev_call ev of Proc (LoopClrFd dev) \<Rightarrow> True | _ \<Rightarrow> False)"

text \<open>Calls that neither mount the root disk nor attach a loop device.\<close>

definition keepsOff :: "syscall \<Rightarrow> bool" where
  "keepsOff c \<longleftrightarrow> (case c of Mnt (MountCall src tgt fs fl d) \<Rightarrow> False | Proc (LoopSetFd dev file) \<Rightarrow> False | _ \<Rightarrow> True)"

lemma keepsOff_simps [simp]:
  "keepsOff (Fs c)" "keepsOff (Proc (CombinedOutput a))" "keepsOff (Proc (LogPrint s))"
  "keepsOff (Proc (CloseFd f))" "keepsOff (Proc LoopGetFree)" "keepsOff (Mnt (UnmountCall p fl))"
  "keepsOff (Proc (LoopClrFd d))"
  by (simp_all add: keepsOff_def)

lemma keepsOff_neutral:
  "keepsOff (ev_call e) \<Longrightarrow> \<not> mountsRootdisk e \<and> \<not> attachesLoop e"
  by (cases e) (auto simp: keepsOff_def mountsRootdisk_def attachesLoop_def split: syscall.splits mntcall.splits proccall.splits)

lemma settles_keepsOff:
  assumes "emits keepsOff m"
  shows "settles mountsRootdisk cl m" and "settles attachesLoop cl m"
  using assms by (auto intro!: settles_emits elim!: emits_mono dest: keepsOff_neutral)

lemma emits_disktype: "emits keepsOff (disktype p)"
  unfolding disktype_def by (intro emits_intros) simp_all

lemma emits_e2fsck: "emits keepsOff (e2fsck p)"
  unfolding e2fsck_def Let_def by (intro emits_intros) simp_all

lemma emits_loopback_New: "emits keepsOff loopback_New"
  unfolding loopback_New_def by (intro emits_intros emits_Mknod) simp_all

lemma emits_loopback_Detach: "emits keepsOff (loopback_Detach l)"
  unfolding loopback_Detach_def by (intro emits_intros) simp_all

lemma emits_umountRootdisk: "emits keepsOff umountRootdisk"
  unfolding umountRootdisk_def by (intro emits_intros) simp_all

lemma emits_dirIsEmpty: "emits keepsOff (dirIsEmpty p)"
  unfolding dirIsEmpty_def Let_def by (intro emits_intros) simp_all

text \<open>What happens while the root disk is mounted.\<close>

definition fillBody :: "string list \<Rightarrow> unit io" where
  "fillBody excl =
     bnd (dirIsEmpty rootdiskDest) (\<lambda>diskIsEmpty.
        thn (mapErr (ErrorfE ''chdir to %s failed: %v '' [''/rootfs'']) (os_Chdir ''/rootfs''))
          (deferring
            (bnd (exec_CombinedOutput (rsyncArgs excl diskIsEmpty)) (\<lambda>(out, err).
             thn (case err of
                    None \<Rightarrow> ret ()
                  | Some e \<Rightarrow>
                      (let rc = fst (ErrorToRc (Some e))
                       in whn (0 < rc) (thn (log_Print out)
                            (fail (ErrorfE ''rsync failed: %v rc=%d %s'' [Itoa (uint rc)] e)))))
               (os_MkdirAll ''/lib/modules'' mode0755)))
            (os_Chdir ''/'')))"

lemma fillRootdisk_alt: "fillRootdisk excl = deferring (fillBody excl) umountRootdisk"
  by (simp add: fillRootdisk_def fillBody_def)

lemma emits_fillBody: "emits keepsOff (fillBody excl)"
  unfolding fillBody_def Let_def by (intro emits_intros emits_dirIsEmpty) simp_all

lemma no_exit_fillBody: "no_exit (fillBody excl)"
  unfolding fillBody_def dirIsEmpty_def Let_def os_OpenFile_def os_Chdir_def os_MkdirAll_def log_Print_def
  by (intro no_exit_intros)

lemma releases_umountRootdisk: "releases mountsRootdisk unmountsRootdisk umountRootdisk"
  unfolding umountRootdisk_def unix_Unmount_def
  by (intro releases_thn releases_bnd releases_attempt releases_call settles_keepsOff emits_intros)
    (auto simp: mountsRootdisk_def unmountsRootdisk_def split: event.splits)

lemma releases_fillRootdisk: "releases mountsRootdisk unmountsRootdisk (fillRootdisk excl)"
  unfolding fillRootdisk_alt
  by (rule releases_deferring [OF emits_fillBody no_exit_fillBody releases_umountRootdisk])

lemma emits_fillRootdisk: "emits keepsOff (fillRootdisk excl)"
  unfolding fillRootdisk_alt by (intro emits_intros emits_fillBody emits_umountRootdisk)

lemma settles_mountRootdisk:
  "settles mountsRootdisk unmountsRootdisk
     (thn (mapErr g (unix_Mount src rootdiskDest fs 0 [])) (fillRootdisk excl))"
  unfolding unix_Mount_def
  by (intro settles_acquire_thn acquires_mapErr acquires_call releases_fillRootdisk)
    (simp add: mountsRootdisk_def)

lemma emits_unix_Mount_noloop:
  "settles attachesLoop detachesLoop (mapErr g (unix_Mount src tgt fs fl d))"
  unfolding unix_Mount_def
  by (intro settles_emits emits_intros) (auto simp: attachesLoop_def split: event.splits)

lemma settles_mount_noloop:
  "settles attachesLoop detachesLoop (thn (mapErr g (unix_Mount src tgt fs fl d)) (fillRootdisk excl))"
  by (intro settles_thn emits_unix_Mount_noloop settles_keepsOff emits_fillRootdisk)

lemma releases_loopback_Detach: "releases attachesLoop detachesLoop (loopback_Detach l)"
  unfolding loopback_Detach_def
  by (rule releases_deferring_settled)
    (auto intro!: releases_mapErr releases_call settles_keepsOff emits_intros
      simp: attachesLoop_def detachesLoop_def split: event.splits)

lemma mount_fill_exits:
  "no_exit (thn (mapErr g (unix_Mount src tgt fs fl d)) (fillRootdisk excl))"
  unfolding fillRootdisk_alt umountRootdisk_def unix_Mount_def unix_Unmount_def os_Remove_def log_Print_def
  by (intro no_exit_intros no_exit_fillBody no_exit_case_sum)

lemma settles_attach:
  "settles attachesLoop detachesLoop
     (thn (loopback_Attach l file)
       (deferring (thn (mapErr g (unix_Mount src tgt fs fl d)) (fillRootdisk excl)) (loopback_Detach l)))"
proof (rule settles_acquire_thn)
  show "acquires attachesLoop detachesLoop (loopback_Attach l file)"
    unfolding loopback_Attach_def os_OpenFile_def
    by (intro acquires_thn_neutral acquires_mapErr acquires_call emits_intros)
      (auto simp: attachesLoop_def split: event.splits)
  have "emits (\<lambda>_. True) (thn (mapErr g (unix_Mount src tgt fs fl d)) (fillRootdisk excl))"
    by (intro emits_intros emits_mono [OF emits_fillRootdisk]) simp_all
  then show "releases attachesLoop detachesLoop
      (deferring (thn (mapErr g (unix_Mount src tgt fs fl d)) (fillRootdisk excl)) (loopback_Detach l))"
    by (rule releases_deferring [OF _ mount_fill_exits releases_loopback_Detach])
qed

lemma settles_loopback_Attach_root: "settles mountsRootdisk cl (loopback_Attach l file)"
  unfolding loopback_Attach_def os_OpenFile_def
  by (intro settles_emits emits_intros) (auto simp: mountsRootdisk_def split: event.splits)

lemma settles_CloseFd: "settles mountsRootdisk cl (call w (Proc (CloseFd f)))" "settles attachesLoop cl (call w (Proc (CloseFd f)))"
  by (intro settles_keepsOff emits_intros; simp)+

lemma settles_os: "settles mountsRootdisk cl (os_OpenFile p)" "settles attachesLoop cl (os_OpenFile p)"
  "settles mountsRootdisk cl (os_Mkdir p m)" "settles attachesLoop cl (os_Mkdir p m)"
  by (intro settles_keepsOff emits_intros; simp)+

lemmas settles_parts = settles_os settles_CloseFd settles_keepsOff [OF emits_disktype]
  settles_keepsOff [OF emits_e2fsck] settles_keepsOff [OF emits_loopback_New]
  settles_keepsOff [OF emits_loopback_Detach] settles_loopback_Attach_root

lemma settles_prepareRootdisk_mount: "settles mountsRootdisk unmountsRootdisk (prepareRootdisk v)"
  unfolding prepareRootdisk_def
  by (intro settles_case_option settles_prims settles_bnd [OF settles_parts(7)] settles_if
      settles_thn [OF settles_parts(9)] settles_thn [OF settles_parts(3)] settles_bnd [OF settles_parts(11)]
      settles_thn [OF settles_parts(1)] settles_deferring settles_thn [OF settles_parts(15)]
      settles_mountRootdisk settles_parts)

lemma settles_prepareRootdisk_loop: "settles attachesLoop detachesLoop (prepareRootdisk v)"
  unfolding prepareRootdisk_def
  by (intro settles_case_option settles_prims settles_bnd [OF settles_parts(8)] settles_if
      settles_thn [OF settles_parts(10)] settles_thn [OF settles_parts(4)] settles_bnd [OF settles_parts(12)]
      settles_thn [OF settles_parts(2)] settles_deferring settles_attach settles_mount_noloop
      settles_parts)

section \<open>Properties\<close>

text \<open>
  C15: When \<^verbatim>\<open>updateDisks\<close> succeeds, the disks have pairwise different IDs, and each one
  has a valid ID, cache mode and filesystem, taken from its path, a known type, a serial number of
  12 characters, and is marked for mounting exactly when it has a filesystem and a directory (or
  was marked before); its path and a type that was given stay as they are.
\<close>

theorem update_disks_valid:
  assumes "updateDisks ds K t = (Ret ds', t')"
  shows "distinct (map disk_ID ds') \<and> list_all2 disk_ok ds ds'"
  using updateLoop_Ret assms unfolding updateDisks_def by blast

definition demo_disk :: disk where
  "demo_disk = \<lparr>disk_Cache = [], disk_Dir = [], disk_Fstype = [], disk_ID = [], disk_Mount = False,
     disk_Path = ''/dev/runq/d1/none/ext4/data'', disk_Serial = [], disk_Type = BlockDevice\<rparr>"

definition demo_disk' :: disk where
  "demo_disk' = \<lparr>disk_Cache = ''none'', disk_Dir = ''/data'', disk_Fstype = ''ext4'', disk_ID = ''d1'', disk_Mount = True,
     disk_Path = ''/dev/runq/d1/none/ext4/data'', disk_Serial = ''000000000000'', disk_Type = BlockDevice\<rparr>"

lemma demo_diskFields:
  "diskFields ''/dev/runq/d1/none/ext4/data'' = [''dev'', ''runq'', ''d1'', ''none'', ''ext4'', ''data'']"
  by (simp add: diskFields_def TrimLeft_def eval_nat_numeral)

lemma demo_updateDisks:
  "updateDisks [demo_disk] quiet_kernel [] = (Ret [demo_disk'], [Done (Proc (RandRead 12))])"
proof -
  have "rand_Read 12 quiet_kernel [] = (Ret (replicate 12 (CHR 0x00)), [Done (Proc (RandRead 12))])"
    by (simp add: rand_Read_def io_defs quiet_kernel_def)
  moreover have "take 12 (hexBytes (replicate 12 (CHR 0x00))) = ''000000000000''"
    by code_simp
  ultimately have "RandStr 12 quiet_kernel [] = (Ret ''000000000000'', [Done (Proc (RandRead 12))])"
    by (simp add: RandStr_def io_defs)
  then have r: "bnd (RandStr 12) f quiet_kernel [] = f ''000000000000'' quiet_kernel [Done (Proc (RandRead 12))]" for f :: "string \<Rightarrow> disk io"
    by (simp add: bnd_def)
  have "updateDisk [] demo_disk = bnd (RandStr 12) (\<lambda>serial. ret (demo_disk'\<lparr>disk_Serial := serial\<rparr>))"
    by (simp add: updateDisk_def Let_def demo_disk_def demo_disk'_def demo_diskFields
        padFields_def reDiskID_def isAlnum_def isDigit_def isLower_def cacheTypes_def diskFilesystems_def)
  then have "updateDisk [] demo_disk quiet_kernel [] = (Ret demo_disk', [Done (Proc (RandRead 12))])"
    by (simp add: r) (simp add: ret_def demo_disk'_def)
  then show ?thesis by (simp add: updateDisks_def) (simp add: bnd_def ret_def)
qed

theorem update_disks_valid_witness: "disk_ok demo_disk demo_disk'"
  using update_disks_valid [OF demo_updateDisks] by simp

text \<open>
  C34: A path of the documented form \<^verbatim>\<open>/dev/runq/<id>/<cache>/<filesystem>/<mountpoint>\<close> is taken
  apart into exactly these parts, also when the mount point itself contains slashes.
\<close>

theorem disk_path_roundtrip:
  assumes "reDiskID ident" and "cache \<in> set cacheTypes" and "fs \<in> set diskFilesystems"
  shows "diskFields (''/dev/runq/'' @ ident @ ''/'' @ cache @ ''/'' @ fs @ ''/'' @ mp)
     = [''dev'', ''runq'', ident, cache, fs, mp]"
proof -
  have i: "CHR ''/'' \<notin> set ident"
    using assms(1) by (auto simp: reDiskID_def list_all_iff isAlnum_def isDigit_def isLower_def isUpper_def)
  have c: "CHR ''/'' \<notin> set cache" and f: "CHR ''/'' \<notin> set fs"
    using assms(2,3) by (auto simp: cacheTypes_def diskFilesystems_def)
  have "SplitN (CHR ''/'') (Suc (Suc (Suc (Suc (Suc (Suc 0))))))
      (''dev'' @ CHR ''/'' # ''runq'' @ CHR ''/'' # ident @ CHR ''/'' # cache @ CHR ''/'' # fs @ CHR ''/'' # mp)
      = [''dev'', ''runq'', ident, cache, fs, mp]"
    using SplitN_step [of "CHR ''/''" "''dev''"] SplitN_step [of "CHR ''/''" "''runq''"]
    by (simp add: i c f SplitN_step del: SplitN.simps(3))
  then show ?thesis by (simp add: diskFields_def TrimLeft_def eval_nat_numeral)
qed

theorem disk_path_roundtrip_witness:
  "diskFields (''/dev/runq/'' @ ''d-1'' @ ''/'' @ ''none'' @ ''/'' @ ''xfs'' @ ''/'' @ ''srv/data'')
     = [''dev'', ''runq'', ''d-1'', ''none'', ''xfs'', ''srv/data'']"
  by (rule disk_path_roundtrip)
    (simp_all add: reDiskID_def isAlnum_def isDigit_def isLower_def isUpper_def cacheTypes_def diskFilesystems_def)

text \<open>
  C16: However \<^verbatim>\<open>prepareRootdisk\<close> ends, with every possible failure of the calls it makes, a
  root disk that it mounted has been unmounted again (or the unmount was at least tried), and a loop
  device that it attached has been detached again.
\<close>

theorem rootdisk_given_back:
  "settles mountsRootdisk unmountsRootdisk (prepareRootdisk v)
   \<and> settles attachesLoop detachesLoop (prepareRootdisk v)"
  using settles_prepareRootdisk_mount settles_prepareRootdisk_loop by blast

end
