(* ===== verification/Proxy_Network.thy ===== *)
theory Proxy_Network
  imports Net Util Logs
begin

text \<open>
  \<^verbatim>\<open>cmd/proxy/network.go\<close>: the proxy puts a macvtap device on every interface of the container,
  takes the addresses off the interface and records them for the guest; and it writes the
  configuration of the resolver.
\<close>

section \<open>Interfaces\<close>

definition createTapDevice :: "string \<Rightarrow> int \<Rightarrow> string io" where
  "createTapDevice name index =
     (let syspath = ''/sys/devices/virtual/net/'' @ name @ ''/tap'' @ Itoa index @ ''/dev'';
          devpath = ''/dev/'' @ name
      in bnd (MajorMinor syspath) (\<lambda>(major, minor).
         thn (Mknod devpath ''c'' (int mode0600) major minor) (ret devpath)))"

definition tapName :: "nat \<Rightarrow> string" where
  "tapName idx = ''tap'' @ Itoa (int idx)"

abbreviation netlink :: "netcall \<Rightarrow> unit io" where
  "netlink c \<equiv> call SysErrno (Net c)"

text \<open>The gateway of the first route that has one.\<close>

definition firstGateway :: "ip option list \<Rightarrow> ip option" where
  "firstGateway routes = (case find (\<lambda>r. r \<noteq> None) routes of None \<Rightarrow> None | Some gw \<Rightarrow> gw)"

definition usableLink :: "link \<Rightarrow> bool" where
  "usableLink l \<longleftrightarrow> link_Type l \<in> {''veth'', ''macvlan''}"

definition setupTap :: "nat \<Rightarrow> link \<Rightarrow> network io" where
  "setupTap idx l =
     bnd (mapErr WithStack (ask (\<lambda>K t. k_addrs K t (link_Index l)) SysErrno (Net (AddrList (link_Index l))))) (\<lambda>addrs.
     if addrs = [] then fail (WithStack (Errorf ''no ip found on %s'' [link_Name l]))
     else bnd (mapErr WithStack (ask (\<lambda>K t. k_routes K t (link_Index l)) SysErrno (Net (RouteList (link_Index l))))) (\<lambda>routes.
       thn (forE addrs (\<lambda>a. mapErr WithStack (netlink (AddrDel (link_Index l) a))))
       (thn (mapErr WithStack (netlink (LinkSetDown (link_Index l))))
       (thn (mapErr (Wrap ''failed to add macvtap interface'') (netlink (LinkAddMacvtap (tapName idx) (link_Index l))))
       (bnd (mapErr (Wrap (''LinkByName '' @ tapName idx))
              (ask (\<lambda>K t. k_link K t (tapName idx)) SysErrno (Net (LinkByName (tapName idx))))) (\<lambda>macvtap.
        thn (mapErr (Wrap (''LinkSetUp '' @ link_Name macvtap @ '':'')) (netlink (LinkSetUp (link_Index macvtap))))
        (thn (mapErr (Wrap (''LinkSetUp '' @ link_Name l)) (netlink (LinkSetUp (link_Index l))))
        (bnd (createTapDevice (link_Name macvtap) (link_Index macvtap)) (\<lambda>tapDevice.
         ret \<lparr>nw_Name = link_Name l, nw_MacAddress = link_HardwareAddr macvtap, nw_MTU = link_MTU l,
              nw_Addrs = addrs, nw_Gateway = firstGateway routes, nw_TapDevice = tapDevice\<rparr>)))))))))"

fun setupLinks :: "nat \<Rightarrow> link list \<Rightarrow> network list io" where
  "setupLinks idx [] = ret []"
| "setupLinks idx (l # ls) =
     (if usableLink l
      then bnd (setupTap idx l) (\<lambda>nw. bnd (setupLinks (Suc idx) ls) (\<lambda>nws. ret (nw # nws)))
      else setupLinks idx ls)"

definition proxy_setupNetwork :: "network list io" where
  "proxy_setupNetwork =
     bnd (mapErr WithStack (ask (\<lambda>K t. k_links K t) SysErrno (Net LinkList))) (setupLinks 0)"

section \<open>The resolver\<close>

text \<open>
  The addresses of the interfaces in their text form; an address that does not parse is an error.
\<close>

fun onLocalNet :: "ip \<Rightarrow> string list \<Rightarrow> bool io" where
  "onLocalNet a [] = ret False"
| "onLocalNet a (s # ss) = (case ParseCIDR s of
      None \<Rightarrow> fail (Errorf ''invalid CIDR address: %s'' [s])
    | Some (ifip, n) \<Rightarrow>
        (if To4 ifip = None then onLocalNet a ss
         else if IsLoopback ifip then onLocalNet a ss
         else if Contains n a then ret True
         else onLocalNet a ss))"

definition proxyIPisValid :: "ip \<Rightarrow> bool io" where
  "proxyIPisValid a =
     (if To4 a = None then ret False
      else bnd (ask (\<lambda>K t. k_strs K t (Net InterfaceAddrs)) SysErrno (Net InterfaceAddrs)) (onLocalNet a))"

fun firstValid :: "string \<Rightarrow> ip list \<Rightarrow> ip io" where
  "firstValid host [] = fail (Errorf ''invalid nameserver %q'' [host])"
| "firstValid host (a # as) =
     bnd (proxyIPisValid a) (\<lambda>valid. if valid then ret a else firstValid host as)"

definition proxyIP :: "string \<Rightarrow> ip io" where
  "proxyIP host =
     bnd (ask (\<lambda>K t. k_ips K t host) (ExtError ''lookup'') (Net (LookupIP host))) (firstValid host)"

text \<open>The addresses of the name servers: given as an address, or looked up.\<close>

fun nameservers :: "string list \<Rightarrow> ip list io" where
  "nameservers [] = ret []"
| "nameservers (ns # nss) =
     bnd (case ParseIP ns of Some a \<Rightarrow> ret a | None \<Rightarrow> proxyIP ns) (\<lambda>a.
     bnd (nameservers nss) (\<lambda>as. ret (a # as)))"

definition resolvConf :: string where "resolvConf = ''/etc/resolv.conf''"

definition NL :: string where "NL = [CHR 0x0A]"

definition resolvText :: "dns \<Rightarrow> ip list \<Rightarrow> string" where
  "resolvText d ips =
     ''# Generated by RunQ'' @ NL
     @ (if dns_Options d \<noteq> [] then ''options '' @ dns_Options d @ NL else [])
     @ (if dns_Search d \<noteq> [] then ''search '' @ dns_Search d @ NL else [])
     @ concat (map (\<lambda>a. ''nameserver '' @ IP_String a @ NL) ips)"

definition writeResolvConf :: "dns \<Rightarrow> unit io" where
  "writeResolvConf d =
     (if dns_Preserve d then ret ()
      else bnd (nameservers (dns_Server d)) (\<lambda>ips.
        thn (bnd (attempt (unix_Unmount resolvConf MNT_DETACH)) (\<lambda>r. case r of
               Inr _ \<Rightarrow> ret ()
             | Inl e \<Rightarrow> if e \<noteq> SysErrno EINVAL then fail e else os_MkdirAll (filepath_Dir resolvConf) mode0755))
        (thn (ioutil_WriteFile resolvConf (resolvText d ips) mode0444)
          (os_Chmod resolvConf mode0444))))"

section \<open>What happens to the interfaces\<close>

text \<open>The changes to one interface and its tap, and what is recorded of them.\<close>

definition isTakeover :: "syscall \<Rightarrow> bool" where
  "isTakeover c \<longleftrightarrow> (case c of
      Net n \<Rightarrow> (case n of AddrDel _ _ \<Rightarrow> True | LinkSetDown _ \<Rightarrow> True | LinkAddMacvtap _ _ \<Rightarrow> True | LinkSetUp _ \<Rightarrow> True
        | AddrAdd _ _ \<Rightarrow> True | LinkSetName _ _ \<Rightarrow> True | LinkSetMTU _ _ \<Rightarrow> True | RouteAddGw _ \<Rightarrow> True | _ \<Rightarrow> False)
    | _ \<Rightarrow> False)"

definition takeover :: "nat \<Rightarrow> link \<Rightarrow> network \<Rightarrow> link \<Rightarrow> syscall list" where
  "takeover idx l nw macvtap =
     map (\<lambda>a. Net (AddrDel (link_Index l) a)) (nw_Addrs nw)
     @ [Net (LinkSetDown (link_Index l)), Net (LinkAddMacvtap (tapName idx) (link_Index l)),
        Net (LinkSetUp (link_Index macvtap)), Net (LinkSetUp (link_Index l))]"

definition recorded :: "nat \<Rightarrow> link \<Rightarrow> network \<Rightarrow> link \<Rightarrow> bool" where
  "recorded idx l nw macvtap \<longleftrightarrow>
     link_Name macvtap = tapName idx \<and> nw_MacAddress nw = link_HardwareAddr macvtap
     \<and> nw_Name nw = link_Name l \<and> nw_MTU nw = link_MTU l \<and> nw_Addrs nw \<noteq> []
     \<and> nw_TapDevice nw = ''/dev/'' @ tapName idx"

lemma isTakeover_simps [simp]:
  "isTakeover (Net (AddrDel i a))" "isTakeover (Net (LinkSetDown i))" "isTakeover (Net (LinkAddMacvtap s i))"
  "isTakeover (Net (LinkSetUp i))" "\<not> isTakeover (Fs f)" "\<not> isTakeover (Net (AddrList i))"
  "\<not> isTakeover (Net (RouteList i))" "\<not> isTakeover (Net (LinkByName s))" "\<not> isTakeover (Net LinkList)"
  by (simp_all add: isTakeover_def)

lemma emits_MajorMinor: "(\<And>f. P (Fs f)) \<Longrightarrow> emits P (MajorMinor p)"
  unfolding MajorMinor_def by (intro emits_intros) simp_all

lemma createTapDevice_logs:
  "Q (''/dev/'' @ name) [] \<Longrightarrow> logs isTakeover K (createTapDevice name i) Q"
  unfolding createTapDevice_def Let_def
  by (intro logs_intros logs_silent emits_MajorMinor emits_Mknod) (auto intro: logs_silent emits_Mknod logs_ret)

lemma setupTap_logs:
  assumes "\<And>t n m. k_link K t n = Inr m \<Longrightarrow> link_Name m = n"
  shows "logs isTakeover K (setupTap idx l) (\<lambda>nw cs. \<exists>m. recorded idx l nw m \<and> cs = takeover idx l nw m)"
  unfolding setupTap_def
  by (intro logs_intros createTapDevice_logs logs_forE [where g = "\<lambda>a. [Net (AddrDel (link_Index l) a)]"])
    (auto simp: recorded_def takeover_def dest: assms intro: logs_intros)

text \<open>All usable links, the numbers of the taps counting on from \<open>idx\<close>.\<close>

definition taken :: "nat \<Rightarrow> link list \<Rightarrow> network list \<Rightarrow> link list \<Rightarrow> syscall list \<Rightarrow> bool" where
  "taken idx us nws ms cs \<longleftrightarrow>
     length nws = length us \<and> length ms = length us
     \<and> (\<forall>j<length us. recorded (idx + j) (us ! j) (nws ! j) (ms ! j))
     \<and> cs = concat (map (\<lambda>j. takeover (idx + j) (us ! j) (nws ! j) (ms ! j)) [0..<length us])"

lemma taken_Nil: "taken idx [] [] [] []"
  by (simp add: taken_def)

lemma taken_Cons:
  assumes "recorded idx l nw m" and "taken (Suc idx) us nws ms cs"
  shows "taken idx (l # us) (nw # nws) (m # ms) (takeover idx l nw m @ cs)"
proof -
  have "[0..<length (l # us)] = 0 # map Suc [0..<length us]" by (simp add: map_Suc_upt upt_conv_Cons del: upt_Suc)
  with assms show ?thesis
    by (auto simp: taken_def comp_def nth_Cons split: nat.splits simp del: upt_Suc)
qed

lemma setupLinks_logs:
  assumes "\<And>t n m. k_link K t n = Inr m \<Longrightarrow> link_Name m = n"
  shows "logs isTakeover K (setupLinks idx ls) (\<lambda>nws cs. \<exists>ms. taken idx (filter usableLink ls) nws ms cs)"
proof (induction idx ls rule: setupLinks.induct)
  case (1 idx)
  show ?case by (auto intro!: logs_ret taken_Nil)
next
  case (2 idx l ls)
  show ?case
  proof (cases "usableLink l")
    case True
    have step: "logs isTakeover K (bnd (setupLinks (Suc idx) ls) (\<lambda>nws. ret (nw # nws)))
        (\<lambda>nws ys. \<exists>ms. taken idx (l # filter usableLink ls) nws ms (xs @ ys))"
      if "\<exists>m. recorded idx l nw m \<and> xs = takeover idx l nw m" for nw xs
      by (intro logs_bnd logs_conseq [OF 2(1) [OF True]] logs_ret) (use that taken_Cons in fastforce)
    have "logs isTakeover K (bnd (setupTap idx l) (\<lambda>nw. bnd (setupLinks (Suc idx) ls) (\<lambda>nws. ret (nw # nws))))
        (\<lambda>nws cs. \<exists>ms. taken idx (l # filter usableLink ls) nws ms cs)"
      by (rule logs_bnd, rule logs_conseq, rule setupTap_logs, erule assms, erule step)
    with True show ?thesis by simp
  qed (use 2 in simp)
qed

section \<open>The resolver's view\<close>

text \<open>A reader of the file: the addresses of its name servers, in the order of the lines.\<close>

definition serverOf :: "string \<Rightarrow> ip list" where
  "serverOf line = (if HasPrefix line ''nameserver '' then (case ParseIP (drop 11 line) of None \<Rightarrow> [] | Some a \<Rightarrow> [a]) else [])"

definition resolvServers :: "string \<Rightarrow> ip list" where
  "resolvServers s = concat (map serverOf (Split (CHR 0x0A) s))"

text \<open>An address as 16 bytes.\<close>

definition To16 :: "ip \<Rightarrow> ip" where
  "To16 a = (if length a = 4 then v4InV6Prefix @ a else a)"

lemma Split_append: "c \<notin> set l \<Longrightarrow> Split c (l @ c # s) = l # Split c s"
proof (induction l)
  case (Cons x l)
  then show ?case by (cases "Split c (l @ c # s)") auto
qed simp

lemma resolvServers_line: "CHR 0x0A \<notin> set l \<Longrightarrow> resolvServers (l @ NL @ s) = serverOf l @ resolvServers s"
  by (simp add: resolvServers_def NL_def Split_append)

lemma ParseIP_String_To16: "length a = 4 \<or> length a = 16 \<Longrightarrow> ParseIP (IP_String a) = Some (To16 a)"
proof (elim disjE)
  assume "length a = 4"
  then have "IP_String a = dotted a" by (auto simp: IP_String_def To4_def)
  with \<open>length a = 4\<close> show ?thesis by (simp add: To16_def ParseIP_dotted)
qed (simp add: To16_def ParseIP_String)

lemma v6Loop_length:
  "v6Loop k acc e s = Some (acc', e', s') \<Longrightarrow> length acc + 2 * k = 16 \<Longrightarrow> length acc' \<le> 16"
proof (induction k acc e s rule: v6Loop.induct)
  case (2 k acc e s)
  then show ?case
    by (auto simp: Let_def parseIPv4_def v4InV6Prefix_def dest!: dottedBytes_length
        split: option.splits if_splits prod.splits)
qed simp

lemma v6Finish_length: "v6Finish (acc, e, s) = Some a \<Longrightarrow> length acc \<le> 16 \<Longrightarrow> length a = 16"
  by (auto simp: v6Finish_def split: if_splits option.splits)

lemma parseIPv6_length: "parseIPv6 s = Some a \<Longrightarrow> length a = 16"
  by (auto simp: parseIPv6_def bind_eq_Some_conv split: if_splits dest!: v6Loop_length v6Finish_length)

lemma ParseIP_length: "ParseIP s = Some a \<Longrightarrow> length a = 16"
  by (auto simp: ParseIP_def v4InV6Prefix_def split: list.splits if_splits dest: parseIPv6_length dest!: parseIPv4_shape)

text \<open>An address of a local network: the network of an interface that is not the loopback.\<close>

definition localNet :: "ip \<Rightarrow> string \<Rightarrow> bool" where
  "localNet a s = (case ParseCIDR s of
      None \<Rightarrow> False | Some (ifip, n) \<Rightarrow> To4 ifip \<noteq> None \<and> \<not> IsLoopback ifip \<and> Contains n a)"

definition localAddr :: "kernel \<Rightarrow> ip \<Rightarrow> bool" where
  "localAddr K a \<longleftrightarrow> To4 a \<noteq> None \<and> (\<exists>t ss. k_strs K t (Net InterfaceAddrs) = Inr ss \<and> list_ex (localNet a) ss)"

lemma onLocalNet_True: "onLocalNet a ss K t = (Ret True, t') \<Longrightarrow> list_ex (localNet a) ss"
proof (induction ss)
  case (Cons s ss)
  then show ?case by (cases "ParseCIDR s") (auto simp: localNet_def split: if_splits)
qed simp

lemma proxyIPisValid_True: "proxyIPisValid a K t = (Ret True, t') \<Longrightarrow> localAddr K a"
  by (auto simp: proxyIPisValid_def localAddr_def bnd_Ret_iff ask_Ret_iff split: if_splits dest!: onLocalNet_True)

lemma firstValid_local: "firstValid host as K t = (Ret a, t') \<Longrightarrow> localAddr K a"
  by (induction host as arbitrary: t rule: firstValid.induct)
    (auto simp: bnd_Ret_iff split: if_splits dest: proxyIPisValid_True)

lemma proxyIP_local: "proxyIP host K t = (Ret a, t') \<Longrightarrow> localAddr K a"
  by (auto simp: proxyIP_def bnd_Ret_iff dest: firstValid_local)

text \<open>The address that a name server of the configuration stands for.\<close>

definition serverAddr :: "kernel \<Rightarrow> string \<Rightarrow> ip \<Rightarrow> bool" where
  "serverAddr K ns a \<longleftrightarrow> (case ParseIP ns of Some b \<Rightarrow> a = b | None \<Rightarrow> localAddr K a)"

lemma nameservers_addrs: "nameservers nss K t = (Ret as, t') \<Longrightarrow> list_all2 (serverAddr K) nss as"
proof (induction nss arbitrary: t as)
  case (Cons ns nss)
  then show ?case
    by (cases "ParseIP ns") (auto simp: bnd_Ret_iff serverAddr_def dest: proxyIP_local)
qed simp

lemma localAddr_length: "localAddr K a \<Longrightarrow> length a = 4 \<or> length a = 16"
  by (auto simp: localAddr_def To4_def split: if_splits)

lemma serverAddr_length: "serverAddr K ns a \<Longrightarrow> length a = 4 \<or> length a = 16"
  by (auto simp: serverAddr_def split: option.splits dest: localAddr_length ParseIP_length)

lemma isHex_no_NL: "list_all isHex s \<Longrightarrow> CHR 0x0A \<notin> set s"
  by (auto simp: list_all_iff isHex_def isDigit_def)

lemma showHex_no_NL [simp]: "CHR 0x0A \<notin> set (showHex g)"
  by (rule isHex_no_NL) simp

lemma showNat_no_NL [simp]: "CHR 0x0A \<notin> set (showNat g)"
  using showNat_digits [of g] by (auto simp: list_all_iff isDigit_def)

lemma joinGroups_no_NL [simp]: "CHR 0x0A \<notin> set (joinGroups gs)"
  by (induction gs rule: joinGroups.induct) auto

lemma dotted_no_NL [simp]: "CHR 0x0A \<notin> set (dotted bs)"
  by (induction bs rule: induct_list012) (auto simp: dotted_def)

lemma IP_String_no_NL: "length a = 4 \<or> length a = 16 \<Longrightarrow> CHR 0x0A \<notin> set (IP_String a)"
  by (auto simp: IP_String_def ipv6String_def To4_def split: option.splits prod.splits if_splits)

lemma resolvServers_servers:
  "list_all (\<lambda>a. length a = 4 \<or> length a = 16) as \<Longrightarrow>
   resolvServers (concat (map (\<lambda>a. ''nameserver '' @ IP_String a @ NL) as)) = map To16 as"
proof (induction as)
  case Nil
  show ?case by (simp add: resolvServers_def serverOf_def HasPrefix_def)
next
  case (Cons a as)
  then have a: "length a = 4 \<or> length a = 16" by simp
  have "resolvServers ((''nameserver '' @ IP_String a) @ NL @ s) = To16 a # resolvServers s" for s
    by (subst resolvServers_line)
      (use IP_String_no_NL [OF a] ParseIP_String_To16 [OF a] in \<open>simp_all add: serverOf_def HasPrefix_def\<close>)
  with Cons show ?case by simp
qed

section \<open>Properties\<close>


definition demo_veth :: link where
  "demo_veth = \<lparr>link_Index = 4, link_Name = ''eth0'', link_Type = ''veth'', link_HardwareAddr = ''02:42'', link_MTU = 1500\<rparr>"

definition demo_tap :: link where
  "demo_tap = \<lparr>link_Index = 5, link_Name = ''tap0'', link_Type = ''macvtap'', link_HardwareAddr = ''0a:0b'', link_MTU = 1500\<rparr>"

definition demo_host :: kernel where
  "demo_host = quiet_kernel\<lparr>k_links := (\<lambda>t. Inr [demo_veth]),
     k_link := (\<lambda>t n. if n = ''tap0'' then Inr demo_tap else Inl ENOENT),
     k_addrs := (\<lambda>t i. Inr [\<lparr>addr_IPNet = ''172.17.0.2/16'', addr_Label = ''eth0''\<rparr>]),
     k_routes := (\<lambda>t i. Inr [None]), k_file := (\<lambda>t p. Inr (''240:1'', None))\<rparr>"

lemma demo_majmin: "Sscanf_d_d ''240:1'' = Some (240, 1)"
  by code_simp



definition demo_dns :: dns where
  "demo_dns = \<lparr>dns_Server = [''8.8.8.8''], dns_Options = [], dns_Search = ''example.com'', dns_Preserve = False\<rparr>"

lemma demo_google: "ParseIP ''8.8.8.8'' = Some (v4InV6Prefix @ [8, 8, 8, 8])"
proof -
  have "''8.8.8.8'' = dotted [8, 8, 8, 8]" by (simp add: dotted_def showNat_def digitsBase.simps)
  then show ?thesis by (simp only: ParseIP_dotted list.size)
qed


end
