(* ===== verification/Proxy_Qemu.thy ===== *)
theory Proxy_Qemu
  imports Util Vm
begin

text \<open>
  \<^verbatim>\<open>cmd/proxy/qemu_amd64.go\<close> and \<^verbatim>\<open>cmd/proxy/qemu_s390x.go\<close>: the command line of QEMU.
  The two functions of the same name are told apart by their architecture. What both files say in
  the same words about disks and networks is one function here, with the bus of the devices and
  what follows their properties as arguments.
\<close>

section \<open>Disks and networks\<close>

definition diskFormat :: "disktype \<Rightarrow> string option" where
  "diskFormat ty = (case ty of
      Qcow2Image \<Rightarrow> Some ''qcow2'' | BlockDevice \<Rightarrow> Some ''raw'' | RawFile \<Rightarrow> Some ''raw'' | DisktypeUnknown \<Rightarrow> None)"

definition diskAio :: "disk \<Rightarrow> string" where
  "diskAio d = (if disk_Cache d = ''none'' then ''native'' else ''threads'')"

definition diskId :: "nat \<Rightarrow> string" where "diskId i = ''disk'' @ Itoa (int i)"

definition driveArg :: "nat \<Rightarrow> disk \<Rightarrow> string \<Rightarrow> string" where
  "driveArg i d format =
     ''file='' @ disk_Path d @ '',if=none,format='' @ format @ '',cache='' @ disk_Cache d @ '',aio='' @ diskAio d @ '',id='' @ diskId i"

definition blkArg :: "string \<Rightarrow> string \<Rightarrow> nat \<Rightarrow> disk \<Rightarrow> string" where
  "blkArg bus suf i d =
     ''virtio-blk-'' @ bus @ '',serial='' @ disk_Serial d @ '',drive='' @ diskId i @ '',iothread=iothread1'' @ suf"

fun diskLoop :: "string \<Rightarrow> string \<Rightarrow> nat \<Rightarrow> disk list \<Rightarrow> gerror + string list" where
  "diskLoop bus suf i [] = Inr []"
| "diskLoop bus suf i (d # ds) = (case diskFormat (disk_Type d) of
      None \<Rightarrow> Inl (Errorf ''invalid disk type'' [])
    | Some format \<Rightarrow> (case diskLoop bus suf (Suc i) ds of
          Inl e \<Rightarrow> Inl e
        | Inr rest \<Rightarrow> Inr ([''-drive'', driveArg i d format, ''-device'', blkArg bus suf i d] @ rest)))"

definition diskArgs :: "string \<Rightarrow> string \<Rightarrow> disk list \<Rightarrow> gerror + string list" where
  "diskArgs bus suf ds =
     (if ds = [] then Inr []
      else case diskLoop bus suf 0 ds of
          Inl e \<Rightarrow> Inl e | Inr as \<Rightarrow> Inr ([''-object'', ''iothread,id=iothread1''] @ as))"

text \<open>Descriptors 0 to 2 are the standard streams, so network \<open>i\<close> has descriptor \<open>i + 3\<close>.\<close>

definition netdevArg :: "nat \<Rightarrow> string" where
  "netdevArg i = ''tap,id=net'' @ Itoa (int i) @ '',vhost=on,fd='' @ Itoa (int i + 3)"

definition nicArg :: "string \<Rightarrow> string \<Rightarrow> nat \<Rightarrow> network \<Rightarrow> string" where
  "nicArg bus suf i nw =
     ''virtio-net-'' @ bus @ '',netdev=net'' @ Itoa (int i) @ '',mac='' @ nw_MacAddress nw @ suf"

fun netArgs :: "string \<Rightarrow> string \<Rightarrow> nat \<Rightarrow> network list \<Rightarrow> string list" where
  "netArgs bus suf i [] = []"
| "netArgs bus suf i (nw # nws) =
     [''-device'', nicArg bus suf i nw, ''-netdev'', netdevArg i] @ netArgs bus suf (Suc i) nws"

section \<open>The command line\<close>

definition shareArgs :: "vmdata \<Rightarrow> string" where
  "shareArgs v = (if HasPrefix (vm_QemuVersion v) ''4'' then '',multidevs=remap'' else [])"

text \<open>\<^verbatim>\<open>vmdata.ContainerID[:12]\<close> panics on a shorter text.\<close>

definition shortID :: "string \<Rightarrow> string io" where
  "shortID cid = (if length cid < 12 then panic ''slice bounds out of range'' else ret (take 12 cid))"

definition commonArgs :: "vmdata \<Rightarrow> string \<Rightarrow> string \<Rightarrow> string \<Rightarrow> string \<Rightarrow> string list" where
  "commonArgs v name cpu socket share =
     [''-machine'', ''accel=kvm,usb=off'',
      ''-monitor'', ''none'',
      ''-nodefaults'',
      ''-name'', name,
      ''-enable-kvm'',
      ''-cpu'', cpu,
      ''-vnc'', ''none'',
      ''-display'', ''none'',
      ''-no-reboot'',
      ''-no-user-config'',
      ''-kernel'', ''/kernel'',
      ''-initrd'', ''/initrd'',
      ''-msg'', ''timestamp=on'',
      ''-fsdev'', ''local,id=share,path='' @ share @ '',security_model=none'' @ shareArgs v,
      ''-chardev'', ''socket,path='' @ socket @ '',id=channel1'',
      ''-device'', ''virtserialport,chardev=channel1,name=com.ibm.runq.channel.1'',
      ''-smp'', Itoa (vm_CPU v),
      ''-m'', Itoa (vm_Mem v),
      ''-append'', KernelParameters,
      ''-chardev'', ''stdio,id=console,signal=off'']"

definition virtioArgs :: "vmdata \<Rightarrow> string" where
  "virtioArgs v = (if vm_NestedVM v then '',disable-modern=true'' else [])"

definition cpuArgs :: "vmdata \<Rightarrow> string" where
  "cpuArgs v = (if vm_NestedVM v then '',pmu=off'' else [])"

definition guestCid :: "vmdata \<Rightarrow> string" where
  "guestCid v = '',guest-cid=0x'' @ showHex (unat (vs_CID (vm_Vsockd v)))"

definition qemuArgs_amd64 :: "vmdata \<Rightarrow> string \<Rightarrow> string \<Rightarrow> string list io" where
  "qemuArgs_amd64 v socket share =
     bnd (shortID (vm_ContainerID v)) (\<lambda>name.
     case diskArgs ''pci'' (virtioArgs v) (vm_Disks v) of
       Inl e \<Rightarrow> fail e
     | Inr disks \<Rightarrow> ret
        ([''/usr/bin/qemu-system-x86_64'',
          ''-device'', ''virtio-rng-pci,max-bytes=1024,period=1000'' @ virtioArgs v,
          ''-device'', ''virtio-9p-pci,fsdev=share,mount_tag='' @ filepath_Base share @ virtioArgs v,
          ''-device'', ''virtio-serial-pci'' @ virtioArgs v,
          ''-serial'', ''chardev:console'',
          ''-no-acpi'']
         @ commonArgs v name (''host'' @ cpuArgs v) socket share
         @ (if vs_CID (vm_Vsockd v) \<noteq> 0 then [''-device'', ''vhost-vsock-pci'' @ guestCid v @ virtioArgs v] else [])
         @ disks
         @ netArgs ''pci'' (virtioArgs v) 0 (vm_Networks v)))"

definition qemuArgs_s390x :: "vmdata \<Rightarrow> string \<Rightarrow> string \<Rightarrow> string list io" where
  "qemuArgs_s390x v socket share =
     bnd (shortID (vm_ContainerID v)) (\<lambda>name.
     case diskArgs ''ccw'' [] (vm_Disks v) of
       Inl e \<Rightarrow> fail e
     | Inr disks \<Rightarrow> ret
        ([''/usr/bin/qemu-system-s390x'',
          ''-device'', ''virtio-9p-ccw,fsdev=share,mount_tag='' @ filepath_Base share,
          ''-device'', ''virtio-serial-ccw'',
          ''-device'', ''sclpconsole,chardev=console'']
         @ commonArgs v name ''host'' socket share
         @ (if vs_CID (vm_Vsockd v) \<noteq> 0 then [''-device'', ''vhost-vsock-ccw'' @ guestCid v] else [])
         @ (if vm_APDevice v \<noteq> [] then [''-device'', ''vfio-ap,sysfsdev='' @ vm_APDevice v] else [])
         @ (if vm_MachineType v = ''z13'' then [''-device'', ''virtio-rng-ccw,max-bytes=1024,period=1000''] else [])
         @ disks
         @ netArgs ''ccw'' [] 0 (vm_Networks v)))"

definition qemuArgs :: "goarch \<Rightarrow> vmdata \<Rightarrow> string \<Rightarrow> string \<Rightarrow> string list io" where
  "qemuArgs arch = (case arch of Amd64 \<Rightarrow> qemuArgs_amd64 | S390x \<Rightarrow> qemuArgs_s390x)"

section \<open>How QEMU reads it\<close>

text \<open>
  An option of QEMU stands alone or takes the next argument as its value; a value is a list of
  properties separated by commas.
\<close>

datatype (plugins only: code size) qopt = Flag string | Opt string string

definition standalone :: "string list" where
  "standalone = [''-no-acpi'', ''-nodefaults'', ''-enable-kvm'', ''-no-reboot'', ''-no-user-config'']"

fun readOpts :: "string list \<Rightarrow> qopt list option" where
  "readOpts [] = Some []"
| "readOpts [a] = (if a \<in> set standalone then Some [Flag a] else None)"
| "readOpts (a # b # r) =
     (if a \<in> set standalone then map_option ((#) (Flag a)) (readOpts (b # r))
      else if HasPrefix a ''-'' then map_option ((#) (Opt a b)) (readOpts r)
      else None)"

definition optValues :: "string \<Rightarrow> qopt list \<Rightarrow> string list" where
  "optValues name os = concat (map (\<lambda>p. case p of Flag _ \<Rightarrow> [] | Opt n v \<Rightarrow> if n = name then [v] else []) os)"

definition properties :: "string \<Rightarrow> string list" where
  "properties = Split (CHR '','')"

lemma optValues_simps [simp]:
  "optValues n [] = []" "optValues n (Flag f # os) = optValues n os"
  "optValues n (Opt m v # os) = (if m = n then [v] else []) @ optValues n os"
  "optValues n (os @ ps) = optValues n os @ optValues n ps"
  by (simp_all add: optValues_def)

lemma readOpts_append: "readOpts as = Some os \<Longrightarrow> readOpts bs = Some ps \<Longrightarrow> readOpts (as @ bs) = Some (os @ ps)"
proof (induction as arbitrary: os rule: readOpts.induct)
  case (2 a)
  then show ?case by (cases bs) (auto split: if_splits)
qed (auto split: if_splits)

lemma readOpts_value:
  "a \<notin> set standalone \<Longrightarrow> HasPrefix a ''-'' \<Longrightarrow> readOpts r = Some os \<Longrightarrow> readOpts (a # v # r) = Some (Opt a v # os)"
  by simp

lemma readOpts_flag: "a \<in> set standalone \<Longrightarrow> readOpts r = Some os \<Longrightarrow> readOpts (a # r) = Some (Flag a # os)"
  by (cases r) auto

lemma option_names [simp]:
  "''-device'' \<notin> set standalone" "''-drive'' \<notin> set standalone" "''-netdev'' \<notin> set standalone" "''-object'' \<notin> set standalone"
  "HasPrefix ''-device'' ''-''" "HasPrefix ''-drive'' ''-''" "HasPrefix ''-netdev'' ''-''" "HasPrefix ''-object'' ''-''"
  by (simp_all add: standalone_def HasPrefix_def)

text \<open>The options of networks and of disks.\<close>

fun netOpts :: "string \<Rightarrow> string \<Rightarrow> nat \<Rightarrow> network list \<Rightarrow> qopt list" where
  "netOpts bus suf i [] = []"
| "netOpts bus suf i (nw # nws) =
     Opt ''-device'' (nicArg bus suf i nw) # Opt ''-netdev'' (netdevArg i) # netOpts bus suf (Suc i) nws"

lemma readOpts_net: "readOpts (netArgs bus suf i nws) = Some (netOpts bus suf i nws)"
  by (induction bus suf i nws rule: netArgs.induct) (auto intro!: readOpts_value)

fun diskOpts :: "string \<Rightarrow> string \<Rightarrow> nat \<Rightarrow> disk list \<Rightarrow> qopt list" where
  "diskOpts bus suf i [] = []"
| "diskOpts bus suf i (d # ds) =
     Opt ''-drive'' (driveArg i d (the (diskFormat (disk_Type d)))) # Opt ''-device'' (blkArg bus suf i d) # diskOpts bus suf (Suc i) ds"

lemma diskLoop_Inr:
  "diskLoop bus suf i ds = Inr as \<Longrightarrow> readOpts as = Some (diskOpts bus suf i ds) \<and> (\<forall>d\<in>set ds. disk_Type d \<noteq> DisktypeUnknown)"
proof (induction bus suf i ds arbitrary: as rule: diskLoop.induct)
  case (2 bus suf i d ds)
  obtain f where f: "diskFormat (disk_Type d) = Some f" using "2.prems" by (cases "diskFormat (disk_Type d)") auto
  obtain rest where r: "diskLoop bus suf (Suc i) ds = Inr rest" and as: "as = [''-drive'', driveArg i d f, ''-device'', blkArg bus suf i d] @ rest"
    using "2.prems" f by (auto split: sum.splits)
  have "disk_Type d \<noteq> DisktypeUnknown" using f by (auto simp: diskFormat_def)
  with "2.IH" [OF f r] f as show ?case by (auto intro!: readOpts_value)
qed simp

lemma diskLoop_total: "\<forall>d\<in>set ds. disk_Type d \<noteq> DisktypeUnknown \<Longrightarrow> \<exists>as. diskLoop bus suf i ds = Inr as"
  by (induction bus suf i ds rule: diskLoop.induct) (auto simp: diskFormat_def split: disktype.splits)

lemma diskArgs_Inr:
  assumes "diskArgs bus suf ds = Inr as"
  shows "readOpts as = Some ((if ds = [] then [] else [Opt ''-object'' ''iothread,id=iothread1'']) @ diskOpts bus suf 0 ds)"
    and "\<forall>d\<in>set ds. disk_Type d \<noteq> DisktypeUnknown"
  using assms by (auto simp: diskArgs_def split: if_splits sum.splits dest!: diskLoop_Inr intro!: readOpts_value)

text \<open>Which values the options of interest have.\<close>

lemma optValues_net:
  "optValues ''-netdev'' (netOpts bus suf i nws) = map netdevArg [i..<i + length nws]"
  "optValues ''-device'' (netOpts bus suf i nws) = map2 (nicArg bus suf) [i..<i + length nws] nws"
  "optValues ''-drive'' (netOpts bus suf i nws) = []"
  by (induction bus suf i nws rule: netOpts.induct) (simp_all add: upt_conv_Cons del: upt_Suc)

lemma optValues_disk:
  "optValues ''-netdev'' (diskOpts bus suf i ds) = []"
  "optValues ''-device'' (diskOpts bus suf i ds) = map2 (blkArg bus suf) [i..<i + length ds] ds"
  "optValues ''-drive'' (diskOpts bus suf i ds) = map2 (\<lambda>i d. driveArg i d (the (diskFormat (disk_Type d)))) [i..<i + length ds] ds"
  by (induction bus suf i ds rule: diskOpts.induct) (simp_all add: upt_conv_Cons del: upt_Suc)

lemma properties_Cons: "CHR '','' \<notin> set p \<Longrightarrow> properties (p @ '','' @ r) = p # properties r"
  unfolding properties_def by (induction p) auto

lemma properties_last: "CHR '','' \<notin> set p \<Longrightarrow> properties p = [p]"
  unfolding properties_def by (induction p) auto

lemma Itoa_no_comma [simp]: "CHR '','' \<notin> set (Itoa i)"
proof -
  have "CHR '','' \<notin> set (showNat n)" for n
    using showNat_digits [of n] by (auto simp: list_all_iff isDigit_def)
  then show ?thesis by (simp add: Itoa_def)
qed

lemma netdev_properties:
  "properties (netdevArg i) = [''tap'', ''id=net'' @ Itoa (int i), ''vhost=on'', ''fd='' @ Itoa (int i + 3)]"
proof -
  have "netdevArg i = ''tap'' @ '','' @ (''id=net'' @ Itoa (int i)) @ '','' @ ''vhost=on'' @ '','' @ (''fd='' @ Itoa (int i + 3))"
    by (simp add: netdevArg_def)
  then show ?thesis by (simp only:) (subst properties_Cons | subst properties_last | simp)+
qed

section \<open>The machine that QEMU builds\<close>

text \<open>
  The value of a property; the backend with an identifier; the disks with their serial number and
  the file behind them; the network cards with their hardware address and descriptor.
\<close>

definition propOf :: "string \<Rightarrow> string list \<Rightarrow> string option" where
  "propOf key ps = map_option (drop (Suc (length key))) (find (\<lambda>p. HasPrefix p (key @ ''='')) ps)"

definition backend :: "string \<Rightarrow> string \<Rightarrow> qopt list \<Rightarrow> string list option" where
  "backend flag name os = find (\<lambda>ps. propOf ''id'' ps = Some name) (map properties (optValues flag os))"

definition devices :: "string \<Rightarrow> qopt list \<Rightarrow> string list" where
  "devices kind os = filter (\<lambda>v. HasPrefix v kind) (optValues ''-device'' os)"

definition guestDisk :: "qopt list \<Rightarrow> string \<Rightarrow> string option \<times> string option" where
  "guestDisk os v = (propOf ''serial'' (properties v),
     Option.bind (propOf ''drive'' (properties v)) (\<lambda>i. Option.bind (backend ''-drive'' i os) (propOf ''file'')))"

definition guestNic :: "qopt list \<Rightarrow> string \<Rightarrow> string option \<times> string option" where
  "guestNic os v = (propOf ''mac'' (properties v),
     Option.bind (propOf ''netdev'' (properties v)) (\<lambda>i. Option.bind (backend ''-netdev'' i os) (propOf ''fd'')))"

definition guestDisks :: "qopt list \<Rightarrow> (string option \<times> string option) list" where
  "guestDisks os = map (guestDisk os) (devices ''virtio-blk-'' os)"

definition guestNics :: "qopt list \<Rightarrow> (string option \<times> string option) list" where
  "guestNics os = map (guestNic os) (devices ''virtio-net-'' os)"

abbreviation plain :: "string \<Rightarrow> bool" where "plain s \<equiv> CHR '','' \<notin> set s"

definition plainDisk :: "disk \<Rightarrow> bool" where
  "plainDisk d \<longleftrightarrow> plain (disk_Path d) \<and> plain (disk_Cache d) \<and> plain (disk_Serial d)"

lemma diskId_plain [simp]: "plain (diskId i)" by (simp add: diskId_def)
lemma diskAio_plain [simp]: "plain (diskAio d)" by (simp add: diskAio_def)
lemma diskId_inj [simp]: "diskId i = diskId j \<longleftrightarrow> i = j" using Itoa_inj by (fastforce simp: diskId_def)

lemma drive_properties:
  assumes "plainDisk d" and "plain f"
  shows "properties (driveArg i d f) =
    [''file='' @ disk_Path d, ''if=none'', ''format='' @ f, ''cache='' @ disk_Cache d, ''aio='' @ diskAio d, ''id='' @ diskId i]"
proof -
  have "driveArg i d f = (''file='' @ disk_Path d) @ '','' @ ''if=none'' @ '','' @ (''format='' @ f) @ '',''
      @ (''cache='' @ disk_Cache d) @ '','' @ (''aio='' @ diskAio d) @ '','' @ (''id='' @ diskId i)"
    by (simp add: driveArg_def)
  with assms show ?thesis by (simp only: plainDisk_def) (subst properties_Cons | subst properties_last | simp)+
qed

lemma blk_properties:
  assumes "plainDisk d" and "plain bus"
  shows "properties (blkArg bus suf i d) =
    (''virtio-blk-'' @ bus) # (''serial='' @ disk_Serial d) # (''drive='' @ diskId i) # properties (''iothread=iothread1'' @ suf)"
proof -
  have "blkArg bus suf i d = (''virtio-blk-'' @ bus) @ '','' @ (''serial='' @ disk_Serial d) @ '','' @ (''drive='' @ diskId i) @ '',''
      @ (''iothread=iothread1'' @ suf)"
    by (simp add: blkArg_def)
  with assms show ?thesis by (simp only: plainDisk_def) (subst properties_Cons | simp)+
qed

text \<open>What follows the hardware address is nothing, or properties of their own.\<close>

lemma nic_properties:
  assumes "plain (nw_MacAddress nw)" and "plain bus" and "suf = [] \<or> HasPrefix suf '',''"
  shows "\<exists>r. properties (nicArg bus suf i nw) =
    (''virtio-net-'' @ bus) # (''netdev=net'' @ Itoa (int i)) # (''mac='' @ nw_MacAddress nw) # r"
proof -
  have arg: "nicArg bus suf i nw = (''virtio-net-'' @ bus) @ '','' @ (''netdev=net'' @ Itoa (int i)) @ '',''
      @ ((''mac='' @ nw_MacAddress nw) @ suf)" by (simp add: nicArg_def)
  obtain r where "properties ((''mac='' @ nw_MacAddress nw) @ suf) = (''mac='' @ nw_MacAddress nw) # r"
  proof (cases "suf = []")
    case True
    with assms(1) properties_last [of "''mac='' @ nw_MacAddress nw"] that show thesis by simp
  next
    case False
    with assms(3) obtain s where "suf = '','' @ s" by (cases suf) (auto simp: HasPrefix_def)
    with assms(1) properties_Cons [of "''mac='' @ nw_MacAddress nw" s] that show thesis by simp
  qed
  with arg assms show ?thesis by (simp only:) (subst properties_Cons | simp)+
qed

lemma find_nth:
  assumes "i < length xs" and "P (xs ! i)" and "\<And>j. j < i \<Longrightarrow> \<not> P (xs ! j)"
  shows "find P xs = Some (xs ! i)"
  using assms by (auto simp: find_Some_iff)

lemma propOf_id_drive:
  "plainDisk d \<Longrightarrow> plain f \<Longrightarrow> propOf ''id'' (properties (driveArg i d f)) = Some (diskId i)"
  by (simp add: drive_properties propOf_def HasPrefix_def)

lemma propOf_file: "plainDisk d \<Longrightarrow> plain f \<Longrightarrow> propOf ''file'' (properties (driveArg i d f)) = Some (disk_Path d)"
  by (simp add: drive_properties propOf_def HasPrefix_def)

lemma propOf_netdev:
  "propOf ''id'' (properties (netdevArg i)) = Some (''net'' @ Itoa (int i))"
  "propOf ''fd'' (properties (netdevArg i)) = Some (Itoa (int i + 3))"
  by (simp_all add: netdev_properties propOf_def HasPrefix_def)

lemma format_plain [simp]: "plain (the (diskFormat ty))" if "ty \<noteq> DisktypeUnknown"
  using that by (cases ty) (simp_all add: diskFormat_def)

lemma backend_drive:
  assumes "optValues ''-drive'' os = map2 (\<lambda>i d. driveArg i d (the (diskFormat (disk_Type d)))) [0..<length ds] ds"
    and "\<forall>d\<in>set ds. plainDisk d \<and> disk_Type d \<noteq> DisktypeUnknown" and "i < length ds"
  shows "Option.bind (backend ''-drive'' (diskId i) os) (propOf ''file'') = Some (disk_Path (ds ! i))"
proof -
  let ?xs = "map properties (optValues ''-drive'' os)"
  have nth: "?xs ! j = properties (driveArg j (ds ! j) (the (diskFormat (disk_Type (ds ! j)))))" if "j < length ds" for j
    using that by (simp add: assms(1))
  have ok: "plainDisk (ds ! j)" "disk_Type (ds ! j) \<noteq> DisktypeUnknown" if "j < length ds" for j
    using assms(2) that by simp_all
  have "backend ''-drive'' (diskId i) os = Some (?xs ! i)"
    unfolding backend_def using assms(3) ok
    by (intro find_nth) (simp_all add: assms(1) nth propOf_id_drive)
  with assms(3) ok show ?thesis by (simp add: nth propOf_file)
qed

lemma backend_netdev:
  assumes "optValues ''-netdev'' os = map netdevArg [0..<n]" and "i < n"
  shows "Option.bind (backend ''-netdev'' (''net'' @ Itoa (int i)) os) (propOf ''fd'') = Some (Itoa (int i + 3))"
proof -
  have "backend ''-netdev'' (''net'' @ Itoa (int i)) os = Some (map properties (optValues ''-netdev'' os) ! i)"
    unfolding backend_def using assms
    by (intro find_nth) (auto simp: propOf_netdev dest: Itoa_inj)
  with assms show ?thesis by (simp add: propOf_netdev)
qed

text \<open>The options before the disks, which name no drive, no disk and no network.\<close>

definition busOf :: "goarch \<Rightarrow> string" where
  "busOf arch = (case arch of Amd64 \<Rightarrow> ''pci'' | S390x \<Rightarrow> ''ccw'')"

definition sufOf :: "goarch \<Rightarrow> vmdata \<Rightarrow> string" where
  "sufOf arch v = (case arch of Amd64 \<Rightarrow> virtioArgs v | S390x \<Rightarrow> [])"

definition neutral :: "qopt list \<Rightarrow> bool" where
  "neutral os \<longleftrightarrow> optValues ''-drive'' os = [] \<and> optValues ''-netdev'' os = []
     \<and> devices ''virtio-blk-'' os = [] \<and> devices ''virtio-net-'' os = []"

lemma devices_append [simp]: "devices k (os @ ps) = devices k os @ devices k ps"
  by (simp add: devices_def)

lemma neutral_append [simp]: "neutral (os @ ps) \<longleftrightarrow> neutral os \<and> neutral ps"
  by (auto simp: neutral_def)

lemma neutral_simps [simp]:
  "neutral []" "neutral (Flag f # os) \<longleftrightarrow> neutral os"
  "neutral (Opt n v # os) \<longleftrightarrow> n \<noteq> ''-drive'' \<and> n \<noteq> ''-netdev''
     \<and> (n = ''-device'' \<longrightarrow> \<not> HasPrefix v ''virtio-blk-'' \<and> \<not> HasPrefix v ''virtio-net-'') \<and> neutral os"
  by (auto simp: neutral_def devices_def)

lemma standalone_members [simp]:
  "''-no-acpi'' \<in> set standalone" "''-nodefaults'' \<in> set standalone" "''-enable-kvm'' \<in> set standalone"
  "''-no-reboot'' \<in> set standalone" "''-no-user-config'' \<in> set standalone"
  by (simp_all add: standalone_def)

lemma readOpts_common: "\<exists>os. readOpts (commonArgs v name cpu socket share) = Some os \<and> neutral os
    \<and> optValues ''-smp'' os = [Itoa (vm_CPU v)] \<and> optValues ''-m'' os = [Itoa (vm_Mem v)] \<and> optValues ''-name'' os = [name]"
  unfolding commonArgs_def
  by (rule exI, rule conjI, (rule readOpts_value readOpts_flag readOpts.simps(1); (simp add: standalone_def HasPrefix_def)?)+)
    (simp add: HasPrefix_def)


text \<open>The whole command line: a neutral part, then the disks, then the networks.\<close>

definition sized :: "vmdata \<Rightarrow> qopt list \<Rightarrow> bool" where
  "sized v os \<longleftrightarrow> optValues ''-smp'' os = [Itoa (vm_CPU v)] \<and> optValues ''-m'' os = [Itoa (vm_Mem v)]
     \<and> optValues ''-name'' os = [take 12 (vm_ContainerID v)]"

definition objectOpts :: "disk list \<Rightarrow> qopt list" where
  "objectOpts ds = (if ds = [] then [] else [Opt ''-object'' ''iothread,id=iothread1''])"

lemma optValues_net_short:
  "n \<noteq> ''-device'' \<Longrightarrow> n \<noteq> ''-netdev'' \<Longrightarrow> optValues n (netOpts bus suf i nws) = []"
  by (induction bus suf i nws rule: netOpts.induct) simp_all

lemma optValues_disk_short:
  "n \<noteq> ''-device'' \<Longrightarrow> n \<noteq> ''-drive'' \<Longrightarrow> optValues n (diskOpts bus suf i ds) = []"
  by (induction bus suf i ds rule: diskOpts.induct) simp_all

lemma neutral_object [simp]: "neutral (objectOpts ds)"
  by (simp add: objectOpts_def)

definition shaped :: "string \<Rightarrow> string \<Rightarrow> vmdata \<Rightarrow> qopt list option \<Rightarrow> bool" where
  "shaped bus suf v r \<longleftrightarrow> (\<exists>pre. r = Some (pre @ objectOpts (vm_Disks v) @ diskOpts bus suf 0 (vm_Disks v) @ netOpts bus suf 0 (vm_Networks v))
     \<and> neutral pre \<and> sized v pre) \<and> 12 \<le> length (vm_ContainerID v) \<and> (\<forall>d\<in>set (vm_Disks v). disk_Type d \<noteq> DisktypeUnknown)"

lemma amd64_shape:
  assumes "qemuArgs_amd64 v socket share K t = (Ret args, t')"
  shows "shaped ''pci'' (virtioArgs v) v (readOpts (tl args))"
proof -
  obtain disks where len: "12 \<le> length (vm_ContainerID v)" "t' = t"
    and d: "diskArgs ''pci'' (virtioArgs v) (vm_Disks v) = Inr disks"
    and args: "tl args = ([''-device'', ''virtio-rng-pci,max-bytes=1024,period=1000'' @ virtioArgs v,
          ''-device'', ''virtio-9p-pci,fsdev=share,mount_tag='' @ filepath_Base share @ virtioArgs v,
          ''-device'', ''virtio-serial-pci'' @ virtioArgs v, ''-serial'', ''chardev:console'', ''-no-acpi''])
         @ commonArgs v (take 12 (vm_ContainerID v)) (''host'' @ cpuArgs v) socket share
         @ (if vs_CID (vm_Vsockd v) \<noteq> 0 then [''-device'', ''vhost-vsock-pci'' @ guestCid v @ virtioArgs v] else [])
         @ disks @ netArgs ''pci'' (virtioArgs v) 0 (vm_Networks v)"
    using assms
    by (auto simp: qemuArgs_amd64_def shortID_def bnd_Ret_iff not_less split: if_splits sum.splits)
  obtain c where c: "readOpts (commonArgs v (take 12 (vm_ContainerID v)) (''host'' @ cpuArgs v) socket share) = Some c"
    "neutral c" "optValues ''-smp'' c = [Itoa (vm_CPU v)]" "optValues ''-m'' c = [Itoa (vm_Mem v)]" "optValues ''-name'' c = [take 12 (vm_ContainerID v)]"
    using readOpts_common by blast
  let ?h = "[Opt ''-device'' (''virtio-rng-pci,max-bytes=1024,period=1000'' @ virtioArgs v),
      Opt ''-device'' (''virtio-9p-pci,fsdev=share,mount_tag='' @ filepath_Base share @ virtioArgs v),
      Opt ''-device'' (''virtio-serial-pci'' @ virtioArgs v), Opt ''-serial'' ''chardev:console'', Flag ''-no-acpi'']"
  let ?s = "if vs_CID (vm_Vsockd v) \<noteq> 0 then [Opt ''-device'' (''vhost-vsock-pci'' @ guestCid v @ virtioArgs v)] else []"
  have "readOpts (tl args) = Some (?h @ c @ ?s @ (objectOpts (vm_Disks v) @ diskOpts ''pci'' (virtioArgs v) 0 (vm_Disks v))
      @ netOpts ''pci'' (virtioArgs v) 0 (vm_Networks v))"
    unfolding args
    by (intro readOpts_append c readOpts_net)
      (use diskArgs_Inr(1) [OF d] in \<open>simp_all add: standalone_def HasPrefix_def objectOpts_def\<close>)
  moreover have "neutral (?h @ c @ ?s)" "sized v (?h @ c @ ?s)" using c by (simp_all add: HasPrefix_def sized_def)
  ultimately show ?thesis
    using len diskArgs_Inr(2) [OF d] unfolding shaped_def by (intro conjI exI [of _ "?h @ c @ ?s"]) simp_all
qed

lemma s390x_shape:
  assumes "qemuArgs_s390x v socket share K t = (Ret args, t')"
  shows "shaped ''ccw'' [] v (readOpts (tl args))"
proof -
  obtain disks where len: "12 \<le> length (vm_ContainerID v)" "t' = t"
    and d: "diskArgs ''ccw'' [] (vm_Disks v) = Inr disks"
    and args: "tl args = ([''-device'', ''virtio-9p-ccw,fsdev=share,mount_tag='' @ filepath_Base share,
          ''-device'', ''virtio-serial-ccw'', ''-device'', ''sclpconsole,chardev=console''])
         @ commonArgs v (take 12 (vm_ContainerID v)) ''host'' socket share
         @ (if vs_CID (vm_Vsockd v) \<noteq> 0 then [''-device'', ''vhost-vsock-ccw'' @ guestCid v] else [])
         @ (if vm_APDevice v \<noteq> [] then [''-device'', ''vfio-ap,sysfsdev='' @ vm_APDevice v] else [])
         @ (if vm_MachineType v = ''z13'' then [''-device'', ''virtio-rng-ccw,max-bytes=1024,period=1000''] else [])
         @ disks @ netArgs ''ccw'' [] 0 (vm_Networks v)"
    using assms
    by (auto simp: qemuArgs_s390x_def shortID_def bnd_Ret_iff not_less split: if_splits sum.splits)
  obtain c where c: "readOpts (commonArgs v (take 12 (vm_ContainerID v)) ''host'' socket share) = Some c"
    "neutral c" "optValues ''-smp'' c = [Itoa (vm_CPU v)]" "optValues ''-m'' c = [Itoa (vm_Mem v)]" "optValues ''-name'' c = [take 12 (vm_ContainerID v)]"
    using readOpts_common by blast
  let ?h = "[Opt ''-device'' (''virtio-9p-ccw,fsdev=share,mount_tag='' @ filepath_Base share),
      Opt ''-device'' ''virtio-serial-ccw'', Opt ''-device'' ''sclpconsole,chardev=console'']"
  let ?s = "(if vs_CID (vm_Vsockd v) \<noteq> 0 then [Opt ''-device'' (''vhost-vsock-ccw'' @ guestCid v)] else [])"
  let ?a = "(if vm_APDevice v \<noteq> [] then [Opt ''-device'' (''vfio-ap,sysfsdev='' @ vm_APDevice v)] else [])"
  let ?z = "(if vm_MachineType v = ''z13'' then [Opt ''-device'' ''virtio-rng-ccw,max-bytes=1024,period=1000''] else [])"
  have "readOpts (tl args) = Some (?h @ c @ ?s @ ?a @ ?z @ (objectOpts (vm_Disks v) @ diskOpts ''ccw'' [] 0 (vm_Disks v))
      @ netOpts ''ccw'' [] 0 (vm_Networks v))"
    unfolding args
    by (intro readOpts_append c readOpts_net)
      (use diskArgs_Inr(1) [OF d] in \<open>simp_all add: standalone_def HasPrefix_def objectOpts_def\<close>)
  moreover have "neutral (?h @ c @ ?s @ ?a @ ?z)" "sized v (?h @ c @ ?s @ ?a @ ?z)" using c by (simp_all add: HasPrefix_def sized_def)
  ultimately show ?thesis
    using len diskArgs_Inr(2) [OF d] unfolding shaped_def by (intro conjI exI [of _ "?h @ c @ ?s @ ?a @ ?z"]) simp_all
qed

lemma qemuArgs_shape:
  "qemuArgs arch v socket share K t = (Ret args, t') \<Longrightarrow> shaped (busOf arch) (sufOf arch v) v (readOpts (tl args))"
  by (cases arch) (auto simp: qemuArgs_def busOf_def sufOf_def dest: amd64_shape s390x_shape)

lemma devices_disks:
  "devices ''virtio-blk-'' (diskOpts bus suf 0 ds) = map2 (blkArg bus suf) [0..<length ds] ds"
  "devices ''virtio-net-'' (diskOpts bus suf 0 ds) = []"
  by (auto simp: devices_def optValues_disk blkArg_def HasPrefix_def filter_id_conv filter_empty_conv)

lemma devices_nets:
  "devices ''virtio-net-'' (netOpts bus suf 0 nws) = map2 (nicArg bus suf) [0..<length nws] nws"
  "devices ''virtio-blk-'' (netOpts bus suf 0 nws) = []"
  by (auto simp: devices_def optValues_net nicArg_def HasPrefix_def filter_id_conv filter_empty_conv)

lemma devices_objects: "devices k (objectOpts ds) = []"
  by (simp add: devices_def objectOpts_def)

lemma qemuArgs_devices:
  assumes "qemuArgs arch v socket share K t = (Ret args, t')"
    and "\<forall>d\<in>set (vm_Disks v). plainDisk d" and "\<forall>nw\<in>set (vm_Networks v). plain (nw_MacAddress nw)"
  shows "\<exists>os. readOpts (tl args) = Some os
    \<and> guestDisks os = map (\<lambda>d. (Some (disk_Serial d), Some (disk_Path d))) (vm_Disks v)
    \<and> guestNics os = map2 (\<lambda>i nw. (Some (nw_MacAddress nw), Some (Itoa (int i + 3)))) [0..<length (vm_Networks v)] (vm_Networks v)"
proof -
  let ?bus = "busOf arch" and ?suf = "sufOf arch v" and ?ds = "vm_Disks v" and ?nws = "vm_Networks v"
  obtain pre where pre: "readOpts (tl args) = Some (pre @ objectOpts ?ds @ diskOpts ?bus ?suf 0 ?ds @ netOpts ?bus ?suf 0 ?nws)"
    "neutral pre" and ty: "\<forall>d\<in>set ?ds. disk_Type d \<noteq> DisktypeUnknown"
    using qemuArgs_shape [OF assms(1)] by (auto simp: shaped_def)
  define os where "os = pre @ objectOpts ?ds @ diskOpts ?bus ?suf 0 ?ds @ netOpts ?bus ?suf 0 ?nws"
  have bus: "plain ?bus" and suf: "?suf = [] \<or> HasPrefix ?suf '',''"
    by (cases arch; simp add: busOf_def sufOf_def virtioArgs_def HasPrefix_def)+
  have drives: "optValues ''-drive'' os = map2 (\<lambda>i d. driveArg i d (the (diskFormat (disk_Type d)))) [0..<length ?ds] ?ds"
    and netdevs: "optValues ''-netdev'' os = map netdevArg [0..<length ?nws]"
    using pre(2) by (simp_all add: os_def neutral_def objectOpts_def optValues_disk optValues_net)
  have dsk: "devices ''virtio-blk-'' os = map2 (blkArg ?bus ?suf) [0..<length ?ds] ?ds"
    and nics: "devices ''virtio-net-'' os = map2 (nicArg ?bus ?suf) [0..<length ?nws] ?nws"
    using pre(2) by (simp_all add: os_def neutral_def devices_objects devices_disks devices_nets)
  have d: "guestDisk os (blkArg ?bus ?suf i (?ds ! i)) = (Some (disk_Serial (?ds ! i)), Some (disk_Path (?ds ! i)))" if i: "i < length ?ds" for i
    using blk_properties [OF _ bus, of "?ds ! i" ?suf i] backend_drive [OF drives _ i] assms(2) ty i
    by (simp add: guestDisk_def propOf_def HasPrefix_def)
  have n: "guestNic os (nicArg ?bus ?suf i (?nws ! i)) = (Some (nw_MacAddress (?nws ! i)), Some (Itoa (int i + 3)))" if i: "i < length ?nws" for i
  proof -
    obtain r where "properties (nicArg ?bus ?suf i (?nws ! i)) =
        (''virtio-net-'' @ ?bus) # (''netdev=net'' @ Itoa (int i)) # (''mac='' @ nw_MacAddress (?nws ! i)) # r"
      using nic_properties [OF _ bus suf] assms(3) i by (metis nth_mem)
    with backend_netdev [OF netdevs i] show ?thesis by (simp add: guestNic_def propOf_def HasPrefix_def)
  qed
  have "guestDisks os = map (\<lambda>d. (Some (disk_Serial d), Some (disk_Path d))) ?ds"
    unfolding guestDisks_def dsk by (rule nth_equalityI) (simp_all add: d)
  moreover have "guestNics os = map2 (\<lambda>i nw. (Some (nw_MacAddress nw), Some (Itoa (int i + 3)))) [0..<length ?nws] ?nws"
    unfolding guestNics_def nics by (rule nth_equalityI) (simp_all add: n)
  ultimately show ?thesis using pre(1) by (auto simp: os_def)
qed

section \<open>Properties\<close>

text \<open>
  C27: The command line of QEMU is well formed on both architectures: behind the program, every
  argument is an option that stands alone or an option with its value, and it has the number of
  processors, the memory and the name of the virtual machine exactly once. It is built only if the
  container's ID has twelve characters and the type of every disk is known.
\<close>

theorem command_line_well_formed:
  assumes "qemuArgs arch v socket share K t = (Ret args, t')"
  shows "\<exists>os. readOpts (tl args) = Some os \<and> sized v os \<and> 12 \<le> length (vm_ContainerID v)
    \<and> list_all (\<lambda>d. disk_Type d \<noteq> DisktypeUnknown) (vm_Disks v)"
  using qemuArgs_shape [OF assms]
  by (auto simp: shaped_def sized_def optValues_net_short optValues_disk_short objectOpts_def list_all_iff)

definition demo_vm :: vmdata where
  "demo_vm = \<lparr>vm_APDevice = [], vm_ContainerID = ''0123456789ab'', vm_CPU = 1, vm_Disks = [
       \<lparr>disk_Cache = ''none'', disk_Dir = ''/data'', disk_Fstype = ''ext4'', disk_ID = ''d1'', disk_Mount = True,
        disk_Path = ''/dev/runq/d1/none/ext4/data'', disk_Serial = ''000102030405'', disk_Type = RawFile\<rparr>],
     vm_DNS = \<lparr>dns_Server = [], dns_Options = [], dns_Search = [], dns_Preserve = True\<rparr>, vm_GitCommit = [],
     vm_Hostname = [], vm_MachineType = [], vm_Mem = 256, vm_Mounts = [], vm_NestedVM = False,
     vm_Networks = [\<lparr>nw_Name = ''eth0'', nw_MacAddress = ''02:42:ac'', nw_MTU = 1500, nw_Addrs = [], nw_Gateway = None, nw_TapDevice = ''/dev/tap0''\<rparr>],
     vm_NoExec = True, vm_QemuVersion = ''5.2.0'', vm_Rootdisk = [], vm_RootdiskExclude = [], vm_Sysctl = [],
     vm_Entrypoint = \<lparr>user_UID = 0, user_GID = 0, user_AdditionalGids = [], ep_Args = [''/bin/sh''],
       ep_Capabilities = \<lparr>caps_Ambient = [], caps_Bounding = [], caps_Effective = [], caps_Inheritable = [], caps_Permitted = []\<rparr>,
       ep_Cwd = ''/'', ep_DockerInit = [], ep_Env = [], ep_NoNewPrivileges = False, ep_Rlimits = [], ep_Runqenv = False,
       ep_SeccompGob = [], ep_Systemd = False, ep_Terminal = False\<rparr>,
     vm_Vsockd = \<lparr>cert_CACert = [], cert_Cert = [], cert_Key = [], vs_EntrypointPid = 0, vs_EntrypointEnv = [], vs_CID = 0\<rparr>\<rparr>"

lemma demo_vm_args: "\<exists>args t'. qemuArgs S390x demo_vm socket share K t = (Ret args, t')"
  by (simp add: qemuArgs_def qemuArgs_s390x_def demo_vm_def shortID_def diskArgs_def diskFormat_def bnd_def ret_def)

theorem command_line_well_formed_witness:
  "\<exists>args os. qemuArgs S390x demo_vm ''/dev/runq.sock'' ''/rootfs'' quiet_kernel [] = (Ret args, []) \<and> readOpts (tl args) = Some os
    \<and> sized demo_vm os"
proof -
  obtain args t' where run: "qemuArgs S390x demo_vm ''/dev/runq.sock'' ''/rootfs'' quiet_kernel [] = (Ret args, t')"
    using demo_vm_args by blast
  then have "t' = []" by (auto simp: qemuArgs_def qemuArgs_s390x_def shortID_def bnd_Ret_iff split: if_splits sum.splits)
  with command_line_well_formed [OF run] run show ?thesis by blast
qed

end
