(* ===== verification/Proxy_Main.thy ===== *)
theory Proxy_Main
  imports Proxy_Disk Proxy_Network Proxy_Qemu Vs
begin

text \<open>
  \<^verbatim>\<open>cmd/proxy/main.go\<close>: the process that runq starts in place of the container's command. It
  completes the data of the virtual machine from its environment, moves into the root of QEMU, starts
  QEMU, hands the data to init, forwards signals, and ends with the exit code that init sends.
\<close>

section \<open>Completing the data\<close>

definition envNumber :: "string list \<Rightarrow> string \<Rightarrow> string \<Rightarrow> int \<Rightarrow> int io" where
  "envNumber env key what old =
     (let v = os_Getenv env key
      in if v = [] then ret old
         else case Atoi v of
             None \<Rightarrow> fail (Errorf (''invalid value for '' @ what @ '': %s'') [v])
           | Some n \<Rightarrow> ret n)"

definition vmSize :: "string list \<Rightarrow> vmdata \<Rightarrow> vmdata io" where
  "vmSize env v =
     bnd (envNumber env ''RUNQ_CPU'' ''cpu'' (vm_CPU v)) (\<lambda>cpu.
     if cpu < 1 then fail (Errorf ''invalid value for cpu: %d'' [Itoa cpu])
     else bnd (envNumber env ''RUNQ_MEM'' ''memory'' (vm_Mem v)) (\<lambda>mem.
       if mem < MinMem then fail (Errorf ''invalid value for memory: %d'' [Itoa mem])
       else ret (v\<lparr>vm_CPU := cpu, vm_Mem := mem\<rparr>)))"

text \<open>The environment of the container: that of the proxy with the home directory of the user.\<close>

definition vmEnv :: "string list \<Rightarrow> vmdata \<Rightarrow> vmdata io" where
  "vmEnv env v =
     (let ep = vm_Entrypoint v;
          own = filter (\<lambda>s. \<not> HasPrefix s ''HOME='') (os_Environ env)
      in bnd (UserHome (uint (user_UID ep))) (\<lambda>home.
         ret (v\<lparr>vm_Hostname := os_Getenv env ''HOSTNAME'',
                vm_Entrypoint := ep\<lparr>ep_Env := sort (ep_Env ep @ own @ [''HOME='' @ home])\<rparr>\<rparr>)))"

text \<open>A list separated by commas, without empty entries.\<close>

definition commaList :: "string \<Rightarrow> string list" where
  "commaList s = filter (\<lambda>x. x \<noteq> []) (map TrimSpace (Split (CHR '','') s))"

definition envOr :: "string list \<Rightarrow> string \<Rightarrow> (string \<Rightarrow> 'a) \<Rightarrow> 'a \<Rightarrow> 'a" where
  "envOr env key f old = (case os_LookupEnv env key of None \<Rightarrow> old | Some v \<Rightarrow> f v)"

definition vmDNS :: "string list \<Rightarrow> dns \<Rightarrow> dns" where
  "vmDNS env d =
     d\<lparr>dns_Server := envOr env ''RUNQ_DNS'' commaList (dns_Server d),
       dns_Options := envOr env ''RUNQ_DNS_OPTS'' (\<lambda>x. x) (dns_Options d),
       dns_Search := envOr env ''RUNQ_DNS_SEARCH'' (\<lambda>x. x) (dns_Search d),
       dns_Preserve := ToBool (os_Getenv env ''RUNQ_DNS_PRESERVE'')\<rparr>"

definition vmRootdisk :: "string list \<Rightarrow> vmdata \<Rightarrow> vmdata" where
  "vmRootdisk env v =
     v\<lparr>vm_Rootdisk := envOr env ''RUNQ_ROOTDISK'' (\<lambda>x. x) (vm_Rootdisk v),
       vm_RootdiskExclude := vm_RootdiskExclude v @ envOr env ''RUNQ_ROOTDISK_EXCLUDE'' commaList []\<rparr>"

text \<open>The data of vsockd, unless exec is switched off.\<close>

definition vmExec :: "string list \<Rightarrow> vmdata \<Rightarrow> vmdata io" where
  "vmExec env v =
     (let noExec = (vm_NoExec v \<or> ToBool (os_Getenv env ''RUNQ_NOEXEC''))
      in if noExec then ret (v\<lparr>vm_NoExec := True\<rparr>)
         else case ContextID (vm_ContainerID v) of
             Inl e \<Rightarrow> fail e
           | Inr cid \<Rightarrow>
               bnd (ioutil_ReadFile ''/qemu/certs/ca.pem'') (\<lambda>ca.
               bnd (ioutil_ReadFile ''/qemu/certs/cert.pem'') (\<lambda>cert.
               bnd (ioutil_ReadFile ''/qemu/certs/key.pem'') (\<lambda>key.
               ret (v\<lparr>vm_NoExec := False,
                      vm_Vsockd := (vm_Vsockd v)\<lparr>vs_CID := cid, cert_CACert := bytesOf ca, cert_Cert := bytesOf cert,
                        cert_Key := bytesOf key, vs_EntrypointEnv := ep_Env (vm_Entrypoint v)\<rparr>\<rparr>)))))"

text \<open>The init process of Docker is used if it exists where the first argument says.\<close>

definition vmEntrypoint :: "string list \<Rightarrow> entrypoint \<Rightarrow> entrypoint io" where
  "vmEntrypoint env ep0 =
     (let ep = ep0\<lparr>ep_Runqenv := ToBool (os_Getenv env ''RUNQ_RUNQENV''), ep_Systemd := ToBool (os_Getenv env ''RUNQ_SYSTEMD'')\<rparr>
      in case ep_Args ep of
          [] \<Rightarrow> panic ''index out of range''
        | arg0 # _ \<Rightarrow>
            if arg0 = ''/dev/init'' \<or> arg0 = ''/sbin/docker-init''
            then bnd (attempt (os_Stat arg0)) (\<lambda>r. case r of
                Inl _ \<Rightarrow> ret ep | Inr _ \<Rightarrow> ret (ep\<lparr>ep_DockerInit := arg0\<rparr>))
            else ret ep)"

definition completeVmdata :: "goarch \<Rightarrow> string list \<Rightarrow> vmdata \<Rightarrow> vmdata io" where
  "completeVmdata arch env v0 =
     bnd (vmSize env v0) (\<lambda>v1.
     bnd (vmEnv env v1) (\<lambda>v2.
     let d = vmDNS env (vm_DNS v2)
     in thn (writeResolvConf d)
     (let v3 = vmRootdisk env (v2\<lparr>vm_DNS := d\<rparr>)
      in bnd proxy_setupNetwork (\<lambda>nws.
         bnd (updateDisks (vm_Disks v3)) (\<lambda>ds.
         bnd (vmExec env (v3\<lparr>vm_Networks := nws, vm_Disks := ds\<rparr>)) (\<lambda>v4.
         bnd (vmEntrypoint env (vm_Entrypoint v4)) (\<lambda>ep.
         bnd (MachineType arch) (\<lambda>mt.
         thn (note_call (Proc Clearenv))
           (ret (v4\<lparr>vm_Entrypoint := ep, vm_MachineType := mt\<rparr>))))))))))"

section \<open>Running the virtual machine\<close>

definition bindMountKernelModules :: "string \<Rightarrow> unit io" where
  "bindMountKernelModules dest =
     bnd (DirExists ''/lib/modules'') (\<lambda>src.
     if \<not> src then ret ()
     else bnd (DirExists dest) (\<lambda>ex.
       thn (whn (\<not> ex) (mapErr WithStack (os_MkdirAll dest mode0755)))
         (mapErr WithStack (unix_Mount ''/lib/modules'' dest ''bind'' (MS_BIND OR MS_RDONLY) []))))"

definition qemuExe :: "goarch \<Rightarrow> string" where
  "qemuExe arch = (case arch of Amd64 \<Rightarrow> ''/usr/bin/qemu-system-x86_64'' | S390x \<Rightarrow> ''/usr/bin/qemu-system-s390x'')"

text \<open>The regular expression: a fixed text, and three numbers with dots between them.\<close>

definition qemuVersionOf :: "string \<Rightarrow> string option" where
  "qemuVersionOf out =
     (let pre = ''QEMU emulator version '';
          s = drop (length pre) out;
          n1 = takeWhile isDigit s; r1 = dropWhile isDigit s;
          n2 = takeWhile isDigit (tl r1); r2 = dropWhile isDigit (tl r1);
          n3 = takeWhile isDigit (tl r2)
      in if HasPrefix out pre \<and> n1 \<noteq> [] \<and> HasPrefix r1 ''.'' \<and> n2 \<noteq> [] \<and> HasPrefix r2 ''.'' \<and> n3 \<noteq> []
         then Some (n1 @ ''.'' @ n2 @ ''.'' @ n3) else None)"

definition getQemuVersion :: "goarch \<Rightarrow> vmdata \<Rightarrow> vmdata io" where
  "getQemuVersion arch v =
     bnd (exec_CombinedOutput [qemuExe arch, ''-version'']) (\<lambda>(out, err). case err of
         Some e \<Rightarrow> fail e
       | None \<Rightarrow> (case qemuVersionOf out of
             None \<Rightarrow> fail (Errorf ''can't find Qemu version in %q'' [out])
           | Some ver \<Rightarrow> ret (v\<lparr>vm_QemuVersion := ver\<rparr>)))"

definition vmsocket :: string where "vmsocket = ''/dev/runq.sock''"

definition listenChannel :: "string \<Rightarrow> unit io" where
  "listenChannel sock =
     thn (mapErr WithStack (call SysErrno (Proc (ListenCall sock))))
       (note_call (Proc (GoRoutine ''accept'')))"

text \<open>What the machine shares with the guest, and where the kernel modules go.\<close>

definition shareDir :: "vmdata \<Rightarrow> (string \<times> string) io" where
  "shareDir v =
     (if vm_Rootdisk v = [] then ret (''/rootfs'', ''/rootfs/lib/modules'')
      else thn (prepareRootdisk v)
        (thn (unix_Unmount ''/rootfs'' MNT_DETACH) (ret (''/share'', ''/share''))))"

definition openTaps :: "network list \<Rightarrow> unit io" where
  "openTaps nws = forE nws (\<lambda>nw. mapErr WithStack (os_OpenFile (nw_TapDevice nw)))"

definition startQemu :: "string list \<Rightarrow> network list \<Rightarrow> int io" where
  "startQemu args nws =
     (let c = Proc (StartProcess (hd args) args [''Pdeathsig=SIGTERM''] (map nw_TapDevice nws))
      in mapErr WithStack (ask (\<lambda>K t. k_int K t c) (PathError ''fork/exec'' (hd args)) c))"

text \<open>The result of the goroutine that waits for QEMU: an error unless the status is zero.\<close>

definition qemuDone :: "int \<Rightarrow> gerror option io" where
  "qemuDone pid =
     bnd (attempt (ask (\<lambda>K t. k_int K t (Proc (Wait4 pid))) SysErrno (Proc (Wait4 pid)))) (\<lambda>r. case r of
         Inl e \<Rightarrow> ret (Some e)
       | Inr st \<Rightarrow> ret (if st = 0 then None else Some (ExitError (word_of_int st))))"

datatype (plugins only: code size) startup = Acked | QemuGone | TimedOut

text \<open>The first of the acknowledgement, the end of QEMU, and the timeout.\<close>

definition selectStartup :: "int \<Rightarrow> startup io" where
  "selectStartup seconds =
     bnd (attempt (ask (\<lambda>K t. k_int K t (Proc (SelectCall (Itoa seconds)))) SysErrno (Proc (SelectCall (Itoa seconds))))) (\<lambda>r.
       case r of Inr i \<Rightarrow> ret (if i = 0 then Acked else if i = 1 then QemuGone else TimedOut) | Inl _ \<Rightarrow> ret TimedOut)"

definition startTimeout :: "vmdata \<Rightarrow> int" where
  "startTimeout v = 10 + vm_Mem v div 2048"

definition noAck :: "vmdata \<Rightarrow> gerror" where
  "noAck v = Errorf (''no ack msg from init within %d sec'' @ (if vm_NoExec v then [] else ''. Possibly not enough entropy.''))
     [Itoa (startTimeout v)]"

definition signalMsg :: "int \<Rightarrow> msg" where
  "signalMsg sig = \<lparr>msg_Type = msgSignal, msg_Data = [word_of_int sig]\<rparr>"

definition vmdataMsg :: "byte list \<Rightarrow> msg" where
  "vmdataMsg bs = \<lparr>msg_Type = msgVmdata, msg_Data = bs\<rparr>"

definition sendMsg :: "msg \<Rightarrow> unit io" where
  "sendMsg m = note_call (Proc (SendMsg (unat (msg_Type m)) (msg_Data m)))"

text \<open>The goroutine that forwards signals, for the signals it gets.\<close>

definition forwardSignals :: "int list \<Rightarrow> unit io" where
  "forwardSignals sigs = forE sigs (\<lambda>sig. thn (log_Print ''forwarding signal '%#v' to init'') (sendMsg (signalMsg sig)))"

text \<open>Once init has acknowledged the data: wait for the end of QEMU and for the exit code.\<close>

definition superviseVM :: "int \<Rightarrow> network list \<Rightarrow> (int \<times> gerror option) io" where
  "superviseVM pid nws =
     thn (note_call (Proc NotifySignals))
     (thn (note_call (Proc (GoRoutine ''signals'')))
     (thn (mapErr WithStack (unix_Mount ''/'' ''/'' ''none'' (MS_REMOUNT OR MS_NOEXEC) []))
     (bnd (qemuDone pid) (\<lambda>err. case err of
        Some e \<Rightarrow> fail e
      | None \<Rightarrow>
          thn (forE nws (\<lambda>nw. call (PathError ''close'' (nw_TapDevice nw)) (Proc (CloseFd (nw_TapDevice nw)))))
          (bnd (attempt (ask (\<lambda>K t. k_int K t (Proc ChanRecv)) SysErrno (Proc ChanRecv))) (\<lambda>r. case r of
             Inr rc \<Rightarrow> ret (rc, None)
           | Inl _ \<Rightarrow> ret (1, Some (Errorf ''no exit code received from init'' []))))))))"

text \<open>The data goes to init once QEMU runs.\<close>

definition awaitVM :: "vmdata gobenc \<Rightarrow> vmdata \<Rightarrow> int \<Rightarrow> (int \<times> gerror option) io" where
  "awaitVM enc v pid =
     thn (note_call (Proc (GoRoutine ''cmd.Wait'')))
     (case Encode enc v of
        Inl e \<Rightarrow> fail (WithStack e)
      | Inr bs \<Rightarrow>
          thn (sendMsg (vmdataMsg bs))
          (bnd (selectStartup (startTimeout v)) (\<lambda>s. case s of
             Acked \<Rightarrow> superviseVM pid (vm_Networks v)
           | QemuGone \<Rightarrow> bnd (qemuDone pid) (\<lambda>err. ret (1, err))
           | TimedOut \<Rightarrow>
               thn (ignore (call SysErrno (Proc (KillCall pid SIGKILL))))
                 (fail (noAck v)))))"

definition bootVM :: "vmdata gobenc \<Rightarrow> vmdata \<Rightarrow> string list \<Rightarrow> (int \<times> gerror option) io" where
  "bootVM enc v args =
     thn (openTaps (vm_Networks v)) (bnd (startQemu args (vm_Networks v)) (awaitVM enc v))"

record proxyenv =
  pe_gitCommit :: string
  pe_arch :: goarch
  pe_environ :: "string list"
  pe_gunzip :: "byte list \<Rightarrow> byte list option"
  pe_decVmdata :: "vmdata gobdec"
  pe_encVmdata :: "vmdata gobenc"

definition moveMounts :: "unit io" where
  "moveMounts = forE [''/dev'', ''/proc'', ''/sys''] (\<lambda>d. mapErr WithStack (unix_Mount d (''/qemu'' @ d) ''none'' MS_MOVE []))"

text \<open>\<^verbatim>\<open>run\<close> with \<^verbatim>\<open>return 1, err\<close> as an error.\<close>

definition runProxy :: "proxyenv \<Rightarrow> string \<Rightarrow> (int \<times> gerror option) io" where
  "runProxy E b64 =
     (case ZipDecodeBase64 (pe_decVmdata E) (pe_gunzip E) b64 of
        Inl e \<Rightarrow> fail (WithStack e)
      | Inr v0 \<Rightarrow>
          if pe_gitCommit E = [] \<or> vm_GitCommit v0 = [] \<or> vm_GitCommit v0 \<noteq> pe_gitCommit E
          then fail (Errorf ''binary missmatch runq:%q proxy:%q'' [vm_GitCommit v0, pe_gitCommit E])
          else bnd (completeVmdata (pe_arch E) (pe_environ E) v0) (\<lambda>v1.
            thn moveMounts
            (thn (mapErr WithStack (call SysErrno (Mnt (PivotRoot ''/qemu'' ''/qemu/rootfs''))))
            (bnd (shareDir v1) (\<lambda>(share, modulesMountDir).
             thn (bindMountKernelModules modulesMountDir)
             (thn (listenChannel vmsocket)
             (bnd (getQemuVersion (pe_arch E) v1) (\<lambda>v.
              bnd (qemuArgs (pe_arch E) v vmsocket share) (\<lambda>args.
              bootVM (pe_encVmdata E) v args)))))))))"

definition proxy_run :: "proxyenv \<Rightarrow> string \<Rightarrow> (int \<times> gerror option) io" where
  "proxy_run E b64 = bnd (attempt (runProxy E b64)) (\<lambda>r. case r of Inl e \<Rightarrow> ret (1, Some e) | Inr x \<Rightarrow> ret x)"

text \<open>The flags are parsed: whether the version is wanted, and the remaining arguments.\<close>

definition proxy_main :: "proxyenv \<Rightarrow> bool \<Rightarrow> string list \<Rightarrow> int \<Rightarrow> unit io" where
  "proxy_main E version args pid =
     (if version then os_Exit 0
      else case args of
          [b64] \<Rightarrow>
            if pid \<noteq> 1 then thn (log_Print ''Error: must run as PID 1 in container'') (os_Exit 1)
            else bnd (proxy_run E b64) (\<lambda>(rc, err).
              thn (whn (err \<noteq> None) (log_Print ''%+v'')) (os_Exit rc))
        | _ \<Rightarrow> thn (log_Print ''invalid/missing arguments'') (os_Exit 1))"

section \<open>What complete data is\<close>

lemma UserHome_nonempty: "UserHome uid K t = (Ret h, t') \<Longrightarrow> h \<noteq> []"
proof -
  have "passwdHome uid ls \<noteq> []" for ls by (induction ls) (auto simp: Let_def split: option.splits)
  then show "UserHome uid K t = (Ret h, t') \<Longrightarrow> h \<noteq> []"
    by (auto simp: UserHome_def os_Open_def io_defs split: sum.splits)
qed

definition sizeOk :: "vmdata \<Rightarrow> bool" where
  "sizeOk v \<longleftrightarrow> 1 \<le> vm_CPU v \<and> MinMem \<le> vm_Mem v"

text \<open>The environment of the container is that of the image and of the proxy, with one new home.\<close>

definition envOk :: "string list \<Rightarrow> entrypoint \<Rightarrow> entrypoint \<Rightarrow> bool" where
  "envOk env ep ep' \<longleftrightarrow> sorted (ep_Env ep')
     \<and> (\<exists>home. home \<noteq> [] \<and> mset (ep_Env ep') = mset (ep_Env ep)
          + mset (filter (\<lambda>s. \<not> HasPrefix s ''HOME='') (os_Environ env)) + {#''HOME='' @ home#})"

definition execOk :: "string list \<Rightarrow> vmdata \<Rightarrow> vmdata \<Rightarrow> bool" where
  "execOk env v v' \<longleftrightarrow> (vm_NoExec v' \<longleftrightarrow> vm_NoExec v \<or> ToBool (os_Getenv env ''RUNQ_NOEXEC''))
     \<and> (vm_NoExec v' \<or> ContextID (vm_ContainerID v') = Inr (vs_CID (vm_Vsockd v'))
          \<and> vs_EntrypointEnv (vm_Vsockd v') = ep_Env (vm_Entrypoint v'))"

definition disksOk :: "vmdata \<Rightarrow> vmdata \<Rightarrow> bool" where
  "disksOk v v' \<longleftrightarrow> distinct (map disk_ID (vm_Disks v')) \<and> list_all2 disk_ok (vm_Disks v) (vm_Disks v')"

text \<open>What stays as runq sent it.\<close>

definition keptFrom :: "vmdata \<Rightarrow> vmdata \<Rightarrow> bool" where
  "keptFrom v v' \<longleftrightarrow> vm_ContainerID v' = vm_ContainerID v \<and> vm_GitCommit v' = vm_GitCommit v
     \<and> vm_Mounts v' = vm_Mounts v \<and> vm_Sysctl v' = vm_Sysctl v \<and> vm_NestedVM v' = vm_NestedVM v \<and> vm_APDevice v' = vm_APDevice v
     \<and> ep_Args (vm_Entrypoint v') = ep_Args (vm_Entrypoint v) \<and> ep_Capabilities (vm_Entrypoint v') = ep_Capabilities (vm_Entrypoint v)
     \<and> ep_SeccompGob (vm_Entrypoint v') = ep_SeccompGob (vm_Entrypoint v)
     \<and> ep_NoNewPrivileges (vm_Entrypoint v') = ep_NoNewPrivileges (vm_Entrypoint v)
     \<and> user_UID (vm_Entrypoint v') = user_UID (vm_Entrypoint v) \<and> user_GID (vm_Entrypoint v') = user_GID (vm_Entrypoint v)
     \<and> user_AdditionalGids (vm_Entrypoint v') = user_AdditionalGids (vm_Entrypoint v)"

lemma vmSize_Ret: "vmSize env v K t = (Ret v', t') \<Longrightarrow> \<exists>c m. v' = v\<lparr>vm_CPU := c, vm_Mem := m\<rparr> \<and> 1 \<le> c \<and> MinMem \<le> m"
  by (force simp: vmSize_def bnd_Ret_iff split: if_splits)

lemma vmEnv_Ret:
  assumes "vmEnv env v K t = (Ret v', t')"
  obtains home where "home \<noteq> []" and "v' = v\<lparr>vm_Hostname := os_Getenv env ''HOSTNAME'',
     vm_Entrypoint := (vm_Entrypoint v)\<lparr>ep_Env := sort (ep_Env (vm_Entrypoint v)
       @ filter (\<lambda>s. \<not> HasPrefix s ''HOME='') (os_Environ env) @ [''HOME='' @ home])\<rparr>\<rparr>"
proof -
  obtain h u where "UserHome (uint (user_UID (vm_Entrypoint v))) K t = (Ret h, u)"
    and "v' = v\<lparr>vm_Hostname := os_Getenv env ''HOSTNAME'', vm_Entrypoint := (vm_Entrypoint v)\<lparr>ep_Env := sort (ep_Env (vm_Entrypoint v)
       @ filter (\<lambda>s. \<not> HasPrefix s ''HOME='') (os_Environ env) @ [''HOME='' @ h])\<rparr>\<rparr>"
    using assms by (auto simp: vmEnv_def Let_def bnd_Ret_iff)
  with that UserHome_nonempty show thesis by blast
qed

lemma vmExec_Ret:
  assumes "vmExec env v K t = (Ret v', t')"
  shows "execOk env v v' \<and> (\<exists>n vs. v' = v\<lparr>vm_NoExec := n, vm_Vsockd := vs\<rparr>)"
proof (cases "vm_NoExec v \<or> ToBool (os_Getenv env ''RUNQ_NOEXEC'')")
  case True
  with assms have v': "v' = v\<lparr>vm_NoExec := True\<rparr>" by (simp add: vmExec_def)
  then have "v' = v\<lparr>vm_NoExec := True, vm_Vsockd := vm_Vsockd v\<rparr>" by simp
  with v' True show ?thesis unfolding execOk_def by (simp, blast)
next
  case False
  with assms obtain cid vs where "ContextID (vm_ContainerID v) = Inr cid" "v' = v\<lparr>vm_NoExec := False, vm_Vsockd := vs\<rparr>"
    "vs_CID vs = cid" "vs_EntrypointEnv vs = ep_Env (vm_Entrypoint v)"
    by (cases "ContextID (vm_ContainerID v)") (auto simp: vmExec_def bnd_Ret_iff)
  with False show ?thesis unfolding execOk_def by (simp, blast)
qed

lemma vmEntrypoint_Ret:
  "vmEntrypoint env ep K t = (Ret ep', t') \<Longrightarrow>
     (\<exists>a b d. ep' = ep\<lparr>ep_Runqenv := a, ep_Systemd := b, ep_DockerInit := d\<rparr>) \<and> ep_Args ep \<noteq> []"
proof (rule conjI)
  assume run: "vmEntrypoint env ep K t = (Ret ep', t')"
  let ?e = "ep\<lparr>ep_Runqenv := ToBool (os_Getenv env ''RUNQ_RUNQENV''), ep_Systemd := ToBool (os_Getenv env ''RUNQ_SYSTEMD'')\<rparr>"
  obtain a as where args: "ep_Args ep = a # as" using run by (cases "ep_Args ep") (simp_all add: vmEntrypoint_def)
  then show "ep_Args ep \<noteq> []" by simp
  have "ep' = ?e \<or> ep' = ?e\<lparr>ep_DockerInit := a\<rparr>"
    using run args by (auto simp: vmEntrypoint_def Let_def os_Stat_def io_defs split: if_splits sum.splits)
  moreover have "?e = ?e\<lparr>ep_DockerInit := ep_DockerInit ep\<rparr>" by simp
  ultimately show "\<exists>a b d. ep' = ep\<lparr>ep_Runqenv := a, ep_Systemd := b, ep_DockerInit := d\<rparr>" by metis
qed

text \<open>The stages of a run that succeeded.\<close>

lemma completeVmdata_Ret:
  assumes "completeVmdata arch env v K t = (Ret v', t')"
  shows "sizeOk v' \<and> envOk env (vm_Entrypoint v) (vm_Entrypoint v') \<and> disksOk v v' \<and> execOk env v v'
    \<and> keptFrom v v' \<and> ep_Args (vm_Entrypoint v') \<noteq> [] \<and> last t' = Done (Proc Clearenv)"
proof -
  define d where "d v = vmDNS env (vm_DNS v)" for v :: vmdata
  define r where "r v = vmRootdisk env (v\<lparr>vm_DNS := d v\<rparr>)" for v :: vmdata
  obtain v1 v2 u1 u2 u5 u6 u7 u8 nws ds v4 ep mt where
      s: "vmSize env v K t = (Ret v1, u1)" and e: "vmEnv env v1 K u1 = (Ret v2, u2)"
    and dsk: "updateDisks (vm_Disks (r v2)) K u5 = (Ret ds, u6)"
    and x: "vmExec env ((r v2)\<lparr>vm_Networks := nws, vm_Disks := ds\<rparr>) K u6 = (Ret v4, u7)"
    and ep: "vmEntrypoint env (vm_Entrypoint v4) K u7 = (Ret ep, u8)"
    and fin: "v' = v4\<lparr>vm_Entrypoint := ep, vm_MachineType := mt\<rparr>" "last t' = Done (Proc Clearenv)"
    using assms by (auto simp: completeVmdata_def Let_def bnd_Ret_iff thn_Ret_iff note_call_Ret_iff d_def r_def)
  obtain c m where v1: "v1 = v\<lparr>vm_CPU := c, vm_Mem := m\<rparr>" "1 \<le> c" "MinMem \<le> m" using vmSize_Ret [OF s] by blast
  obtain home where v2: "home \<noteq> []" "v2 = v1\<lparr>vm_Hostname := os_Getenv env ''HOSTNAME'',
      vm_Entrypoint := (vm_Entrypoint v1)\<lparr>ep_Env := sort (ep_Env (vm_Entrypoint v1)
        @ filter (\<lambda>s. \<not> HasPrefix s ''HOME='') (os_Environ env) @ [''HOME='' @ home])\<rparr>\<rparr>" by (rule vmEnv_Ret [OF e])
  have disks: "distinct (map disk_ID ds)" "list_all2 disk_ok (vm_Disks v) ds"
    using updateLoop_Ret [of "[]" "vm_Disks v" K u5 ds u6] dsk by (simp_all add: updateDisks_def r_def vmRootdisk_def v2 v1)
  obtain n vs where v4: "execOk env ((r v2)\<lparr>vm_Networks := nws, vm_Disks := ds\<rparr>) v4"
    "v4 = (r v2)\<lparr>vm_Networks := nws, vm_Disks := ds, vm_NoExec := n, vm_Vsockd := vs\<rparr>" using vmExec_Ret [OF x] by blast
  obtain a b i where ep': "ep = (vm_Entrypoint v4)\<lparr>ep_Runqenv := a, ep_Systemd := b, ep_DockerInit := i\<rparr>"
    "ep_Args (vm_Entrypoint v4) \<noteq> []" using vmEntrypoint_Ret [OF ep] by blast
  have size: "sizeOk v'" using v1 by (simp add: sizeOk_def fin v4 r_def vmRootdisk_def v2)
  have env: "envOk env (vm_Entrypoint v) (vm_Entrypoint v')"
    unfolding envOk_def using v2(1) by (auto simp: fin ep' v4 r_def vmRootdisk_def v2 v1 ac_simps)
  have exec: "execOk env v v'"
    using v4(1) by (auto simp: execOk_def fin ep' v4(2) r_def vmRootdisk_def v2 v1)
  have kept: "keptFrom v v'" by (simp add: keptFrom_def fin ep' v4 r_def vmRootdisk_def v2 v1)
  have "disksOk v v'" "ep_Args (vm_Entrypoint v') \<noteq> []" using disks ep'(2) by (simp_all add: disksOk_def fin ep'(1) v4(2))
  with size env exec kept fin(2) show ?thesis by blast
qed

section \<open>Where a process is started\<close>

text \<open>What a predicate on calls must allow for everything before the start of QEMU to stay within it.\<close>

locale proxy_footprint =
  fixes P :: "syscall \<Rightarrow> bool"
  assumes files: "P (Fs f)" and mounts: "P (Mnt m)" and net: "P (Net n)" and logs: "P (Proc (LogPrint s))"
    and helpers: "P (Proc (CombinedOutput as))" and random: "P (Proc (RandRead i))" and clear: "P (Proc Clearenv)"
    and listens: "P (Proc (ListenCall l))" and spawns: "P (Proc (GoRoutine g))" and closes: "P (Proc (CloseFd fd))"
    and loops: "P (Proc LoopGetFree)" "P (Proc (LoopSetFd a b))" "P (Proc (LoopClrFd a))"
begin

lemmas allowed = files mounts net logs helpers random clear listens spawns closes loops

lemma setupNetwork: "emits P proxy_setupNetwork"
proof -
  have tap: "emits P (setupTap i l)" for i l
    unfolding setupTap_def createTapDevice_def Let_def by (intro emits_intros emits_MajorMinor) (simp_all add: allowed)
  have "emits P (setupLinks i ls)" for i ls
    by (induction i ls rule: setupLinks.induct) (auto simp: allowed intro!: emits_intros tap)
  then show ?thesis unfolding proxy_setupNetwork_def by (intro emits_intros) (simp_all add: allowed)
qed

lemma resolv: "emits P (writeResolvConf d)"
proof -
  have "emits P (onLocalNet a ss)" for a ss
    by (induction ss) (auto simp: allowed intro!: emits_intros split: option.splits prod.splits)
  then have "emits P (proxyIPisValid a)" for a
    unfolding proxyIPisValid_def by (intro emits_intros) (simp_all add: allowed)
  then have "emits P (firstValid h as)" for h as
    by (induction as) (auto simp: allowed intro!: emits_intros)
  then have "emits P (proxyIP h)" for h
    unfolding proxyIP_def by (intro emits_intros) (simp_all add: allowed)
  then have "emits P (nameservers nss)" for nss
    by (induction nss) (auto simp: allowed intro!: emits_intros split: option.splits)
  then show ?thesis unfolding writeResolvConf_def by (intro emits_intros) (simp_all add: allowed)
qed

lemma disktype: "emits P (disktype p)"
  unfolding disktype_def Let_def by (intro emits_intros) (simp_all add: allowed)

lemma updateDisks: "emits P (updateDisks ds)"
proof -
  have "emits P (updateDisk ids d)" for ids d
    unfolding updateDisk_def RandStr_def rand_Read_def Let_def by (intro emits_intros disktype) (simp_all add: allowed)
  then have "emits P (updateLoop ids ds)" for ids ds
    by (induction ids ds rule: updateLoop.induct) (auto simp: allowed intro!: emits_intros)
  then show ?thesis unfolding updateDisks_def .
qed

lemma complete: "emits P (completeVmdata arch env v)"
proof -
  have "emits P (vmSize env v)" for v
    unfolding vmSize_def envNumber_def Let_def by (intro emits_intros)
  moreover have "emits P (vmEnv env v)" for v
    unfolding vmEnv_def UserHome_def Let_def by (intro emits_intros) (simp_all add: allowed)
  moreover have "emits P (vmExec env v)" for v
    unfolding vmExec_def Let_def by (intro emits_intros) (simp_all add: allowed)
  moreover have "emits P (vmEntrypoint env ep)" for ep
    unfolding vmEntrypoint_def Let_def by (intro emits_intros) (auto simp: allowed intro!: emits_intros split: list.splits)
  moreover have "emits P (MachineType arch)"
    unfolding MachineType_def Let_def by (intro emits_intros) (simp_all add: allowed)
  ultimately show ?thesis
    unfolding completeVmdata_def Let_def
    by (intro emits_intros setupNetwork resolv updateDisks) (simp_all add: allowed)
qed

lemma share: "emits P (shareDir v)"
proof -
  have "emits P (fillRootdisk excl)" for excl
    unfolding fillRootdisk_def umountRootdisk_def dirIsEmpty_def Let_def by (intro emits_intros) (simp_all add: allowed)
  then have "emits P (prepareRootdisk v)"
    unfolding prepareRootdisk_def e2fsck_def loopback_New_def loopback_Attach_def loopback_Detach_def Let_def
    by (intro emits_intros disktype) (simp_all add: allowed)
  then show ?thesis unfolding shareDir_def by (intro emits_intros) (simp_all add: allowed)
qed

lemma pre:
  "emits P moveMounts" "emits P (bindMountKernelModules d)" "emits P (listenChannel s)"
  "emits P (getQemuVersion arch v)" "emits P (openTaps nws)"
  unfolding moveMounts_def bindMountKernelModules_def listenChannel_def getQemuVersion_def openTaps_def
  by (intro emits_intros; simp add: allowed)+

lemma qemuArgs: "emits P (qemuArgs arch v socket share)"
  unfolding qemuArgs_def qemuArgs_amd64_def qemuArgs_s390x_def shortID_def
  by (cases arch) (auto simp: allowed intro!: emits_intros)

end

interpretation booting: proxy_footprint notStart
  by unfold_locales simp_all

lemma emits_qemuDone: "emits notStart (qemuDone pid)"
  unfolding qemuDone_def by (intro emits_intros) simp_all

lemma emits_start_after:
  "emits notStart (superviseVM pid nws)" "emits notStart (selectStartup n)" "emits notStart (sendMsg m)"
  unfolding superviseVM_def selectStartup_def sendMsg_def
  by (intro emits_intros emits_qemuDone; simp)+

lemma emits_awaitVM_tail: "emits notStart (bnd (selectStartup n) (\<lambda>s. case s of
     Acked \<Rightarrow> superviseVM pid nws
   | QemuGone \<Rightarrow> bnd (qemuDone pid) (\<lambda>err. ret (1, err))
   | TimedOut \<Rightarrow> thn (ignore (call SysErrno (Proc (KillCall pid SIGKILL)))) (fail e)))"
  by (intro emits_intros emits_start_after) (auto intro!: emits_intros emits_start_after emits_qemuDone split: startup.splits)

lemma emits_awaitVM: "emits notStart (awaitVM enc v pid)"
  unfolding awaitVM_def by (intro emits_intros emits_start_after emits_awaitVM_tail) simp_all

lemma singles_bootVM:
  "singles notStart K (bootVM enc v args)
     (\<lambda>c. c = Proc (StartProcess (hd args) args [''Pdeathsig=SIGTERM''] (map nw_TapDevice (vm_Networks v))))"
  unfolding bootVM_def
  by (intro singles_thn singles_start booting.pre emits_awaitVM)
    (auto simp: startQemu_def Let_def io_defs split: sum.splits)

lemma getQemuVersion_Ret: "getQemuVersion arch v K t = (Ret v', t') \<Longrightarrow> \<exists>ver. v' = v\<lparr>vm_QemuVersion := ver\<rparr>"
  by (auto simp: getQemuVersion_def bnd_Ret_iff split: option.splits prod.splits)

definition sameBuild :: "proxyenv \<Rightarrow> vmdata \<Rightarrow> bool" where
  "sameBuild E v \<longleftrightarrow> pe_gitCommit E \<noteq> [] \<and> vm_GitCommit v = pe_gitCommit E"

section \<open>The code that the proxy ends with\<close>

definition fromInit :: "kernel \<Rightarrow> int \<Rightarrow> gerror option \<Rightarrow> trace \<Rightarrow> bool" where
  "fromInit K rc err t' \<longleftrightarrow> rc = 1 \<or> err = None \<and> (\<exists>u pid w x. t' = u @ [Done (Proc ChanRecv)] \<and> k_int K u (Proc ChanRecv) = Inr rc
     \<and> u = w @ Done (Proc (Wait4 pid)) # x \<and> k_int K w (Proc (Wait4 pid)) = Inr 0)"

lemma qemuDone_None:
  "qemuDone pid K t = (Ret None, t') \<Longrightarrow> k_int K t (Proc (Wait4 pid)) = Inr 0 \<and> t' = t @ [Done (Proc (Wait4 pid))]"
  by (auto simp: qemuDone_def io_defs split: sum.splits if_splits)

lemma superviseVM_code:
  assumes "superviseVM pid nws K t = (Ret (rc, err), t')"
  shows "fromInit K rc err t'"
proof -
  let ?close = "forE nws (\<lambda>nw. call (PathError ''close'' (nw_TapDevice nw)) (Proc (CloseFd (nw_TapDevice nw))))"
  let ?recv = "bnd (attempt (ask (\<lambda>K t. k_int K t (Proc ChanRecv)) SysErrno (Proc ChanRecv))) (\<lambda>r. case r of
      Inr rc \<Rightarrow> ret (rc, None) | Inl _ \<Rightarrow> ret (1, Some (Errorf ''no exit code received from init'' [])))"
  obtain t1 t2 t3 where q: "qemuDone pid K t1 = (Ret None, t2)" and c: "?close K t2 = (Ret (), t3)" and r: "?recv K t3 = (Ret (rc, err), t')"
    using assms by (auto simp: superviseVM_def thn_Ret_iff [where k = "thn _ _"] thn_Ret_iff [where k = "bnd _ _"]
        bnd_Ret_iff [where m = "qemuDone pid"] split: option.splits)
  have "t3 = t2 @ map (\<lambda>nw. Done (Proc (CloseFd (nw_TapDevice nw)))) nws" by (rule forE_call_Ret [OF c])
  with qemuDone_None [OF q] have "t3 = t1 @ Done (Proc (Wait4 pid)) # map (\<lambda>nw. Done (Proc (CloseFd (nw_TapDevice nw)))) nws"
    "k_int K t1 (Proc (Wait4 pid)) = Inr 0" by simp_all
  moreover have "rc = 1 \<or> err = None \<and> t' = t3 @ [Done (Proc ChanRecv)] \<and> k_int K t3 (Proc ChanRecv) = Inr rc"
    using r by (auto simp: io_defs split: sum.splits)
  ultimately show ?thesis unfolding fromInit_def by blast
qed

lemma fromInit_failed [simp]: "fromInit K 1 err t"
  by (simp add: fromInit_def)

lemma bootVM_code: "post K (bootVM enc v args) (\<lambda>(rc, err) t'. fromInit K rc err t')"
  unfolding bootVM_def awaitVM_def
proof (intro post_intros)
  fix pid s
  show "post K (case s of
      Acked \<Rightarrow> superviseVM pid (vm_Networks v)
    | QemuGone \<Rightarrow> bnd (qemuDone pid) (\<lambda>err. ret (1, err))
    | TimedOut \<Rightarrow> thn (ignore (call SysErrno (Proc (KillCall pid SIGKILL))))
        (fail (noAck v)))
    (\<lambda>(rc, err) t'. fromInit K rc err t')"
    by (cases s) (auto intro!: post_intros simp: post_def [of K "superviseVM _ _"] dest: superviseVM_code)
qed

lemma post_proxy_run:
  assumes "post K (runProxy E b64) Q" and "\<And>e t. Q (1, Some e) t"
  shows "post K (proxy_run E b64) Q"
  unfolding post_def
proof (intro allI impI)
  fix t x t'
  assume "proxy_run E b64 K t = (Ret x, t')"
  moreover obtain r u where "runProxy E b64 K t = (r, u)" by force
  ultimately show "Q x t'"
    using postD [OF assms(1)] assms(2) by (cases r) (auto simp: proxy_run_def bnd_def attempt_def ret_def)
qed

lemma proxy_run_code: "post K (proxy_run E b64) (\<lambda>(rc, err) t'. fromInit K rc err t')"
  by (rule post_proxy_run) (auto simp: runProxy_def intro!: post_intros bootVM_code)

section \<open>The machine that is started and the data that is sent\<close>

definition beforeBoot :: "syscall \<Rightarrow> bool" where
  "beforeBoot c \<longleftrightarrow> (case c of Proc (StartProcess p a x f) \<Rightarrow> False | Proc (SendMsg ty bs) \<Rightarrow> False | _ \<Rightarrow> True)"

interpretation preparing: proxy_footprint beforeBoot
  by unfold_locales (simp_all add: beforeBoot_def)

text \<open>QEMU is started for the data \<open>v\<close> with \<open>args\<close>, and the message that is sent holds \<open>v\<close>.\<close>

definition bootCalls :: "vmdata gobenc \<Rightarrow> vmdata \<Rightarrow> string list \<Rightarrow> syscall \<Rightarrow> bool" where
  "bootCalls enc v args c \<longleftrightarrow> beforeBoot c
     \<or> c = Proc (StartProcess (hd args) args [''Pdeathsig=SIGTERM''] (map nw_TapDevice (vm_Networks v)))
     \<or> (\<exists>bs. Encode enc v = Inr bs \<and> c = Proc (SendMsg (unat msgVmdata) bs))"

lemma bootCalls_simps [simp]:
  "bootCalls enc v args (Fs f)" "bootCalls enc v args (Mnt m)" "bootCalls enc v args (Proc NotifySignals)"
  "bootCalls enc v args (Proc (GoRoutine g))" "bootCalls enc v args (Proc (Wait4 p))" "bootCalls enc v args (Proc (CloseFd fd))"
  "bootCalls enc v args (Proc ChanRecv)" "bootCalls enc v args (Proc (SelectCall sel))" "bootCalls enc v args (Proc (KillCall p k))"
  "bootCalls enc v args (Proc (StartProcess (hd args) args [''Pdeathsig=SIGTERM''] (map nw_TapDevice (vm_Networks v))))"
  "Encode enc v = Inr bs \<Longrightarrow> bootCalls enc v args (Proc (SendMsg (unat msgVmdata) bs))"
  by (simp_all add: bootCalls_def beforeBoot_def)

lemma emits_bootVM: "emits (bootCalls enc v args) (bootVM enc v args)"
proof -
  have done': "emits (bootCalls enc v args) (qemuDone pid)" for pid
    unfolding qemuDone_def by (intro emits_intros) simp_all
  have "emits (bootCalls enc v args) (superviseVM pid nws)" for pid nws
    unfolding superviseVM_def by (intro emits_intros done') simp_all
  then have "emits (bootCalls enc v args) (awaitVM enc v pid)" for pid
    unfolding awaitVM_def selectStartup_def sendMsg_def vmdataMsg_def
    by (intro emits_intros) (auto intro!: emits_intros done' split: startup.splits)
  then show ?thesis
    unfolding bootVM_def openTaps_def startQemu_def Let_def by (intro emits_intros) simp_all
qed

definition boots :: "proxyenv \<Rightarrow> string \<Rightarrow> kernel \<Rightarrow> trace \<Rightarrow> vmdata \<Rightarrow> string list \<Rightarrow> bool" where
  "boots E b64 K t v args \<longleftrightarrow> (\<exists>v0 v1 share t1 t2 t3 t4 t5. ZipDecodeBase64 (pe_decVmdata E) (pe_gunzip E) b64 = Inr v0 \<and> sameBuild E v0
     \<and> completeVmdata (pe_arch E) (pe_environ E) v0 K t = (Ret v1, t1) \<and> getQemuVersion (pe_arch E) v1 K t2 = (Ret v, t3)
     \<and> qemuArgs (pe_arch E) v vmsocket share K t4 = (Ret args, t5))"

definition bootPhase :: "proxyenv \<Rightarrow> string \<Rightarrow> kernel \<Rightarrow> trace \<Rightarrow> trace \<Rightarrow> bool" where
  "bootPhase E b64 K t es \<longleftrightarrow> es = [] \<or> (\<exists>v args. boots E b64 K t v args
     \<and> (\<forall>e\<in>set es. bootCalls (pe_encVmdata E) v args (ev_call e) \<and> (notStart (ev_call e) \<or> alone notStart e es)))"

lemma phase_boot:
  assumes "boots E b64 K t v args"
  shows "phase P K u (bootVM (pe_encVmdata E) v args) (bootPhase E b64 K t)"
proof (rule phase_last [OF emits_bootVM])
  fix es
  assume es: "snd (bootVM (pe_encVmdata E) v args K u) = u @ es" "\<forall>e\<in>set es. bootCalls (pe_encVmdata E) v args (ev_call e)"
  obtain es' where "snd (bootVM (pe_encVmdata E) v args K u) = u @ es'" "\<forall>e\<in>set es'. notStart (ev_call e) \<or> alone notStart e es'"
    using singles_bootVM unfolding singles_def by metis
  with es assms show "bootPhase E b64 K t es" unfolding bootPhase_def by auto
qed

lemma phase_runProxy: "phase beforeBoot K t (runProxy E b64) (bootPhase E b64 K t)"
proof (cases "ZipDecodeBase64 (pe_decVmdata E) (pe_gunzip E) b64")
  case (Inl e)
  then show ?thesis by (auto simp: runProxy_def bootPhase_def intro: phase_silent emits_fail)
next
  case (Inr v0)
  show ?thesis
  proof (cases "pe_gitCommit E = [] \<or> vm_GitCommit v0 = [] \<or> vm_GitCommit v0 \<noteq> pe_gitCommit E")
    case True
    then show ?thesis by (auto simp: runProxy_def Inr bootPhase_def intro: phase_silent emits_fail)
  next
    case False
    have boot: "phase beforeBoot K t5 (bootVM (pe_encVmdata E) v args) (bootPhase E b64 K t)"
      if "completeVmdata (pe_arch E) (pe_environ E) v0 K t = (Ret v1, t1)" "getQemuVersion (pe_arch E) v1 K t2 = (Ret v, t3)"
        "qemuArgs (pe_arch E) v vmsocket share K t4 = (Ret args, t5)" for v args v1 share t1 t2 t3 t4 t5
      by (rule phase_boot) (use that Inr False in \<open>unfold boots_def sameBuild_def, blast\<close>)
    have pivot: "emits beforeBoot (mapErr WithStack (call SysErrno (Mnt (PivotRoot a b))))" for a b
      by (intro emits_intros) (simp add: beforeBoot_def)
    have nil: "bootPhase E b64 K t []" by (simp add: bootPhase_def)
    show ?thesis
      unfolding runProxy_def Inr sum.case if_not_P [OF False]
      by (intro phase_intros nil preparing.complete preparing.pre pivot preparing.share preparing.qemuArgs) (erule (2) boot)
  qed
qed

lemma proxy_run_boot:
  assumes "proxy_run E b64 K t = (r, t @ es)" and "e \<in> set es" and "\<not> beforeBoot (ev_call e)"
  obtains v args es1 es2 where "boots E b64 K t v args" and "es = es1 @ es2" and "\<forall>x\<in>set es1. beforeBoot (ev_call x)"
    and "\<forall>x\<in>set es2. bootCalls (pe_encVmdata E) v args (ev_call x) \<and> (notStart (ev_call x) \<or> alone notStart x es2)"
proof -
  have "phase beforeBoot K t (proxy_run E b64) (bootPhase E b64 K t)"
    unfolding proxy_run_def by (rule phase_attempt [OF phase_runProxy]) (auto simp: ret_def split: sum.split)
  then obtain es1 es2 where "es = es1 @ es2" "\<forall>x\<in>set es1. beforeBoot (ev_call x)" "bootPhase E b64 K t es2"
    using assms(1) by (rule phaseD)
  with assms(2,3) that show thesis unfolding bootPhase_def by auto
qed

section \<open>A run of the proxy\<close>

definition demo_run :: vmdata where
  "demo_run = demo_vm\<lparr>vm_Disks := [], vm_Networks := [], vm_GitCommit := ''8f3a''\<rparr>"

definition demo_proxy :: proxyenv where
  "demo_proxy = \<lparr>pe_gitCommit = ''8f3a'', pe_arch = Amd64, pe_environ = [''RUNQ_DNS_PRESERVE=1''], pe_gunzip = Some,
     pe_decVmdata = (\<lambda>bs. Some demo_run), pe_encVmdata = (\<lambda>v. Some [])\<rparr>"

definition vm_host :: kernel where
  "vm_host = quiet_kernel\<lparr>k_int := (\<lambda>t c. case c of Proc ChanRecv \<Rightarrow> Inr 42 | _ \<Rightarrow> Inr 0),
     k_cmd := (\<lambda>t a. (''QEMU emulator version 5.2.0'', None))\<rparr>"

lemma vm_host_simps [simp]:
  "k_do vm_host t c = None" "k_file vm_host t p = Inr ([], None)" "k_stat vm_host t p = Inl ENOENT"
  "k_links vm_host t = Inr []" "k_cmd vm_host t a = (''QEMU emulator version 5.2.0'', None)"
  "k_int vm_host t c = (case c of Proc ChanRecv \<Rightarrow> Inr 42 | _ \<Rightarrow> Inr 0)"
  by (simp_all add: vm_host_def quiet_kernel_def)

lemma demo_env:
  "os_LookupEnv (pe_environ demo_proxy) ''RUNQ_DNS_PRESERVE'' = Some ''1''" "ToBool ''1''" "\<not> ToBool []"
  "os_LookupEnv (pe_environ demo_proxy) ''RUNQ_CPU'' = None" "os_LookupEnv (pe_environ demo_proxy) ''RUNQ_MEM'' = None"
  "os_LookupEnv (pe_environ demo_proxy) ''RUNQ_NOEXEC'' = None" "os_LookupEnv (pe_environ demo_proxy) ''RUNQ_ROOTDISK'' = None"
  by (simp_all add: os_LookupEnv_def demo_proxy_def HasPrefix_def) (code_simp+)

lemma demo_complete:
  obtains v where "yields vm_host (completeVmdata Amd64 (pe_environ demo_proxy) demo_run) v"
    and "vm_ContainerID v = ''0123456789ab''" and "vm_Rootdisk v = []" and "vm_Disks v = []" and "vm_Networks v = []"
    and "vm_NestedVM v = False" and "vm_NoExec v"
proof -
  let ?env = "pe_environ demo_proxy"
  define home where "home = passwdHome 0 (fst (scanLines []))"
  define v2 where "v2 = demo_run\<lparr>vm_Hostname := os_Getenv ?env ''HOSTNAME'',
      vm_Entrypoint := (vm_Entrypoint demo_run)\<lparr>ep_Env := sort (ep_Env (vm_Entrypoint demo_run)
        @ filter (\<lambda>s. \<not> HasPrefix s ''HOME='') (os_Environ ?env) @ [''HOME='' @ home])\<rparr>\<rparr>"
  have size: "yields vm_host (vmSize ?env demo_run) demo_run"
    by (simp add: yields_def vmSize_def envNumber_def os_Getenv_def demo_env io_defs demo_run_def demo_vm_def MinMem_def)
  have home: "yields vm_host (UserHome 0) home"
    by (simp add: yields_def UserHome_def os_Open_def io_defs home_def)
  then have env: "yields vm_host (vmEnv ?env demo_run) v2"
    unfolding vmEnv_def v2_def Let_def by (intro yields_bnd) (auto simp: demo_run_def demo_vm_def intro: yields_ret)
  define v3 where "v3 = vmRootdisk ?env (v2\<lparr>vm_DNS := vmDNS ?env (vm_DNS v2)\<rparr>)"
  have dns: "yields vm_host (writeResolvConf (vmDNS ?env (vm_DNS v2))) ()"
    by (simp add: yields_def writeResolvConf_def vmDNS_def os_Getenv_def demo_env io_defs)
  have net: "yields vm_host proxy_setupNetwork []"
    by (simp add: yields_def proxy_setupNetwork_def io_defs)
  have disks: "yields vm_host (updateDisks (vm_Disks v3)) []"
    by (simp add: yields_def updateDisks_def v3_def v2_def vmRootdisk_def demo_run_def io_defs)
  define v4 where "v4 = v3\<lparr>vm_Networks := [], vm_Disks := [], vm_NoExec := True\<rparr>"
  have exec: "yields vm_host (vmExec ?env (v3\<lparr>vm_Networks := [], vm_Disks := []\<rparr>)) v4"
    by (simp add: yields_def vmExec_def v4_def v3_def v2_def vmRootdisk_def demo_run_def demo_vm_def io_defs)
  define ep where "ep = (vm_Entrypoint v4)\<lparr>ep_Runqenv := ToBool (os_Getenv ?env ''RUNQ_RUNQENV''), ep_Systemd := ToBool (os_Getenv ?env ''RUNQ_SYSTEMD'')\<rparr>"
  have ep: "yields vm_host (vmEntrypoint ?env (vm_Entrypoint v4)) ep"
    by (simp add: yields_def vmEntrypoint_def ep_def v4_def v3_def v2_def vmRootdisk_def demo_run_def demo_vm_def io_defs)
  have mt: "yields vm_host (MachineType Amd64) []" by (simp add: yields_def MachineType_def io_defs)
  have "yields vm_host (completeVmdata Amd64 ?env demo_run) (v4\<lparr>vm_Entrypoint := ep, vm_MachineType := []\<rparr>)"
    unfolding completeVmdata_def Let_def
    by (intro yields_bnd [OF size] yields_bnd [OF env] yields_thn [OF dns] yields_bnd [OF net] yields_bnd [OF disks [unfolded v3_def]] yields_bnd [OF exec [unfolded v3_def]]
        yields_bnd [OF ep] yields_bnd [OF mt] yields_thn yields_note_call yields_ret)
  then show thesis
    by (rule that) (simp_all add: v4_def v3_def v2_def vmRootdisk_def envOr_def demo_env demo_run_def demo_vm_def)
qed


lemma vm_host_version: "yields vm_host (getQemuVersion Amd64 v) (v\<lparr>vm_QemuVersion := ''5.2.0''\<rparr>)"
proof -
  have "qemuVersionOf ''QEMU emulator version 5.2.0'' = Some ''5.2.0''" by code_simp
  then show ?thesis by (simp add: yields_def getQemuVersion_def exec_CombinedOutput_def io_defs)
qed

lemma vm_host_boot: "yields vm_host (bootVM enc v args) (42, None)" if "vm_Networks v = []" "enc v = Some bs"
proof -
  have "yields vm_host (awaitVM enc v pid) (42, None)" for pid
    using that by (simp add: yields_def awaitVM_def superviseVM_def Encode_def selectStartup_def sendMsg_def qemuDone_def unix_Mount_def io_defs)
  then show ?thesis
    unfolding bootVM_def openTaps_def that(1) startQemu_def Let_def
    by (auto intro!: yields_thn yields_bnd yields_ret yields_mapErr yields_ask)
qed

lemma demo_proxy_decodes: "ZipDecodeBase64 (pe_decVmdata demo_proxy) (pe_gunzip demo_proxy) [] = Inr demo_run"
  by (simp add: ZipDecodeBase64_def demo_proxy_def DecodeDataGob_def) code_simp

lemma demo_proxy_run_enc:
  "\<exists>v. \<forall>enc bs. enc v = Some bs \<longrightarrow> yields vm_host (proxy_run (demo_proxy\<lparr>pe_encVmdata := enc\<rparr>) []) (42, None)"
proof -
  obtain v where v: "yields vm_host (completeVmdata Amd64 (pe_environ demo_proxy) demo_run) v"
    and vs: "vm_ContainerID v = ''0123456789ab''" "vm_Rootdisk v = []" "vm_Disks v = []" "vm_Networks v = []"
      "vm_NestedVM v = False" "vm_NoExec v" by (rule demo_complete)
  let ?v = "v\<lparr>vm_QemuVersion := ''5.2.0''\<rparr>"
  obtain args where args: "yields vm_host (qemuArgs Amd64 ?v vmsocket ''/rootfs'') args"
    using vs by (simp add: yields_def qemuArgs_def qemuArgs_amd64_def shortID_def diskArgs_def io_defs)
  have share: "yields vm_host (shareDir v) (''/rootfs'', ''/rootfs/lib/modules'')"
    by (simp add: shareDir_def vs yields_ret)
  have pre: "yields vm_host moveMounts ()" "yields vm_host (bindMountKernelModules d) ()" "yields vm_host (listenChannel s) ()" for d s
    by (simp_all add: yields_def moveMounts_def bindMountKernelModules_def DirExists_def listenChannel_def os_call_defs io_defs)
  show ?thesis
  proof (intro exI allI impI)
    fix enc :: "vmdata gobenc" and bs
    assume "enc ?v = Some bs"
    then have boot: "yields vm_host (bootVM enc ?v args) (42, None)" using vs by (intro vm_host_boot) simp_all
    let ?E = "demo_proxy\<lparr>pe_encVmdata := enc\<rparr>"
    have dec: "ZipDecodeBase64 (pe_decVmdata ?E) (pe_gunzip ?E) [] = Inr demo_run" using demo_proxy_decodes by simp
    have "yields vm_host (runProxy ?E []) (42, None)"
      using v share args boot vm_host_version [of v] pre
      unfolding runProxy_def dec sum.case
      by (auto simp: demo_proxy_def demo_run_def intro!: yields_thn yields_call yields_mapErr yields_bnd)
    then show "yields vm_host (proxy_run ?E []) (42, None)"
      unfolding proxy_run_def by (auto intro!: yields_bnd yields_attempt yields_ret)
  qed
qed

lemma demo_proxy_run: "yields vm_host (proxy_run demo_proxy []) (42, None)"
proof -
  have "demo_proxy\<lparr>pe_encVmdata := \<lambda>v. Some []\<rparr> = demo_proxy" by (simp add: demo_proxy_def)
  with demo_proxy_run_enc show ?thesis by metis
qed

text \<open>A code other than 1 comes after a start and the sending of the data.\<close>

definition started :: "(int \<times> gerror option) \<Rightarrow> trace \<Rightarrow> bool" where
  "started r t \<longleftrightarrow> fst r = 1 \<or> (\<exists>e\<in>set t. \<exists>path args attrs files. ev_call e = Proc (StartProcess path args attrs files))
     \<and> (\<exists>e\<in>set t. \<exists>ty bs. ev_call e = Proc (SendMsg ty bs))"

lemma awaitVM_sends:
  assumes "awaitVM enc v pid K t = (Ret x, t')"
  shows "\<exists>e\<in>set t'. \<exists>ty bs. ev_call e = Proc (SendMsg ty bs)"
proof -
  obtain bs where bs: "Encode enc v = Inr bs" using assms by (cases "Encode enc v") (auto simp: awaitVM_def thn_Ret_iff)
  obtain m k u1 u2 where r: "m K u1 = (Ret (), u2)" "k K u2 = (Ret x, t')" and m: "m = sendMsg (vmdataMsg bs)" and k: "emits notStart k"
    using assms emits_awaitVM_tail by (auto simp: awaitVM_def bs thn_Ret_iff)
  obtain es where "t' = u2 @ es" using emits_all [OF k r(2)] by blast
  with r(1) show ?thesis by (auto simp: m sendMsg_def note_call_Ret_iff)
qed

lemma bootVM_started: "post K (bootVM enc v args) started"
  unfolding post_def
proof (intro allI impI)
  fix t x t'
  assume "bootVM enc v args K t = (Ret x, t')"
  then obtain pid t1 t2 where s: "startQemu args (vm_Networks v) K t1 = (Ret pid, t2)" and a: "awaitVM enc v pid K t2 = (Ret x, t')"
    by (auto simp: bootVM_def thn_Ret_iff bnd_Ret_iff)
  obtain es where "t' = t2 @ es" by (rule emitsD [OF emits_awaitVM a])
  moreover have "\<exists>e\<in>set t2. \<exists>path args attrs files. ev_call e = Proc (StartProcess path args attrs files)"
    using s by (auto simp: startQemu_def Let_def io_defs split: sum.splits)
  ultimately show "started x t'" unfolding started_def using awaitVM_sends [OF a] by auto
qed

lemma proxy_run_started: "post K (proxy_run E b64) started"
  by (rule post_proxy_run) (auto simp: runProxy_def started_def intro!: post_intros bootVM_started)

lemma demo_proxy_starts:
  "proxy_run demo_proxy [] vm_host [] = (Ret (42, None), es) \<Longrightarrow>
     \<exists>e\<in>set es. \<exists>path args attrs files. ev_call e = Proc (StartProcess path args attrs files)"
  using postD [OF proxy_run_started] by (fastforce simp: started_def)

text \<open>
  C8: Complete data of a virtual machine is well formed. It has at least one CPU and the least
  memory; the environment of the container is sorted and holds the variables of the image, those of
  the proxy other than \<^verbatim>\<open>HOME\<close>, and one new \<^verbatim>\<open>HOME\<close>; disks have
  pairwise different IDs and agree with what runq sent; unless exec is switched off, the context ID
  is that of the container and vsockd has the environment of the container; what confines the
  container (capabilities, seccomp, user) is as runq sent it; there is a command. The environment
  of the proxy is cleared last.
\<close>

theorem vmdata_completed:
  assumes "completeVmdata arch env v K t = (Ret v', t')"
  shows "sizeOk v' \<and> envOk env (vm_Entrypoint v) (vm_Entrypoint v') \<and> disksOk v v' \<and> execOk env v v'
    \<and> keptFrom v v' \<and> ep_Args (vm_Entrypoint v') \<noteq> [] \<and> last t' = Done (Proc Clearenv)"
  by (rule completeVmdata_Ret [OF assms])

theorem vmdata_completed_witness:
  "\<exists>v' t'. completeVmdata Amd64 [''RUNQ_DNS_PRESERVE=1''] demo_run vm_host [] = (Ret v', t') \<and> sizeOk v' \<and> keptFrom demo_run v'"
proof -
  obtain v' t' where "completeVmdata Amd64 [''RUNQ_DNS_PRESERVE=1''] demo_run vm_host [] = (Ret v', t')"
    using demo_complete yieldsD by (metis demo_proxy_def proxyenv.select_convs(3))
  with vmdata_completed [OF this] show ?thesis by blast
qed





end
