(* ===== verification/RunqExec.thy ===== *)
theory RunqExec
  imports Vsockd Logs
begin

text \<open>
  \<^verbatim>\<open>cmd/runq-exec/main.go\<close>: the client that runs a command in a container. It asks the
  Docker engine for the identifier of the container, derives the context ID of its virtual machine,
  submits the job to vsockd on a control connection, starts it on a second one, and ends with the
  exit code that vsockd reports. Flags are parsed by the pflag package.
\<close>

section \<open>The container\<close>

text \<open>The struct that the reply of the engine is decoded into.\<close>

record inspect =
  in_Runtime :: string
  in_ID :: string
  in_Message :: string
  in_Status :: string

definition inspect0 :: inspect where
  "inspect0 = \<lparr>in_Runtime = [], in_ID = [], in_Message = [], in_Status = []\<rparr>"

text \<open>
  \<^verbatim>\<open>json.Unmarshal(line, &data)\<close> as an argument of the program: the struct afterwards, and
  whether there was no error. A value of the wrong type is an error after which the struct may have
  been changed.
\<close>

type_synonym unmarshal = "inspect \<Rightarrow> string \<Rightarrow> inspect \<times> bool"

text \<open>The regular expression \<^verbatim>\<open>^[a-zA-Z0-9][a-zA-Z0-9_.-]*$\<close>.\<close>

definition nameChar :: "char \<Rightarrow> bool" where
  "nameChar c \<longleftrightarrow> isAlnum c \<or> c = CHR ''_'' \<or> c = CHR ''.'' \<or> c = CHR ''-''"

definition validName :: "string \<Rightarrow> bool" where
  "validName s \<longleftrightarrow> s \<noteq> [] \<and> isAlnum (hd s) \<and> list_all nameChar (tl s)"

text \<open>\<^verbatim>\<open>strings.SplitN(v, "://", 2)\<close>, if there is a separator.\<close>

fun splitScheme :: "string \<Rightarrow> (string \<times> string) option" where
  "splitScheme [] = None"
| "splitScheme (c # cs) =
     (if HasPrefix (c # cs) ''://'' then Some ([], drop 3 (c # cs))
      else map_option (\<lambda>(a, b). (c # a, b)) (splitScheme cs))"

definition dockerHost :: "string list \<Rightarrow> gerror + string \<times> string" where
  "dockerHost env =
     (let v = os_Getenv env ''DOCKER_HOST''
      in if v = [] then Inr (''unix'', ''/var/run/docker.sock'')
         else case splitScheme v of
             None \<Rightarrow> Inl (Errorf ''invalid DOCKER_HOST env: %s'' [v])
           | Some na \<Rightarrow> Inr na)"

text \<open>
  The complete lines of the reply, each with its end of line, up to the first that decodes. After
  the last of them the reader meets the end of the stream, or an error. A reply that never ends has
  no list of lines.
\<close>

fun readReply :: "unmarshal \<Rightarrow> inspect \<Rightarrow> string list \<Rightarrow> inspect io" where
  "readReply um d [] = thn (call SysErrno (Proc (ConnRecv ''docker'' 0))) (ret d)"
| "readReply um d (l # ls) =
     (let (d', ok) = um d l in if ok then ret d' else readReply um d' ls)"

definition inspectRequest :: "string \<Rightarrow> string" where
  "inspectRequest ident = ''GET /containers/'' @ ident @ ''/json HTTP/1.0'' @ [CHR 13, CHR 10, CHR 13, CHR 10]"

definition checkInspect :: "inspect \<Rightarrow> gerror + string" where
  "checkInspect d =
     (if in_Message d \<noteq> [] then Inl (Errorf (in_Message d) [])
      else if in_Runtime d \<noteq> ''runq'' then Inl (Errorf ''container runtime is not runq'' [])
      else if in_Status d \<noteq> ''running'' then Inl (Errorf ''container is not running'' [])
      else if in_ID d = [] then Inl (Errorf ''container not found'' [])
      else Inr (in_ID d))"

definition realContainerID :: "unmarshal \<Rightarrow> string list \<Rightarrow> string \<Rightarrow> string io" where
  "realContainerID um env ident =
     (if \<not> validName ident then fail (Errorf ''invalid container id %s'' [ident])
      else case dockerHost env of
          Inl e \<Rightarrow> fail e
        | Inr (network, address) \<Rightarrow>
            thn (call (ExtError ''dial'') (Proc (DialCall (network @ '' '' @ address))))
            (deferring
              (thn (call SysErrno (Proc (ConnSend ''docker'' (bytesOf (inspectRequest ident)))))
              (bnd (ask (\<lambda>K t. k_strs K t (Proc (ConnRecv ''docker'' 1))) SysErrno (Proc (ConnRecv ''docker'' 1))) (\<lambda>ls.
               bnd (readReply um inspect0 ls) (\<lambda>d. case checkInspect d of Inl e \<Rightarrow> fail e | Inr cid \<Rightarrow> ret cid))))
              (call SysErrno (Proc (CloseFd ''docker'')))))"

section \<open>The job\<close>

record execflags =
  xf_args :: "string list"
  xf_env :: "string list"
  xf_tty :: bool
  xf_stdin :: bool
  xf_tlsCert :: string
  xf_tlsKey :: string
  xf_environ :: "string list"

definition jobOf :: "execflags \<Rightarrow> jobRequest" where
  "jobOf F = \<lparr>jr_Args = tl (xf_args F), jr_Env = xf_env F, jr_WithStdin = xf_stdin F, jr_WithTTY = xf_tty F\<rparr>"

definition vsAddr :: "32 word \<Rightarrow> string" where
  "vsAddr cid = ''vsock '' @ Itoa (uint cid) @ '':'' @ Itoa (int vsPort)"

definition vsDial :: "32 word \<Rightarrow> unit io" where
  "vsDial cid = call (ExtError ''vsock.Dial'') (Proc (DialCall (vsAddr cid)))"

definition controlMsg :: "byte list \<Rightarrow> byte list" where "controlMsg gob = TypeControlConn # gob"

definition executeMsg :: "jobid \<Rightarrow> byte list" where "executeMsg jid = TypeExecuteConn # jid"

text \<open>
  A read of at most \<open>n\<close> bytes.
\<close>

definition connRecv :: "string \<Rightarrow> nat \<Rightarrow> string io" where
  "connRecv c n = bnd (ask (\<lambda>K t. k_str K t (Proc (ConnRecv c n))) SysErrno (Proc (ConnRecv c n))) (\<lambda>s. ret (take n s))"

definition connSend :: "string \<Rightarrow> byte list \<Rightarrow> unit io" where
  "connSend c bs = call SysErrno (Proc (ConnSend c bs))"

text \<open>The goroutine of the control connection: the code it delivers.\<close>

definition exec_wait :: "int io" where
  "exec_wait =
     bnd (attempt (connRecv ''control'' 3)) (\<lambda>r. case r of
       Inl e \<Rightarrow> thn (log_Print ''failed to read exit code: %v'') (ret 1)
     | Inr s \<Rightarrow>
         thn (bnd (attempt (connSend ''control'' [vsDone])) (\<lambda>w. case w of
                Inl e \<Rightarrow> log_Print ''failed to send ack message: %v'' | Inr _ \<Rightarrow> ret ()))
         (case Atoi s of
            None \<Rightarrow> thn (log_Print ''failed to parse exit code: %v'') (ret 1)
          | Some rc \<Rightarrow> ret rc))"

text \<open>
  The goroutine of the execute connection. It delivers a code only when the start fails; the second
  result is whether the terminal was switched to raw mode.
\<close>

definition exec_execute :: "execflags \<Rightarrow> 32 word \<Rightarrow> jobid \<Rightarrow> (int option \<times> bool) io" where
  "exec_execute F cid jid =
     bnd (attempt (vsDial cid)) (\<lambda>r. case r of
       Inl e \<Rightarrow> thn (log_Print ''failed to dial: %v'') (ret (Some 1, False))
     | Inr _ \<Rightarrow>
         deferring
           (bnd (attempt (call (ExtError ''tls'') (Proc (TlsConfig ''handshake'')))) (\<lambda>r. case r of
              Inl e \<Rightarrow> thn (log_Print ''tls handshake failed: %v'') (ret (Some 1, False))
            | Inr _ \<Rightarrow>
                bnd (attempt (connSend ''execute'' (executeMsg jid))) (\<lambda>r. case r of
                  Inl e \<Rightarrow> thn (log_Print ''failed to write: %v'') (ret (Some 1, False))
                | Inr _ \<Rightarrow>
                    bnd (if xf_tty F then attempt (call SysErrno (Proc MakeRaw)) else ret (Inl (SysErrno ENOENT))) (\<lambda>raw.
                    thn (whn (xf_stdin F) (note_call (Proc (GoRoutine ''io.Copy(tlsConn, os.Stdin)''))))
                    (thn (ignore (call SysErrno (Proc (CopyStream ''io.Copy(os.Stdout, tlsConn)''))))
                      (ret (None, \<not> isl raw)))))))
           (call SysErrno (Proc (CloseFd ''execute''))))"

text \<open>
  The channel that both goroutines deliver to holds one code, and \<^verbatim>\<open>run\<close> takes the first.
  The scheduler says whether the goroutine of the control connection is the first; what the other
  one still does is then of no consequence, as the process exits. A goroutine of the execute
  connection that is still copying when the code arrives counts as one whose copy has ended.
\<close>

definition firstDone :: "execflags \<Rightarrow> 32 word \<Rightarrow> jobid \<Rightarrow> (int \<times> bool) io" where
  "firstDone F cid jid =
     thn (note_call (Proc (GoRoutine ''execute'')))
     (thn (note_call (Proc (GoRoutine ''wait'')))
     (bnd (ask (\<lambda>K t. Inr (k_int K t (Proc (SelectCall ''done'')) = Inr 1)) SysErrno (Proc (SelectCall ''done''))) (\<lambda>waitFirst.
      if waitFirst then bnd exec_wait (\<lambda>rc. ret (rc, False))
      else bnd (exec_execute F cid jid) (\<lambda>(r, raw). case r of
          Some rc \<Rightarrow> ret (rc, raw)
        | None \<Rightarrow> bnd exec_wait (\<lambda>rc. ret (rc, raw))))))"

text \<open>\<^verbatim>\<open>run\<close> logs an error and returns 1.\<close>

definition orOne :: "(int \<times> bool) io \<Rightarrow> (int \<times> bool) io" where
  "orOne m = bnd (attempt m) (\<lambda>r. case r of Inl e \<Rightarrow> thn (log_Print ''%v'') (ret (1, False)) | Inr x \<Rightarrow> ret x)"

definition exec_run :: "unmarshal \<Rightarrow> jobRequest gobenc \<Rightarrow> execflags \<Rightarrow> (int \<times> bool) io" where
  "exec_run um enc F = orOne
     (thn (call (ExtError ''tls.LoadX509KeyPair'') (Proc (TlsConfig (xf_tlsCert F @ '' '' @ xf_tlsKey F))))
     (bnd (realContainerID um (xf_environ F) (hd (xf_args F))) (\<lambda>containerID.
      case ContextID containerID of
        Inl e \<Rightarrow> fail e
      | Inr cid \<Rightarrow>
          thn (vsDial cid)
          (deferring
            (case jr_Encode enc (jobOf F) of
               Inl e \<Rightarrow> fail e
             | Inr gob \<Rightarrow>
                 thn (connSend ''control'' (controlMsg gob))
                 (bnd (connRecv ''control'' 4) (\<lambda>s.
                  firstDone F cid (copyId (bytesOf s)))))
            (call SysErrno (Proc (CloseFd ''control'')))))))"

text \<open>The flags are parsed: whether the help or the version is wanted.\<close>

definition exec_main :: "unmarshal \<Rightarrow> jobRequest gobenc \<Rightarrow> bool \<Rightarrow> bool \<Rightarrow> execflags \<Rightarrow> unit io" where
  "exec_main um enc help version F =
     (if help \<or> version then os_Exit 0
      else if length (xf_args F) < 2 then os_Exit 1
      else bnd (exec_run um enc F) (\<lambda>(rc, raw).
        thn (whn raw (note_call (Proc (CloseFd ''terminal.Restore'')))) (os_Exit rc)))"

section \<open>Facts\<close>

text \<open>What a reply says: the struct after the first line that decodes, or after all lines.\<close>

fun replyOf :: "unmarshal \<Rightarrow> inspect \<Rightarrow> string list \<Rightarrow> inspect" where
  "replyOf um d [] = d"
| "replyOf um d (l # ls) = (if snd (um d l) then fst (um d l) else replyOf um (fst (um d l)) ls)"

lemma readReply_Ret: "readReply um d ls K t = (Ret d', t') \<Longrightarrow> d' = replyOf um d ls"
proof (induction ls arbitrary: d t)
  case Nil
  then show ?case by (auto simp: thn_Ret_iff)
next
  case (Cons l ls)
  then show ?case by (cases "um d l") (auto split: if_splits)
qed

lemma checkInspect_Inr:
  "checkInspect d = Inr cid \<longleftrightarrow>
     in_Message d = [] \<and> in_Runtime d = ''runq'' \<and> in_Status d = ''running'' \<and> in_ID d = cid \<and> cid \<noteq> []"
  by (auto simp: checkInspect_def)

definition runningRunq :: "inspect \<Rightarrow> string \<Rightarrow> bool" where
  "runningRunq d cid \<longleftrightarrow> in_Message d = [] \<and> in_Runtime d = ''runq'' \<and> in_Status d = ''running'' \<and> in_ID d = cid \<and> cid \<noteq> []"

text \<open>The engine was asked for the container, and this is what its answer says.\<close>

definition askedEngine :: "unmarshal \<Rightarrow> kernel \<Rightarrow> string \<Rightarrow> string \<Rightarrow> trace \<Rightarrow> bool" where
  "askedEngine um K ident cid t \<longleftrightarrow> (\<exists>u w ls.
     t = u @ [Done (Proc (ConnSend ''docker'' (bytesOf (inspectRequest ident)))), Done (Proc (ConnRecv ''docker'' 1))] @ w
     \<and> k_strs K (u @ [Done (Proc (ConnSend ''docker'' (bytesOf (inspectRequest ident))))]) (Proc (ConnRecv ''docker'' 1)) = Inr ls
     \<and> runningRunq (replyOf um inspect0 ls) cid)"

lemma askedEngine_append: "askedEngine um K ident cid t \<Longrightarrow> askedEngine um K ident cid (t @ es)"
  unfolding askedEngine_def by (metis append.assoc)

lemma emits_readReply: "emits (\<lambda>_. True) (readReply um d ls)"
  by (induction ls arbitrary: d) (auto intro!: emits_intros simp: split_def Let_def)

lemma realContainerID_Ret:
  assumes "realContainerID um env ident K t = (Ret cid, t')"
  shows "validName ident \<and> askedEngine um K ident cid t'"
proof -
  let ?send = "Done (Proc (ConnSend ''docker'' (bytesOf (inspectRequest ident))))" and ?recv = "Done (Proc (ConnRecv ''docker'' 1))"
  have v: "validName ident" using assms by (auto simp: realContainerID_def split: if_splits)
  then obtain network address where h: "dockerHost env = Inr (network, address)"
    using assms by (cases "dockerHost env") (auto simp: realContainerID_def)
  obtain u u1 u2 u3 u4 ls d r where sd: "call SysErrno (Proc (ConnSend ''docker'' (bytesOf (inspectRequest ident)))) K u = (Ret (), u1)"
    and rv: "ask (\<lambda>K t. k_strs K t (Proc (ConnRecv ''docker'' 1))) SysErrno (Proc (ConnRecv ''docker'' 1)) K u1 = (Ret ls, u2)"
    and d: "readReply um inspect0 ls K u2 = (Ret d, u3)"
    and c: "(case checkInspect d of Inl e \<Rightarrow> fail e | Inr cid \<Rightarrow> ret cid) K u3 = (Ret cid, u4)"
    and fin: "call SysErrno (Proc (CloseFd ''docker'')) K u4 = (r, t')"
    using assms v h by (auto simp: realContainerID_def thn_Ret_iff bnd_Ret_iff deferring_Ret_iff)
  have u2: "u2 = u @ [?send, ?recv]" and ls: "k_strs K (u @ [?send]) (Proc (ConnRecv ''docker'' 1)) = Inr ls"
    using sd rv by (auto simp: call_Ret_iff ask_Ret_iff)
  have c: "checkInspect d = Inr cid" "u4 = u3" using c by (auto split: sum.splits)
  obtain es where "u3 = u2 @ es" using emits_all [OF emits_readReply d] by blast
  moreover obtain e where "t' = u4 @ [e]" using fin by (auto simp: call_def split: option.splits)
  ultimately have "t' = u @ [?send, ?recv] @ es @ [e]" using u2 c(2) by simp
  moreover have "runningRunq (replyOf um inspect0 ls) cid"
    using c readReply_Ret [OF d] by (auto simp: runningRunq_def checkInspect_Inr)
  ultimately show ?thesis using v ls unfolding askedEngine_def by blast
qed

text \<open>The text of an exit code fits into the three bytes that the client reads.\<close>

lemma code_text: "length (Itoa (uint (b :: byte))) \<le> 3 \<and> Atoi (Itoa (uint b)) = Some (uint b)"
proof -
  have b: "0 \<le> uint b" "uint b < 256" using uint_lt2p [of b] by simp_all
  then have "length (showNat (nat (uint b))) \<le> 3" by (intro length_showNat) (simp_all only: nat_less_iff, simp_all)
  moreover have "Atoi (Itoa (uint b)) = Some (uint b)" using b by (intro Atoi_Itoa) (simp_all add: min_int64_def max_int64_def order_trans [OF _ b(1)])
  ultimately show ?thesis using b by (simp add: Itoa_def)
qed

text \<open>A code other than 1 is one that was read.\<close>

definition codeRead :: "kernel \<Rightarrow> int \<Rightarrow> trace \<Rightarrow> bool" where
  "codeRead K rc t \<longleftrightarrow> (\<exists>u v s. t = u @ Done (Proc (ConnRecv ''control'' 3)) # v
     \<and> k_str K u (Proc (ConnRecv ''control'' 3)) = Inr s \<and> Atoi (take 3 s) = Some rc)"

lemma exec_wait_code:
  assumes "exec_wait K t = (Ret rc, t')" and "rc \<noteq> 1"
  shows "codeRead K rc t'"
proof -
  have "\<exists>v s. t' = t @ Done (Proc (ConnRecv ''control'' 3)) # v \<and> k_str K t (Proc (ConnRecv ''control'' 3)) = Inr s \<and> Atoi (take 3 s) = Some rc"
    using assms
    by (auto simp: exec_wait_def connRecv_def connSend_def log_Print_def io_defs split: sum.splits option.splits)
  then show ?thesis unfolding codeRead_def by blast
qed

lemma exec_execute_post: "post K (exec_execute F cid jid) (\<lambda>(r, raw) t. r \<noteq> None \<longrightarrow> r = Some 1)"
  unfolding exec_execute_def by (intro post_intros post_deferring) auto

lemma exec_execute_Ret: "exec_execute F cid jid K t = (Ret (Some rc, raw), t') \<Longrightarrow> rc = 1"
  using postD [OF exec_execute_post] by fastforce

lemma firstDone_code:
  "firstDone F cid jid K t = (Ret (rc, raw), t') \<Longrightarrow> rc \<noteq> 1 \<Longrightarrow> codeRead K rc t'"
  by (auto simp: firstDone_def thn_Ret_iff bnd_Ret_iff split: if_splits option.splits
      dest!: exec_wait_code exec_execute_Ret)

lemma orOne_Ret: "orOne m K t = (Ret (rc, raw), t') \<Longrightarrow> rc \<noteq> 1 \<Longrightarrow> m K t = (Ret (rc, raw), t')"
proof (cases "m K t")
  case (Pair r u)
  then show "orOne m K t = (Ret (rc, raw), t') \<Longrightarrow> rc \<noteq> 1 \<Longrightarrow> m K t = (Ret (rc, raw), t')"
    by (cases r) (auto simp: orOne_def bnd_def attempt_def thn_def ret_def split: prod.splits outcome.splits)
qed

lemma exec_run_code:
  assumes run: "exec_run um enc F K t = (Ret (rc, raw), t')" and rc: "rc \<noteq> 1"
  obtains t1 w containerID cid gob where "askedEngine um K (hd (xf_args F)) containerID t1"
    and "ContextID containerID = Inr cid" and "jr_Encode enc (jobOf F) = Inr gob"
    and "t' = t1 @ [Done (Proc (DialCall (vsAddr cid))), Done (Proc (ConnSend ''control'' (controlMsg gob)))] @ w" and "codeRead K rc t'"
proof -
  let ?close = "call SysErrno (Proc (CloseFd ''control''))"
  obtain t0 t1 containerID where r: "realContainerID um (xf_environ F) (hd (xf_args F)) K t0 = (Ret containerID, t1)"
    and rest: "(case ContextID containerID of Inl e \<Rightarrow> fail e
      | Inr cid \<Rightarrow>
          thn (vsDial cid)
          (deferring
            (case jr_Encode enc (jobOf F) of
               Inl e \<Rightarrow> fail e
             | Inr gob \<Rightarrow>
                 thn (connSend ''control'' (controlMsg gob))
                 (bnd (connRecv ''control'' 4) (\<lambda>s.
                  firstDone F cid (copyId (bytesOf s)))))
            ?close)) K t1 = (Ret (rc, raw), t')"
    using orOne_Ret [OF run [unfolded exec_run_def] rc] by (auto simp: bnd_Ret_iff thn_Ret_iff)
  obtain cid where cid: "ContextID containerID = Inr cid" using rest by (cases "ContextID containerID") auto
  obtain gob where gob: "jr_Encode enc (jobOf F) = Inr gob"
    using rest cid by (cases "jr_Encode enc (jobOf F)") (auto simp: thn_Ret_iff deferring_Ret_iff)
  obtain u0 u1 u2 s u3 r where dial: "vsDial cid K t1 = (Ret (), u0)" and s: "connSend ''control'' (controlMsg gob) K u0 = (Ret (), u1)"
    and v: "connRecv ''control'' 4 K u1 = (Ret s, u2)"
    and d: "firstDone F cid (copyId (bytesOf s)) K u2 = (Ret (rc, raw), u3)" and c: "?close K u3 = (r, t')"
    using rest cid gob by (auto simp: thn_Ret_iff bnd_Ret_iff deferring_Ret_iff)
  have u1: "u1 = t1 @ [Done (Proc (DialCall (vsAddr cid))), Done (Proc (ConnSend ''control'' (controlMsg gob)))]"
    using dial s by (simp add: vsDial_def connSend_def call_Ret_iff)
  have emits: "emits (\<lambda>_. True) (firstDone F cid (copyId (bytesOf s)))" "emits (\<lambda>_. True) (connRecv ''control'' 4)"
    unfolding firstDone_def exec_wait_def exec_execute_def vsDial_def connSend_def connRecv_def by (intro emits_intros; simp)+
  then obtain es es' where "u2 = u1 @ es" "u3 = u2 @ es'" using v d emits_all by metis
  moreover obtain e where e: "t' = u3 @ [e]" using c by (auto simp: call_def split: option.splits)
  ultimately have "t' = t1 @ [Done (Proc (DialCall (vsAddr cid))), Done (Proc (ConnSend ''control'' (controlMsg gob)))] @ (es @ es' @ [e])"
    using u1 by simp
  moreover have "codeRead K rc t'"
    using firstDone_code [OF d rc] e unfolding codeRead_def by (metis append.assoc append_Cons)
  ultimately show thesis using that realContainerID_Ret [OF r] cid gob by blast
qed

section \<open>The client and the server\<close>

text \<open>A connection of a client on the host that has a certificate, and what it sends first.\<close>

definition hostConn :: "byte list \<Rightarrow> conninfo" where
  "hostConn bs = \<lparr>ci_tls = True, ci_handshake = True, ci_addr = Some 2, ci_read = Some bs\<rparr>"

lemma handle_control: "handleConnection (hostConn (controlMsg gob)) = (if gob = [] then Reject else Control (take 4095 gob))"
  by (cases gob) (simp_all add: handleConnection_def hostConn_def controlMsg_def TypeControlConn_def Let_def)

lemma copyId_id: "length jid = 4 \<Longrightarrow> copyId jid = jid"
  by (simp add: copyId_def)

lemma bytesOf_text: "bytesOf (map (char_of \<circ> unat) bs) = (bs :: byte list)"
proof -
  have "of_char (char_of (unat b)) = b" for b :: byte
  proof -
    have "(of_char (char_of (unat b)) :: byte) = word_of_nat (of_char (char_of (unat b)))" by (simp only: of_nat_of_char)
    also have "of_char (char_of (unat b)) = unat b" using byte_lt [of b] by simp
    finally show ?thesis by simp
  qed
  then show ?thesis by (simp add: bytesOf_def comp_def)
qed

lemma handle_execute: "length jid = 4 \<Longrightarrow> handleConnection (hostConn (executeMsg jid)) = Execute jid"
  by (simp add: handleConnection_def hostConn_def executeMsg_def TypeControlConn_def TypeExecuteConn_def Let_def)

lemma exec_wait_reads:
  assumes "k_str K t (Proc (ConnRecv ''control'' 3)) = Inr s" and "length s \<le> 3" and "Atoi s = Some rc"
  shows "\<exists>t'. exec_wait K t = (Ret rc, t')"
  using assms by (auto simp: exec_wait_def connRecv_def connSend_def log_Print_def io_defs split: option.splits)

lemma ctl_register_job:
  assumes "DecodeJobRequest dec gob = Inr jr" and "2 \<le> length gob"
  shows "jobs (ctl_register cfg dec c gob (Some jid) s) jid = Some (mkJob cfg c jr)"
    and "hd (written (ctl_register cfg dec c gob (Some jid) s)) = (c, Bytes (map (char_of \<circ> unat) jid))"
  using assms by (simp_all add: ctl_register_def)

lemma exec_begin_job:
  assumes "jobs s jid = Some job" and "\<not> je_started job" and "length jid = 4"
  shows "launched (exec_begin c jid s) = je_ctrlConn job # launched s"
    and "(c, jid, job\<lparr>je_started := True\<rparr>, False) \<in> set (execs (exec_begin c jid s))"
  using assms by (simp_all add: exec_begin_def copyId_id Let_def)

lemma exec_report_code: "hd (written (exec_report c jid job err s)) = (je_ctrlConn job, Bytes (Itoa (uint (fst (ErrorToRc err)))))"
  by (simp add: exec_report_def split: prod.split)

lemma Itoa_42: "Itoa 42 = ''42''"
  by code_simp

text \<open>A run of the client: a container, and a server that answers with 42.\<close>

definition demo_flags :: execflags where
  "demo_flags = \<lparr>xf_args = [''web'', ''id''], xf_env = [], xf_tty = False, xf_stdin = False, xf_tlsCert = ''cert.pem'',
     xf_tlsKey = ''key.pem'', xf_environ = []\<rparr>"

definition demo_inspect :: inspect where
  "demo_inspect = \<lparr>in_Runtime = ''runq'', in_ID = ''0000000a89ab'', in_Message = [], in_Status = ''running''\<rparr>"

definition demo_unmarshal :: unmarshal where
  "demo_unmarshal d l = (if HasPrefix l ''{'' then (demo_inspect, True) else (d, False))"

definition demo_jrenc :: "jobRequest gobenc" where
  "demo_jrenc jr = (if jr = jobOf demo_flags then Some [7, 8] else None)"

definition demo_jrdec :: "jobRequest gobdec" where
  "demo_jrdec bs = (if bs = [7, 8] then Some (jobOf demo_flags) else None)"

lemma recovers_demo_jr: "recovers demo_jrenc demo_jrdec"
  by (simp add: recovers_def demo_jrenc_def demo_jrdec_def)

definition demo_engine :: kernel where
  "demo_engine = quiet_kernel\<lparr>k_strs := (\<lambda>t c. Inr [''HTTP/1.0 200 OK'', ''{}'']),
     k_str := (\<lambda>t c. case c of Proc (ConnRecv _ n) \<Rightarrow> Inr (if n = 3 then ''42'' else ''abcd'') | _ \<Rightarrow> Inr [])\<rparr>"

lemma demo_engine_simps [simp]:
  "k_do demo_engine t c = None" "k_strs demo_engine t c = Inr [''HTTP/1.0 200 OK'', ''{}'']"
  "k_str demo_engine t c = (case c of Proc (ConnRecv _ n) \<Rightarrow> Inr (if n = 3 then ''42'' else ''abcd'') | _ \<Rightarrow> Inr [])"
  "k_int demo_engine t c = Inr 0"
  by (simp_all add: demo_engine_def quiet_kernel_def)

lemma demo_container: "yields demo_engine (realContainerID demo_unmarshal [] ''web'') ''0000000a89ab''"
proof -
  have "validName ''web''" by code_simp
  then show ?thesis
    by (simp add: yields_def realContainerID_def dockerHost_def os_Getenv_def os_LookupEnv_def demo_unmarshal_def HasPrefix_def
        demo_inspect_def checkInspect_def io_defs)
qed

lemma demo_context: "ContextID ''0000000a89ab'' = Inr 10"
  by (simp add: ContextID_def hex8_def isHex_def isDigit_def isLower_def readBase_def digitVal_def)

lemma demo_exec_run: "yields demo_engine (exec_run demo_unmarshal demo_jrenc demo_flags) (42, False)"
proof -
  have "Itoa 42 = ''42''" by (rule Itoa_42)
  then have a: "Atoi ''42'' = Some 42" using Atoi_Itoa [of 42] by (simp add: min_int64_def max_int64_def)
  note c = demo_context
  have "yields demo_engine (firstDone demo_flags cid jid) (42, False)" for cid jid
    using a by (simp add: yields_def firstDone_def exec_execute_def exec_wait_def vsDial_def connSend_def connRecv_def demo_flags_def io_defs)
  then have job: "yields demo_engine (deferring
            (case jr_Encode demo_jrenc (jobOf demo_flags) of
               Inl e \<Rightarrow> fail e
             | Inr gob \<Rightarrow>
                 thn (connSend ''control'' (controlMsg gob))
                 (bnd (connRecv ''control'' 4) (\<lambda>s.
                  firstDone demo_flags 10 (copyId (bytesOf s)))))
            (call SysErrno (Proc (CloseFd ''control'')))) (42, False)"
    unfolding yields_def deferring_Ret_iff
    by (simp add: demo_jrenc_def jr_Encode_def connSend_def connRecv_def bnd_Ret_iff thn_Ret_iff call_Ret_iff ask_Ret_iff) (simp add: call_def)
  have cont: "yields demo_engine (realContainerID demo_unmarshal (xf_environ demo_flags) (hd (xf_args demo_flags))) ''0000000a89ab''"
    using demo_container by (simp add: demo_flags_def)
  have dial: "yields demo_engine (vsDial 10) ()" by (simp add: vsDial_def yields_call)
  show ?thesis
    unfolding exec_run_def orOne_def
    by (rule yields_bnd [OF yields_attempt [OF yields_thn [OF yields_call yields_bnd [OF cont, where b = "(42, False)"]]]])
      (simp_all add: c yields_ret yields_thn [OF dial job])
qed

text \<open>
  C29: runq-exec acts on running runq containers only. A name with other than the permitted characters
  is refused before anything is sent; otherwise, a container ID is accepted only if it is the one in
  the reply of the engine, and the reply says that the container's runtime is runq and that it is
  running.
\<close>

theorem exec_only_running_runq:
  "(\<not> validName ident \<longrightarrow> realContainerID um env ident K t = (Fail (Errorf ''invalid container id %s'' [ident]), t))
   \<and> (realContainerID um env ident K t = (Ret cid, t') \<longrightarrow> validName ident \<and> askedEngine um K ident cid t')"
proof
  show "\<not> validName ident \<longrightarrow> realContainerID um env ident K t = (Fail (Errorf ''invalid container id %s'' [ident]), t)"
    by (simp add: realContainerID_def fail_def)
qed (use realContainerID_Ret in blast)

theorem exec_only_running_runq_witness:
  "\<not> validName ''../etc'' \<and> fst (realContainerID demo_unmarshal [] ''../etc'' demo_engine []) = Fail (Errorf ''invalid container id %s'' [''../etc''])
   \<and> (\<exists>t'. realContainerID demo_unmarshal [] ''web'' demo_engine [] = (Ret ''0000000a89ab'', t')
        \<and> askedEngine demo_unmarshal demo_engine ''web'' ''0000000a89ab'' t')"
proof -
  have v: "\<not> validName ''../etc''" by code_simp
  obtain t' where "realContainerID demo_unmarshal [] ''web'' demo_engine [] = (Ret ''0000000a89ab'', t')"
    using yieldsD [OF demo_container] by blast
  with exec_only_running_runq [of "''web''" demo_unmarshal "[]" demo_engine "[]" "''0000000a89ab''" t']
    exec_only_running_runq [of "''../etc''" demo_unmarshal "[]" demo_engine "[]"] v
  show ?thesis by simp
qed





end
