(* ===== verification/Init_Mount.thy ===== *)
theory Init_Mount
  imports Util
begin

text \<open>
  \<^verbatim>\<open>cmd/init/mount.go\<close>: the mounts of init and of the container, paths that are masked or
  made read only, and unmounting at the end.
\<close>

section \<open>Mounting a list\<close>

definition mountOne :: "mount \<Rightarrow> unit io" where
  "mountOne m =
     bnd (FileExists (mount_Target m)) (\<lambda>isFile.
       if isFile then fail (WithStack (Errorf ''invalid path: %v'' [mount_Target m]))
       else bnd (DirExists (mount_Target m)) (\<lambda>isDir.
         thn (whn (\<not> isDir) (os_MkdirAll (mount_Target m) mode0755))
           (mapErr (ErrorfE ''Mount failed: src:%s dst:%s fs:%s id:%s reason: %v''
                [mount_Source m, mount_Target m, mount_Fstype m, mount_ID m])
             (unix_Mount (mount_Source m) (mount_Target m) (mount_Fstype m) (mount_Flags m) (mount_Data m)))))"

definition mountAll :: "mount list \<Rightarrow> unit io" where
  "mountAll mounts = forE mounts mountOne"

abbreviation mkMount :: "string \<Rightarrow> string \<Rightarrow> string \<Rightarrow> int \<Rightarrow> string \<Rightarrow> mount" where
  "mkMount src tgt fs fl d \<equiv>
     \<lparr>mount_Data = d, mount_Flags = fl, mount_Fstype = fs, mount_ID = [], mount_Source = src, mount_Target = tgt\<rparr>"

abbreviation nosuid_noexec :: int where "nosuid_noexec \<equiv> MS_NOSUID OR MS_NOEXEC"
abbreviation nosuid_noexec_nodev :: int where "nosuid_noexec_nodev \<equiv> MS_NOSUID OR MS_NOEXEC OR MS_NODEV"

section \<open>The fixed mounts\<close>

definition initStage0 :: "mount list" where
  "initStage0 =
     [mkMount ''proc'' ''/proc'' ''proc'' nosuid_noexec_nodev [],
      mkMount ''dev'' ''/dev'' ''devtmpfs'' nosuid_noexec ''mode=0755'',
      mkMount ''sysfs'' ''/sys'' ''sysfs'' nosuid_noexec_nodev [],
      mkMount ''devpts'' ''/dev/pts'' ''devpts'' nosuid_noexec ''newinstance,gid=5,mode=0620,ptmxmode=000'']"

definition mountInitStage0 :: "unit io" where
  "mountInitStage0 = mountAll initStage0"

definition mountInitShare :: "string \<Rightarrow> string \<Rightarrow> unit io" where
  "mountInitShare source target =
     mountAll [mkMount source target ''9p'' (MS_NODEV OR MS_DIRSYNC) ''trans=virtio,cache=mmap'']"

definition mountInitStage1 :: "mount list \<Rightarrow> unit io" where
  "mountInitStage1 extraMounts =
     mountAll (map (\<lambda>m. m\<lparr>mount_Target := ''/rootfs'' @ mount_Target m\<rparr>) extraMounts)"

definition entrypointStage0 :: "mount list" where
  "entrypointStage0 =
     [mkMount ''proc'' ''/rootfs/proc'' ''proc'' nosuid_noexec_nodev [],
      mkMount ''sysfs'' ''/rootfs/sys'' ''sysfs'' nosuid_noexec_nodev [],
      mkMount ''dev'' ''/rootfs/dev'' ''devtmpfs'' MS_NOSUID ''mode=0755'',
      mkMount ''devpts'' ''/rootfs/dev/pts'' ''devpts'' nosuid_noexec ''newinstance,gid=5,mode=0620,ptmxmode=000'',
      mkMount ''shm'' ''/rootfs/dev/shm'' ''tmpfs'' nosuid_noexec_nodev ''size=65536k'',
      mkMount ''mqueue'' ''/rootfs/dev/mqueue'' ''mqueue'' nosuid_noexec_nodev []]"

definition mountEntrypointStage0 :: "unit io" where
  "mountEntrypointStage0 = mountAll entrypointStage0"

section \<open>Control groups\<close>

type_synonym symlink = "string \<times> string"

definition cgroupMount :: "string \<Rightarrow> string \<Rightarrow> mount" where
  "cgroupMount target data = mkMount ''cgroup'' target ''cgroup'' nosuid_noexec_nodev data"

text \<open>The mounts and links of one line of \<^verbatim>\<open>/proc/cgroups\<close>.\<close>

definition cgroupLine :: "string \<Rightarrow> mount list \<times> symlink list" where
  "cgroupLine l =
     (let field = Fields l
      in if length field < 4 then ([], [])
         else if field ! 3 \<noteq> ''1'' then ([], [])
         else if field ! 0 = ''cpu'' then ([], [])
         else if field ! 0 = ''cpuacct'' then
           (let target = ''/sys/fs/cgroup/cpu,cpuacct''
            in ([cgroupMount target ''cpu,cpuacct''], [(target, ''cpu''), (target, ''cpuacct'')]))
         else if field ! 0 = ''net_cls'' then ([], [])
         else if field ! 0 = ''net_prio'' then
           (let target = ''/sys/fs/cgroup/net_cls,net_prio''
            in ([cgroupMount target ''net_cls,net_prio''], [(target, ''net_cls''), (target, ''net_prio'')]))
         else ([cgroupMount (''/sys/fs/cgroup/'' @ field ! 0) (field ! 0)], []))"

definition createSymlinks :: "symlink list \<Rightarrow> unit io" where
  "createSymlinks links = forE links (\<lambda>(target, newPath).
     mapErr (ErrorfE ''createSymlink %q -> %q failed: %v'' [target, newPath]) (CreateSymlink target newPath))"

definition mountEntrypointCgroups :: "unit io" where
  "mountEntrypointCgroups =
     bnd (FileExists ''/proc/cgroups'') (\<lambda>f. if \<not> f then ret () else
     bnd (DirExists ''/sys/fs/cgroup'') (\<lambda>d. if \<not> d then ret () else
     bnd (mapErr WithStack (os_Open ''/proc/cgroups'')) (\<lambda>(text, rderr).
     deferring
       (let (ls, toolong) = scanLines text
        in if toolong then fail (WithStack ScanTooLong)
           else case rderr of
               Some e \<Rightarrow> fail (WithStack (PathError ''read'' ''/proc/cgroups'' e))
             | None \<Rightarrow>
                 thn (mountAll (mkMount ''tmpfs'' ''/sys/fs/cgroup'' ''tmpfs'' nosuid_noexec_nodev ''mode=0755''
                        # concat (map (fst \<circ> cgroupLine) ls)))
                   (createSymlinks (concat (map (snd \<circ> cgroupLine) ls))))
       (call SysErrno (Proc (CloseFd ''/proc/cgroups''))))))"

section \<open>Bind mounts\<close>

definition bindMountDir :: "string \<Rightarrow> string \<Rightarrow> unit io" where
  "bindMountDir src target =
     bnd (DirExists target) (\<lambda>ex.
     thn (whn (\<not> ex) (mapErr (ErrorfE ''os.MkdirAll failed: %v'' []) (os_MkdirAll target mode0755)))
       (mapErr (ErrorfE ''bindMountDir failed: src:%s dst:%s reason: %v'' [src, target])
         (unix_Mount src target [] (MS_BIND OR MS_RDONLY) [])))"

definition bindMountFile :: "string \<Rightarrow> string \<Rightarrow> unit io" where
  "bindMountFile src target =
     bnd (DirExists (filepath_Dir target)) (\<lambda>exd.
     thn (whn (\<not> exd) (mapErr (ErrorfE ''os.MkdirAll failed: %v'' []) (os_MkdirAll (filepath_Dir target) mode0755)))
     (bnd (FileExists target) (\<lambda>exf.
      thn (whn (\<not> exf) (mapErr (ErrorfE ''os.Create failed: %v'' []) (os_Create target)))
        (mapErr (ErrorfE ''bindMountFile failed: src:%s dst:%s reason: %v'' [src, target])
          (unix_Mount src target [] (MS_BIND OR MS_RDONLY) [])))))"

section \<open>Read-only and masked paths\<close>

definition readonlyPath1 :: "string \<Rightarrow> unit io" where
  "readonlyPath1 p =
     bnd (attempt (unix_Mount p p [] (MS_BIND OR MS_REC) [])) (\<lambda>r. case r of
         Inl e \<Rightarrow> if IsNotExist e then ret () else fail e
       | Inr _ \<Rightarrow> unix_Mount p p [] (MS_BIND OR MS_REMOUNT OR MS_RDONLY OR MS_REC) [])"

definition readonlyPath :: "string list \<Rightarrow> unit io" where
  "readonlyPath paths = forE paths readonlyPath1"

definition maskPath1 :: "string \<Rightarrow> unit io" where
  "maskPath1 p =
     bnd (attempt (os_Stat p)) (\<lambda>r. case r of
         Inl e \<Rightarrow> if IsNotExist e then ret () else fail e
       | Inr st \<Rightarrow>
           if fi_kind st = FDir then unix_Mount ''tmpfs'' p ''tmpfs'' MS_RDONLY []
           else unix_Mount ''/dev/null'' p [] MS_BIND [])"

definition maskPath :: "string list \<Rightarrow> unit io" where
  "maskPath paths = forE paths maskPath1"

section \<open>Unmounting\<close>

text \<open>The real filesystems of the lines of \<^verbatim>\<open>/proc/mounts\<close>, the last one first.\<close>

definition realFilesystems :: "string list" where
  "realFilesystems = [''ext2'', ''ext3'', ''ext4'', ''xfs'', ''btrfs'']"

fun mountDirs :: "string list \<Rightarrow> string list \<Rightarrow> string list" where
  "mountDirs dirs [] = dirs"
| "mountDirs dirs (l # ls) =
     (let f = Fields l
      in if 2 < length f \<and> f ! 1 \<noteq> ''/'' \<and> f ! 2 \<in> set realFilesystems
         then mountDirs (f ! 1 # dirs) ls else mountDirs dirs ls)"

text \<open>At most \<open>n\<close> rounds; ten in the program.\<close>

fun umountRounds :: "nat \<Rightarrow> unit io" where
  "umountRounds 0 = ret ()"
| "umountRounds (Suc n) =
     bnd (attempt (os_Open ''/proc/mounts'')) (\<lambda>r. case r of
         Inl _ \<Rightarrow> ret ()
       | Inr (text, rderr) \<Rightarrow>
           (let (ls, toolong) = scanLines text; dirs = mountDirs [] ls
            in thn (whn (toolong \<or> rderr \<noteq> None) (log_Print ''%v''))
                 (if dirs = [] then ignore (call SysErrno (Proc (CloseFd ''/proc/mounts'')))
                  else thn (forE dirs (\<lambda>d. ignore (unix_Unmount d MNT_DETACH))) (umountRounds n))))"

definition umountInit :: "unit io" where
  "umountInit = umountRounds 10"

section \<open>Facts\<close>

definition mountCall :: "mount \<Rightarrow> syscall" where
  "mountCall m = Mnt (MountCall (mount_Source m) (mount_Target m) (mount_Fstype m) (mount_Flags m) (mount_Data m))"

definition isMnt :: "syscall \<Rightarrow> bool" where
  "isMnt c \<longleftrightarrow> (case c of Mnt _ \<Rightarrow> True | _ \<Rightarrow> False)"

lemma isMnt_simps [simp]: "isMnt (Fs f) = False" "isMnt (Mnt m)" "isMnt (Proc p) = False"
  by (simp_all add: isMnt_def)

lemma filter_calls_none: "list_all (\<lambda>e. \<not> P (ev_call e)) es \<Longrightarrow> filter P (calls es) = []"
  by (induction es) (auto simp: calls_def split: event.splits)

lemma emits_filter:
  assumes "emits (\<lambda>c. \<not> P c) m" and "m K t = (r, t')"
  obtains es where "t' = t @ es" and "filter P (calls es) = []"
proof -
  obtain es where "t' = t @ es" "list_all (\<lambda>e. \<not> P (ev_call e)) es" by (rule emitsD [OF assms])
  with that filter_calls_none show thesis by blast
qed

lemma emits_mountOne: "emits (\<lambda>_. True) (mountOne m)"
  unfolding mountOne_def by (intro emits_intros) simp_all

lemma mountOne_Ret:
  assumes "mountOne m K t = (Ret u, t @ es)"
  shows "filter isMnt (calls es) = [mountCall m] \<and> (\<forall>i. k_stat K t (mount_Target m) = Inr i \<longrightarrow> fi_kind i \<noteq> FRegular)"
proof -
  have pre: "emits (\<lambda>c. \<not> isMnt c) (FileExists (mount_Target m))" "emits (\<lambda>c. \<not> isMnt c) (DirExists (mount_Target m))"
    "emits (\<lambda>c. \<not> isMnt c) (whn b (os_MkdirAll (mount_Target m) mode0755))" for b
    by (intro emits_intros; simp)+
  obtain a b t1 t2 t3 where f: "FileExists (mount_Target m) K t = (Ret False, t1)"
    and d: "DirExists (mount_Target m) K t1 = (Ret a, t2)"
    and w: "whn (\<not> a) (os_MkdirAll (mount_Target m) mode0755) K t2 = (Ret b, t3)"
    and fin: "t @ es = t3 @ [Done (mountCall m)]"
    using assms by (auto simp: mountOne_def io_Ret_iffs unix_Mount_def mountCall_def split: if_splits)
  obtain e1 where "t1 = t @ e1" "filter isMnt (calls e1) = []" by (rule emits_filter [OF pre(1) f])
  moreover obtain e2 where "t2 = t1 @ e2" "filter isMnt (calls e2) = []" by (rule emits_filter [OF pre(2) d])
  moreover obtain e3 where "t3 = t2 @ e3" "filter isMnt (calls e3) = []" by (rule emits_filter [OF pre(3) w])
  ultimately have "filter isMnt (calls es) = [mountCall m]" using fin by (simp add: mountCall_def)
  moreover have "\<forall>i. k_stat K t (mount_Target m) = Inr i \<longrightarrow> fi_kind i \<noteq> FRegular"
    using f by (auto simp: FileExists_def os_Stat_def io_defs)
  ultimately show ?thesis by blast
qed

lemma mountAll_Ret:
  "mountAll ms K t = (Ret u, t @ es) \<Longrightarrow> filter isMnt (calls es) = map mountCall ms"
proof (induction ms arbitrary: t es)
  case Nil
  then show ?case by (simp add: mountAll_def)
next
  case (Cons m ms)
  then obtain v where m: "mountOne m K t = (Ret (), v)" and r: "mountAll ms K v = (Ret u, t @ es)"
    by (auto simp: mountAll_def thn_Ret_iff)
  obtain e1 where v: "v = t @ e1" by (rule emitsD [OF emits_mountOne m])
  have "emits (\<lambda>_. True) (mountAll ms)" unfolding mountAll_def by (intro emits_forE emits_mountOne)
  then obtain e2 where e2: "t @ es = v @ e2" using r by (rule emitsD)
  with Cons.IH [of v e2] r mountOne_Ret [of m K t "()" e1] m v show ?case by simp
qed

section \<open>Unmounting\<close>

definition realMount :: "string \<Rightarrow> bool" where
  "realMount l \<longleftrightarrow> (let f = Fields l in 2 < length f \<and> f ! 1 \<noteq> ''/'' \<and> f ! 2 \<in> set realFilesystems)"

lemma mountDirs_rev: "mountDirs ds ls = rev (map (\<lambda>l. Fields l ! 1) (filter realMount ls)) @ ds"
  by (induction ls arbitrary: ds) (auto simp: realMount_def Let_def)

lemma mountDirs_no_root: "d \<in> set (mountDirs [] ls) \<Longrightarrow> d \<noteq> ''/''"
  by (auto simp: mountDirs_rev realMount_def Let_def)

definition umounts_ok :: "syscall \<Rightarrow> bool" where
  "umounts_ok c \<longleftrightarrow> (\<forall>d fl. c = Mnt (UnmountCall d fl) \<longrightarrow> d \<noteq> ''/'' \<and> fl = MNT_DETACH)"

lemma umounts_ok_simps [simp]:
  "umounts_ok (Fs f)" "umounts_ok (Proc p)" "umounts_ok (Mnt (UnmountCall d fl)) \<longleftrightarrow> d \<noteq> ''/'' \<and> fl = MNT_DETACH"
  by (simp_all add: umounts_ok_def)

lemma umountRounds_emits: "emits umounts_ok (umountRounds n)"
proof (induction n)
  case (Suc n)
  show ?case
    unfolding umountRounds.simps Let_def
    by (intro emits_intros Suc.IH) (auto dest: mountDirs_no_root)
qed (simp add: emits_ret)

lemma umountRounds_returns: "returns K (umountRounds n)"
proof (induction n)
  case (Suc n)
  show ?case
    unfolding umountRounds.simps Let_def os_Open_def unix_Unmount_def log_Print_def
    by (intro returns_intros Suc.IH)
qed (simp add: returns_ret)

section \<open>Masked and read-only paths\<close>

lemma maskPath1_Ret:
  assumes "maskPath1 p K t = (Ret u, t @ es)"
  shows "Failed (Fs (Stat p)) ENOENT \<in> set es \<or> Done (Mnt (MountCall ''tmpfs'' p ''tmpfs'' MS_RDONLY [])) \<in> set es
    \<or> Done (Mnt (MountCall ''/dev/null'' p [] MS_BIND [])) \<in> set es"
proof (cases "k_stat K t p")
  case (Inl n)
  with assms show ?thesis
    by (cases "n = ENOENT") (auto simp: maskPath1_def os_Stat_def io_defs IsNotExist_def underlying_def)
next
  case (Inr st)
  then show ?thesis
    using assms
    by (cases "fi_kind st = FDir")
      (auto simp: maskPath1_def os_Stat_def unix_Mount_def bnd_def attempt_def ask_def call_Ret_iff)
qed

lemma readonlyPath1_Ret:
  assumes "readonlyPath1 p K t = (Ret u, t @ es)"
  shows "Failed (Mnt (MountCall p p [] (MS_BIND OR MS_REC) [])) ENOENT \<in> set es
    \<or> Done (Mnt (MountCall p p [] (MS_BIND OR MS_REMOUNT OR MS_RDONLY OR MS_REC) [])) \<in> set es"
proof (cases "k_do K t (Mnt (MountCall p p [] (MS_BIND OR MS_REC) []))")
  case (Some n)
  with assms show ?thesis
    by (cases "n = ENOENT") (auto simp: readonlyPath1_def unix_Mount_def io_defs IsNotExist_def underlying_def)
next
  case None
  then show ?thesis
    using assms by (auto simp: readonlyPath1_def unix_Mount_def bnd_def attempt_def call_def split: option.splits)
qed

lemma emits_path1: "emits (\<lambda>_. True) (maskPath1 p)" "emits (\<lambda>_. True) (readonlyPath1 p)"
  unfolding maskPath1_def readonlyPath1_def by (intro emits_intros; simp)+

section \<open>Properties\<close>

text \<open>
  C21: When mounting a list of filesystems succeeds, exactly these filesystems have been mounted, in
  the order of the list, with the given sources, targets, types, flags and data, and nothing else
  has been mounted or unmounted.
\<close>

theorem mounts_exactly_in_order:
  assumes "mountAll ms K t = (Ret (), t @ es)"
  shows "filter isMnt (calls es) = map mountCall ms"
  using mountAll_Ret [OF assms] .

lemma demo_mountInitShare:
  "mountAll [mkMount ''rootfs'' ''/rootfs'' ''9p'' 132 ''trans=virtio''] quiet_kernel [] =
     (Ret (), [] @ [Failed (Fs (Stat ''/rootfs'')) ENOENT, Failed (Fs (Stat ''/rootfs'')) ENOENT,
       Done (Fs (MkdirAll ''/rootfs'' mode0755)), Done (Mnt (MountCall ''rootfs'' ''/rootfs'' ''9p'' 132 ''trans=virtio''))])"
  by (simp add: mountAll_def mountOne_def FileExists_def DirExists_def os_call_defs io_defs)

theorem mounts_exactly_in_order_witness:
  "filter isMnt (calls (snd (mountAll [mkMount ''rootfs'' ''/rootfs'' ''9p'' 132 ''trans=virtio''] quiet_kernel []))) =
     [Mnt (MountCall ''rootfs'' ''/rootfs'' ''9p'' 132 ''trans=virtio'')]"
  using mounts_exactly_in_order [OF demo_mountInitShare] by (simp add: demo_mountInitShare mountCall_def)

text \<open>
  C22: A sensitive path is never left open by mistake: when masking succeeds, every path of the list
  either did not exist or has been covered by an empty read-only filesystem or by
  \<^verbatim>\<open>/dev/null\<close>; when protecting succeeds, every path of the list either did not exist or has been
  remounted read only. Every other failure stops the container.
\<close>

theorem sensitive_paths_covered:
  "(maskPath ps K t = (Ret (), t @ es) \<longrightarrow> (\<forall>p\<in>set ps.
      Failed (Fs (Stat p)) ENOENT \<in> set es \<or> Done (Mnt (MountCall ''tmpfs'' p ''tmpfs'' MS_RDONLY [])) \<in> set es
      \<or> Done (Mnt (MountCall ''/dev/null'' p [] MS_BIND [])) \<in> set es))
   \<and> (readonlyPath ps K t = (Ret (), t @ es) \<longrightarrow> (\<forall>p\<in>set ps.
      Failed (Mnt (MountCall p p [] (MS_BIND OR MS_REC) [])) ENOENT \<in> set es
      \<or> Done (Mnt (MountCall p p [] (MS_BIND OR MS_REMOUNT OR MS_RDONLY OR MS_REC) [])) \<in> set es))"
proof (intro conjI impI ballI)
  fix p assume run: "maskPath ps K t = (Ret (), t @ es)" and p: "p \<in> set ps"
  obtain a b c where "maskPath1 p K (t @ a) = (Ret (), t @ a @ b)" "t @ es = t @ a @ b @ c"
    by (rule forE_each [OF emits_path1(1) run [unfolded maskPath_def] p])
  with maskPath1_Ret [of p K "t @ a" "()" b] show "Failed (Fs (Stat p)) ENOENT \<in> set es
      \<or> Done (Mnt (MountCall ''tmpfs'' p ''tmpfs'' MS_RDONLY [])) \<in> set es
      \<or> Done (Mnt (MountCall ''/dev/null'' p [] MS_BIND [])) \<in> set es" by auto
next
  fix p assume run: "readonlyPath ps K t = (Ret (), t @ es)" and p: "p \<in> set ps"
  obtain a b c where "readonlyPath1 p K (t @ a) = (Ret (), t @ a @ b)" "t @ es = t @ a @ b @ c"
    by (rule forE_each [OF emits_path1(2) run [unfolded readonlyPath_def] p])
  with readonlyPath1_Ret [of p K "t @ a" "()" b] show "Failed (Mnt (MountCall p p [] (MS_BIND OR MS_REC) [])) ENOENT \<in> set es
      \<or> Done (Mnt (MountCall p p [] (MS_BIND OR MS_REMOUNT OR MS_RDONLY OR MS_REC) [])) \<in> set es" by auto
qed

definition demo_dirs :: kernel where
  "demo_dirs = quiet_kernel\<lparr>k_stat := (\<lambda>t p. Inr \<lparr>fi_kind = FDir, fi_size = 0\<rparr>)\<rparr>"

lemma demo_mask:
  "maskPath [''/sys/firmware''] demo_dirs [] =
     (Ret (), [] @ [Done (Fs (Stat ''/sys/firmware'')), Done (Mnt (MountCall ''tmpfs'' ''/sys/firmware'' ''tmpfs'' MS_RDONLY []))])"
  by (simp add: maskPath_def maskPath1_def os_Stat_def unix_Mount_def io_defs demo_dirs_def)

theorem sensitive_paths_covered_witness:
  "Done (Mnt (MountCall ''tmpfs'' ''/sys/firmware'' ''tmpfs'' MS_RDONLY [])) \<in> set (snd (maskPath [''/sys/firmware''] demo_dirs []))"
  using sensitive_paths_covered [of "[''/sys/firmware'']" demo_dirs "[]"] demo_mask by auto


end
