(* ===== verification/Init_System.thy ===== *)
theory Init_System
  imports Util
begin

text \<open>
  The parts of \<^verbatim>\<open>cmd/init\<close> that prepare the guest: kernel modules, sysctl settings, the
  channel device, crypto adapters, the modprobe replacement and the reaper.
\<close>

section \<open>Kernel modules\<close>

text \<open>
  One line of \<^verbatim>\<open>/kernel.conf\<close>: a comment or blank line, a malformed line, or a kind, a file
  and the parameters.
\<close>

datatype (plugins only: code size) kline = KSkip | KBad string | KMod string string "string list"

definition kernelLine :: "string \<Rightarrow> kline" where
  "kernelLine text =
     (let line = TrimSpace text
      in if HasPrefix line ''#'' \<or> line = [] then KSkip
         else let fields = Fields line
              in if length fields < 2 then KBad line
                 else KMod (fields ! 0) (fields ! 1) (drop 2 fields))"

definition finitModule :: "string \<Rightarrow> string \<Rightarrow> string list \<Rightarrow> unit io" where
  "finitModule path file params =
     bnd (attempt (call SysErrno (Proc (FinitModule path (Join params '' ''))))) (\<lambda>r. case r of
         Inl e \<Rightarrow> whn (\<not> IsExist e) (fail (ErrorfE ''load kernel module %q failed: %v'' [file] e))
       | Inr _ \<Rightarrow> ret ())"

definition modulePath :: "string \<Rightarrow> string \<Rightarrow> string" where
  "modulePath pre file = filepath_Join [pre @ file]"

text \<open>
  The loop over the lines; \<open>fin\<close> is what follows it. A module file is closed by a deferred call,
  that is, when the whole function returns.
\<close>

fun loadLines :: "string \<Rightarrow> string \<Rightarrow> unit io \<Rightarrow> string list \<Rightarrow> unit io" where
  "loadLines kind pre fin [] = fin"
| "loadLines kind pre fin (l # ls) =
     (case kernelLine l of
        KSkip \<Rightarrow> loadLines kind pre fin ls
      | KBad line \<Rightarrow> fail (Errorf ''invalid kernel config: %q'' [line])
      | KMod k file params \<Rightarrow>
          (if k \<noteq> kind then loadLines kind pre fin ls
           else let path = modulePath pre file
                in thn (os_OpenFile path)
                     (deferring (thn (finitModule path file params) (loadLines kind pre fin ls))
                       (call SysErrno (Proc (CloseFd path))))))"

definition loadKernelModules :: "string \<Rightarrow> string \<Rightarrow> unit io" where
  "loadKernelModules kind pre =
     bnd (os_Open ''/kernel.conf'') (\<lambda>(text, rderr).
       let (ls, toolong) = scanLines text;
           scannerErr = (if toolong then fail (WithStack ScanTooLong)
             else case rderr of
                 None \<Rightarrow> ret ()
               | Some e \<Rightarrow> fail (WithStack (PathError ''read'' ''/kernel.conf'' e)))
       in deferring (loadLines kind pre scannerErr ls) (call SysErrno (Proc (CloseFd ''/kernel.conf''))))"

section \<open>Sysctl\<close>

definition setSysctl :: "maporder \<Rightarrow> (string \<times> string) list \<Rightarrow> unit io" where
  "setSysctl mo vmdataSysctl =
     seqs [forE (mo_strings mo SysctlDefault) (\<lambda>(k, v). SetSysctl k v),
           forE (mo_strings mo vmdataSysctl) (\<lambda>(k, v). SetSysctl k v),
           forE (mo_strings mo SysctlOverride) (\<lambda>(k, v). SetSysctl k v)]"

section \<open>The device of the channel\<close>

text \<open>
  Up to \<open>n\<close> polls, 100 in the program, ten milliseconds apart; the last answer counts. Before the
  first poll there is no answer and no error.
\<close>

fun pollVports :: "nat \<Rightarrow> (gerror + (string \<times> bool) list) \<Rightarrow> (gerror + (string \<times> bool) list) io" where
  "pollVports 0 r = ret r"
| "pollVports (Suc n) r =
     bnd (attempt (ioutil_ReadDir ''/sys/class/virtio-ports'')) (\<lambda>r'.
       if (case r' of Inr vs \<Rightarrow> length vs = 1 | Inl _ \<Rightarrow> False) then ret r'
       else thn (time_Sleep 10) (pollVports n r'))"

definition vportDevice :: "string io" where
  "vportDevice =
     bnd (pollVports 100 (Inr [])) (\<lambda>r. case r of
         Inl e \<Rightarrow> fail (WithStack e)
       | Inr vports \<Rightarrow>
           (case vports of
              [p] \<Rightarrow> ret (''/dev/'' @ fst p)
            | _ \<Rightarrow> fail (WithStack (Errorf ''Found %d vports. Expected 1'' [Itoa (int (length vports))]))))"

section \<open>Crypto adapters\<close>

definition setupAPDevice :: "unit io" where
  "setupAPDevice =
     thn (os_Stat ''/sys/bus/ap/devices'')
     (bnd (attempt (filepath_Glob ''/sys/bus/ap/devices/card*'')) (\<lambda>r.
      let files = (case r of Inl _ \<Rightarrow> [] | Inr fs \<Rightarrow> fs)
      in if files = [] then fail (Errorf ''no ap device found'' [])
         else thn (loadKernelModules ''zcrypt'' ''/rootfs'')
           (mapErr (ErrorfE ''can't chmod /dev/z90crypt: %v'' []) (os_Chmod ''/dev/z90crypt'' mode0666))))"

section \<open>modprobe\<close>

definition setModprobe :: "unit io" where
  "setModprobe =
     thn (ignore (os_Mkdir ''/sbin'' mode0755)) (CreateSymlink ''/init'' ''/sbin/modprobe'')"

text \<open>The flags of the command line, parsed by the package \<^verbatim>\<open>flag\<close>, and the other arguments.\<close>

record modprobeArgs =
  mp_a :: bool
  mp_r :: bool
  mp_v :: bool
  mp_va :: bool
  mp_args :: "string list"

definition kmodFatal :: "unit io \<Rightarrow> unit io" where
  "kmodFatal m = bnd (attempt m) (\<lambda>r. case r of Inl e \<Rightarrow> log_Fatal ''Error: %v'' | Inr _ \<Rightarrow> ret ())"

definition mainModprobe :: "modprobeArgs \<Rightarrow> unit io" where
  "mainModprobe f =
     (if mp_args f = [] \<or> ((mp_a f \<or> mp_va f) \<and> mp_r f) then ret ()
      else thn (kmodFatal (call (ExtError ''kmod'') (Sec KmodNew)))
        (if mp_r f then forE (mp_args f) (\<lambda>name. kmodFatal (call (ExtError ''kmod'') (Sec (KmodUnload name))))
         else if mp_a f \<or> mp_v f \<or> mp_va f
         then forE (mp_args f) (\<lambda>name. kmodFatal (call (ExtError ''kmod'') (Sec (KmodLoad name []))))
         else kmodFatal (call (ExtError ''kmod'')
                (Sec (KmodLoad (hd (mp_args f)) (Join (tl (mp_args f)) '' ''))))))"

section \<open>Reaper\<close>

text \<open>
  The answers of \<^verbatim>\<open>wait4\<close> in one round: an error (reported) or a number not above zero ends the
  round. The bound stands for the number of children that can be waited for.
\<close>

fun reapRound :: "nat \<Rightarrow> unit io" where
  "reapRound 0 = ret ()"
| "reapRound (Suc n) =
     bnd (attempt (ask (\<lambda>K t. k_int K t (Proc Wait4NoHang)) SysErrno (Proc Wait4NoHang))) (\<lambda>r. case r of
         Inl e \<Rightarrow> log_Print ''%+v''
       | Inr wpid \<Rightarrow> if wpid \<le> 0 then ret () else reapRound n)"

text \<open>One turn of the endless loop.\<close>

definition reaperTurn :: "nat \<Rightarrow> unit io" where
  "reaperTurn n = thn (time_Sleep ReaperInterval) (reapRound n)"

section \<open>Facts\<close>

text \<open>The modules of one kind, in the order of the file.\<close>

definition modulesOf :: "string \<Rightarrow> string list \<Rightarrow> (string \<times> string list) list" where
  "modulesOf kind ls = concat (map (\<lambda>l. case kernelLine l of
      KMod k file params \<Rightarrow> if k = kind then [(file, params)] else [] | _ \<Rightarrow> []) ls)"

definition isFinit :: "event \<Rightarrow> bool" where
  "isFinit e \<longleftrightarrow> (case ev_call e of Proc (FinitModule p ps) \<Rightarrow> True | _ \<Rightarrow> False)"

definition finitCall :: "string \<Rightarrow> string \<times> string list \<Rightarrow> syscall" where
  "finitCall pre m = Proc (FinitModule (modulePath pre (fst m)) (Join (snd m) '' ''))"

lemma isFinit_simps [simp]:
  "isFinit (Done (Fs f)) = False" "isFinit (Failed (Fs f) n) = False"
  "isFinit (Done (Proc (CloseFd d))) = False" "isFinit (Failed (Proc (CloseFd d)) n) = False"
  "isFinit (Done (finitCall pre m))" "isFinit (Failed (finitCall pre m) n)"
  by (simp_all add: isFinit_def finitCall_def)

lemma finitModule_Ret:
  assumes "finitModule (modulePath pre file) file params K t = (Ret u, t')"
  shows "\<exists>e. t' = t @ [e] \<and> ev_call e = finitCall pre (file, params)
    \<and> (\<forall>n. e = Failed (finitCall pre (file, params)) n \<longrightarrow> n \<in> {EEXIST, ENOTEMPTY})"
  using assms
  by (cases "k_do K t (finitCall pre (file, params))")
    (auto simp: finitModule_def finitCall_def io_defs IsExist_def underlying_def split: if_splits)

lemma emits_loadLines: "emits Q fin \<Longrightarrow> emits (\<lambda>_. True) (loadLines kind pre fin ls)"
proof (induction kind pre fin ls rule: loadLines.induct)
  case (1 kind pre fin)
  then show ?case by (auto elim: emits_mono)
next
  case (2 kind pre fin l ls)
  then show ?case
    by (cases "kernelLine l") (auto simp: Let_def finitModule_def intro!: emits_intros)
qed

lemma loadLines_fin:
  "loadLines kind pre fin ls K t = (Ret u, t') \<Longrightarrow> \<exists>v w. fin K v = (Ret u, w)"
proof (induction kind pre fin ls arbitrary: t t' rule: loadLines.induct)
  case (2 kind pre fin l ls)
  then show ?case
    by (cases "kernelLine l") (auto simp: Let_def io_Ret_iffs deferring_Ret_iff split: if_splits)
qed auto

lemma loadLines_Ret:
  assumes fin: "emits (\<lambda>c. \<not> isFinit (Done c) \<and> (\<forall>n. \<not> isFinit (Failed c n))) fin"
    and run: "loadLines kind pre fin ls K t = (Ret u, t @ es)"
  shows "map ev_call (filter isFinit es) = map (finitCall pre) (modulesOf kind ls)
    \<and> (\<forall>c n. Failed c n \<in> set es \<longrightarrow> isFinit (Failed c n) \<longrightarrow> n \<in> {EEXIST, ENOTEMPTY})
    \<and> (\<forall>l\<in>set ls. \<forall>s. kernelLine l \<noteq> KBad s)"
  using run
proof (induction ls arbitrary: t es)
  case Nil
  then have "fin K t = (Ret u, t @ es)" by simp
  then obtain es' where "t @ es = t @ es'" "list_all (\<lambda>e. \<not> isFinit (Done (ev_call e)) \<and> (\<forall>n. \<not> isFinit (Failed (ev_call e) n))) es'"
    by (rule emitsD [OF fin])
  then have "list_all (\<lambda>e. \<not> isFinit e) es" by (auto simp: list_all_iff isFinit_def)
  then show ?case by (auto simp: modulesOf_def list_all_iff filter_empty_conv)
next
  case (Cons l ls)
  show ?case
  proof (cases "kernelLine l")
    case (KMod k mfile params)
    show ?thesis
    proof (cases "k = kind")
      case True
      let ?path = "modulePath pre mfile"
      from Cons.prems KMod True obtain t1 t2 r where
        1: "finitModule ?path mfile params K (t @ [Done (Fs (OpenFile ?path))]) = (Ret (), t1)"
        and 2: "loadLines kind pre fin ls K t1 = (Ret u, t2)"
        and 3: "call SysErrno (Proc (CloseFd ?path)) K t2 = (r, t @ es)"
        by (auto simp: Let_def io_Ret_iffs deferring_Ret_iff os_OpenFile_def)
      obtain e where e: "t1 = (t @ [Done (Fs (OpenFile ?path))]) @ [e]" "ev_call e = finitCall pre (mfile, params)"
        "\<forall>n. e = Failed (finitCall pre (mfile, params)) n \<longrightarrow> n \<in> {EEXIST, ENOTEMPTY}"
        using finitModule_Ret [OF 1] by blast
      obtain e2 where e2: "t2 = t1 @ e2" by (rule emitsD [OF emits_loadLines [OF fin] 2])
      obtain c where c: "t @ es = t2 @ [c]" "\<not> isFinit c"
        using 3 [symmetric] that
        by (cases "k_do K t2 (Proc (CloseFd ?path))") (simp_all add: call_def)
      have "isFinit e" using e(2) by (simp add: isFinit_def finitCall_def)
      have es: "es = Done (Fs (OpenFile ?path)) # e # e2 @ [c]" using c e e2 by simp
      from Cons.IH [OF 2 [unfolded e2]] e c \<open>isFinit e\<close> KMod True show ?thesis
        by (auto simp: es modulesOf_def)
    qed (use Cons KMod in \<open>auto simp: modulesOf_def\<close>)
  qed (use Cons in \<open>auto simp: modulesOf_def\<close>)
qed

lemma SetSysctl_Ret:
  "SetSysctl k v K t = (Ret u, t') \<Longrightarrow> t' = t @ [Done (Fs (WriteFile
     (''/proc/sys/'' @ map (\<lambda>c. if c = CHR ''.'' then CHR ''/'' else c) k) v mode0644))]"
  by (auto simp: SetSysctl_def Let_def ioutil_WriteFile_def call_Ret_iff)

definition sysctlCall :: "string \<times> string \<Rightarrow> syscall" where
  "sysctlCall kv = Fs (WriteFile (''/proc/sys/'' @ map (\<lambda>c. if c = CHR ''.'' then CHR ''/'' else c) (fst kv)) (snd kv) mode0644)"

lemma sysctls_Ret:
  "forE xs (\<lambda>(k, v). SetSysctl k v) K t = (Ret u, t') \<Longrightarrow> t' = t @ map (\<lambda>x. Done (sysctlCall x)) xs"
  by (rule forE_calls [where f = "\<lambda>(k, v). SetSysctl k v"])
    (auto simp: sysctlCall_def dest!: SetSysctl_Ret)

lemma pollVports_result:
  assumes "pollVports n r K t = (Ret r', t')" and "n > 0"
  shows "\<exists>u. attempt (ioutil_ReadDir ''/sys/class/virtio-ports'') K u = (Ret r', u @ [Done (Fs (ReadDir ''/sys/class/virtio-ports''))])
    \<or> (\<exists>e n. r' = Inl e \<and> attempt (ioutil_ReadDir ''/sys/class/virtio-ports'') K u = (Ret r', u @ [Failed (Fs (ReadDir ''/sys/class/virtio-ports'')) n]))"
  using assms
proof (induction n arbitrary: r t)
  case (Suc n)
  from Suc.prems(1) obtain r1 t1 where a: "attempt (ioutil_ReadDir ''/sys/class/virtio-ports'') K t = (Ret r1, t1)"
    and b: "(if (case r1 of Inr vs \<Rightarrow> length vs = 1 | Inl _ \<Rightarrow> False) then ret r1
       else thn (time_Sleep 10) (pollVports n r1)) K t1 = (Ret r', t')"
    by (auto simp: bnd_Ret_iff)
  have c: "\<exists>u. attempt (ioutil_ReadDir ''/sys/class/virtio-ports'') K u = (Ret r1, u @ [Done (Fs (ReadDir ''/sys/class/virtio-ports''))])
    \<or> (\<exists>e n. r1 = Inl e \<and> attempt (ioutil_ReadDir ''/sys/class/virtio-ports'') K u = (Ret r1, u @ [Failed (Fs (ReadDir ''/sys/class/virtio-ports'')) n]))"
    using a by (intro exI [of _ t]) (auto simp: ioutil_ReadDir_def attempt_def ask_def split: sum.splits)
  show ?case
  proof (cases "n = 0 \<or> (case r1 of Inr vs \<Rightarrow> length vs = 1 | Inl _ \<Rightarrow> False)")
    case True
    then have "r' = r1" using b by (auto simp: io_Ret_iffs time_Sleep_def split: if_splits)
    with c show ?thesis by simp
  next
    case False
    then obtain t2 where "pollVports n r1 K t2 = (Ret r', t')" using b by (auto simp: io_Ret_iffs split: if_splits)
    with Suc.IH False show ?thesis by simp
  qed
qed simp

section \<open>Properties\<close>

text \<open>
  C32: Loading the modules of one kind succeeds only if every line of the configuration up to its end
  is well formed; then exactly the modules of that kind have been handed to the kernel, in the order
  of the file, with their parameters, and each was accepted or was loaded already.
\<close>

theorem kernel_modules_loaded:
  assumes "loadKernelModules kind pre K t = (Ret (), t @ es)"
    and "k_file K t ''/kernel.conf'' = Inr (content, None)"
  shows "map ev_call (filter isFinit es) = map (finitCall pre) (modulesOf kind (fst (scanLines content)))
    \<and> (\<forall>c n. Failed c n \<in> set es \<longrightarrow> isFinit (Failed c n) \<longrightarrow> n \<in> {EEXIST, ENOTEMPTY})
    \<and> \<not> snd (scanLines content) \<and> (\<forall>l\<in>set (fst (scanLines content)). \<forall>s. kernelLine l \<noteq> KBad s)"
proof -
  obtain ls tl where sl: "scanLines content = (ls, tl)" by force
  let ?fin = "if tl then fail (WithStack ScanTooLong) else ret () :: unit io"
  have fin: "emits (\<lambda>c. \<not> isFinit (Done c) \<and> (\<forall>n. \<not> isFinit (Failed c n))) ?fin" by (intro emits_intros)
  obtain t1 r where l: "loadLines kind pre ?fin ls K (t @ [Done (Fs (ReadFile ''/kernel.conf''))]) = (Ret (), t1)"
    and c: "call SysErrno (Proc (CloseFd ''/kernel.conf'')) K t1 = (r, t @ es)"
    using assms by (auto simp: loadKernelModules_def os_Open_def bnd_Ret_iff ask_Ret_iff deferring_Ret_iff sl cong: if_cong)
  obtain e1 where e1: "t1 = (t @ [Done (Fs (ReadFile ''/kernel.conf''))]) @ e1"
    by (rule emitsD [OF emits_loadLines [OF fin] l])
  obtain x where x: "t @ es = t1 @ [x]" "\<not> isFinit x"
    using c [symmetric] that by (cases "k_do K t1 (Proc (CloseFd ''/kernel.conf''))") (simp_all add: call_def)
  have "\<not> tl" using loadLines_fin [OF l] by auto
  from loadLines_Ret [OF fin l [unfolded e1]] x e1 this show ?thesis by (auto simp: sl)
qed

definition demo_conf :: kernel where
  "demo_conf = quiet_kernel\<lparr>k_file := (\<lambda>t p. Inr (''base /a.ko x=1'', None))\<rparr>"

lemma demo_kernelLine: "kernelLine ''base /a.ko x=1'' = KMod ''base'' ''/a.ko'' [''x=1'']"
  by (simp add: kernelLine_def TrimSpace_def isSpace_def HasPrefix_def Fields_def Let_def)

lemma demo_scanLines: "scanLines ''base /a.ko x=1'' = ([''base /a.ko x=1''], False)"
  by (simp add: scanLines_def rawLines_def maxToken_def dropCR_def Let_def)

lemma demo_modulePath: "modulePath [] ''/a.ko'' = ''/a.ko''"
  by (simp add: modulePath_def filepath_Join_def Clean_def IsAbs_def)

lemma demo_loadKernelModules:
  "loadKernelModules ''base'' [] demo_conf [] =
     (Ret (), [] @ [Done (Fs (ReadFile ''/kernel.conf'')), Done (Fs (OpenFile ''/a.ko'')),
       Done (Proc (FinitModule ''/a.ko'' ''x=1'')), Done (Proc (CloseFd ''/a.ko'')),
       Done (Proc (CloseFd ''/kernel.conf''))])"
proof -
  have l: "loadLines ''base'' [] (ret ()) [''base /a.ko x=1''] = thn (os_OpenFile ''/a.ko'')
      (deferring (thn (finitModule ''/a.ko'' ''/a.ko'' [''x=1'']) (ret ())) (call SysErrno (Proc (CloseFd ''/a.ko''))))"
    by (simp add: demo_kernelLine demo_modulePath Let_def del: append.simps)
  have c: "call w c demo_conf t = (Ret (), t @ [Done c])" for w c t by (simp add: call_def demo_conf_def)
  have "loadKernelModules ''base'' [] demo_conf [] = deferring (loadLines ''base'' [] (ret ()) [''base /a.ko x=1''])
      (call SysErrno (Proc (CloseFd ''/kernel.conf''))) demo_conf [Done (Fs (ReadFile ''/kernel.conf''))]"
    by (simp add: loadKernelModules_def os_Open_def bnd_def ask_def demo_conf_def demo_scanLines del: loadLines.simps)
  then show ?thesis
    unfolding l by (simp add: deferring_def thn_def bnd_def os_OpenFile_def c finitModule_def attempt_def ret_def)
qed

theorem kernel_modules_loaded_witness:
  "modulesOf ''base'' [''base /a.ko x=1''] = [(''/a.ko'', [''x=1''])]
   \<and> map (finitCall []) (modulesOf ''base'' [''base /a.ko x=1'']) = [Proc (FinitModule ''/a.ko'' ''x=1'')]"
  using kernel_modules_loaded [OF demo_loadKernelModules, of "''base /a.ko x=1''"]
  by (simp add: demo_conf_def demo_scanLines modulesOf_def demo_kernelLine isFinit_def)

text \<open>
  C31: The settings that init forces come last: when the sysctl settings have been written, the
  defaults came first, then those of the container, then the overrides, each exactly once, so that
  no setting of the container can undo \<^verbatim>\<open>kernel.kexec_load_disabled = 1\<close>. This holds for every
  order in which Go walks the maps.
\<close>

theorem sysctl_override_last:
  assumes "setSysctl mo vms K t = (Ret (), t')" and "fair_order mo"
  shows "t' = t @ map (\<lambda>x. Done (sysctlCall x)) (mo_strings mo SysctlDefault @ mo_strings mo vms)
     @ [Done (Fs (WriteFile ''/proc/sys/kernel/kexec_load_disabled'' ''1'' mode0644))]"
proof -
  have "mo_strings mo SysctlOverride = SysctlOverride"
  proof -
    have "mset (mo_strings mo SysctlOverride) = mset SysctlOverride" using assms(2) by (simp add: fair_order_def)
    then show ?thesis by (simp add: SysctlOverride_def)
  qed
  moreover obtain u v where
    "forE (mo_strings mo SysctlDefault) (\<lambda>(k, v). SetSysctl k v) K t = (Ret (), u)"
    "forE (mo_strings mo vms) (\<lambda>(k, v). SetSysctl k v) K u = (Ret (), v)"
    "forE (mo_strings mo SysctlOverride) (\<lambda>(k, v). SetSysctl k v) K v = (Ret (), t')"
    using assms(1) by (auto simp: setSysctl_def thn_Ret_iff)
  note this [THEN sysctls_Ret]
  ultimately show ?thesis by (simp add: SysctlOverride_def sysctlCall_def)
qed

theorem sysctl_override_last_witness:
  "last (snd (setSysctl source_order [(''kernel.kexec_load_disabled'', ''0'')] quiet_kernel [])) =
     Done (Fs (WriteFile ''/proc/sys/kernel/kexec_load_disabled'' ''1'' mode0644))"
proof -
  have "returns quiet_kernel (setSysctl source_order [(''kernel.kexec_load_disabled'', ''0'')])"
    unfolding setSysctl_def seqs.simps SetSysctl_def Let_def ioutil_WriteFile_def
    by (intro returns_intros) simp_all
  then obtain t' where "setSysctl source_order [(''kernel.kexec_load_disabled'', ''0'')] quiet_kernel [] = (Ret (), t')"
    by (rule returnsE [where t = "[]"]) simp
  from sysctl_override_last [OF this fair_source_order] this show ?thesis by simp
qed

text \<open>
  Init takes a port as the device of the channel only if, in the listing that counted, it was the
  only port of the guest.
\<close>

lemma vport_is_the_only_one:
  assumes "vportDevice K t = (Ret dev, t')"
  shows "\<exists>u name b. k_dirents K u ''/sys/class/virtio-ports'' = Inr [(name, b)] \<and> dev = ''/dev/'' @ name"
proof -
  obtain vs t1 where p: "pollVports 100 (Inr []) K t = (Ret (Inr vs), t1)"
    and d: "(case vs of [p] \<Rightarrow> ret (''/dev/'' @ fst p) | _ \<Rightarrow> fail (WithStack (Errorf ''Found %d vports. Expected 1'' [Itoa (int (length vs))]))) K t1 = (Ret dev, t')"
  proof -
    obtain a t1 where "pollVports 100 (Inr []) K t = (Ret a, t1)"
      and "(case a of Inl e \<Rightarrow> fail (WithStack e) | Inr vports \<Rightarrow> (case vports of [p] \<Rightarrow> ret (''/dev/'' @ fst p)
        | _ \<Rightarrow> fail (WithStack (Errorf ''Found %d vports. Expected 1'' [Itoa (int (length vports))])))) K t1 = (Ret dev, t')"
      using assms unfolding vportDevice_def bnd_Ret_iff by blast
    with that show thesis by (cases a) simp_all
  qed
  obtain name b where vs: "vs = [(name, b)]" and dev: "dev = ''/dev/'' @ name"
    using d by (auto split: list.splits)
  show ?thesis
    using pollVports_result [OF p] vs dev
    by (auto simp: ioutil_ReadDir_def attempt_Ret_iff ask_Ret_iff)
qed

end
