(* ===== verification/Init_Caps.thy ===== *)
theory Init_Caps
  imports Util
begin

text \<open>
  \<^verbatim>\<open>cmd/init/capabilities.go\<close>: the capabilities of the container process. The package
  \<^verbatim>\<open>capability\<close> is an argument: the list of its capabilities with their names, and its
  constant \<^verbatim>\<open>CAP_LAST_CAP\<close>.
\<close>

text \<open>Later entries of the map replace earlier ones, as in the loop that fills it.\<close>

definition capMap :: "(nat \<times> string) list \<Rightarrow> nat \<Rightarrow> string \<Rightarrow> nat option" where
  "capMap caps lastCap =
     map_of (rev (map (\<lambda>(v, n). (''CAP_'' @ ToUpper n, v)) (filter (\<lambda>(v, n). v \<le> lastCap) caps)))"

fun listToCap :: "(string \<Rightarrow> nat option) \<Rightarrow> string list \<Rightarrow> gerror + nat list" where
  "listToCap m [] = Inr []"
| "listToCap m (v # vs) = (case m v of
      None \<Rightarrow> Inl (WithStack (Errorf ''unknown capability %q'' [v]))
    | Some c \<Rightarrow> (case listToCap m vs of Inl e \<Rightarrow> Inl e | Inr cs \<Rightarrow> Inr (c # cs)))"

definition minCaps :: "string list" where
  "minCaps = [''CAP_SETGID'', ''CAP_SETUID'', ''CAP_SYS_ADMIN'']"

definition capSets :: "appCapabilities \<Rightarrow> (captype \<times> string list) list" where
  "capSets vmcaps =
     [(EFFECTIVE, minCaps), (PERMITTED, minCaps), (BOUNDS, caps_Bounding vmcaps),
      (INHERITABLE, caps_Inheritable vmcaps)]"

definition dropCapabilities ::
  "(nat \<times> string) list \<Rightarrow> nat \<Rightarrow> maporder \<Rightarrow> appCapabilities \<Rightarrow> unit io" where
  "dropCapabilities caps lastCap mo vmcaps =
     seqs [mapErr WithStack (call (ExtError ''capability'') (Sec CapNewPid)),
           note_call (Sec CapClear),
           forE (mo_caps mo (capSets vmcaps)) (\<lambda>(capType, names).
             case listToCap (capMap caps lastCap) names of
               Inl e \<Rightarrow> fail e
             | Inr cs \<Rightarrow> note_call (Sec (CapSet capType cs))),
           mapErr WithStack (call (ExtError ''capability'') (Sec CapApply))]"

section \<open>Facts\<close>

lemma listToCap_Inr:
  "listToCap m names = Inr cs \<Longrightarrow> length cs = length names \<and> (\<forall>i<length names. m (names ! i) = Some (cs ! i))"
proof (induction names arbitrary: cs)
  case (Cons v vs)
  then obtain c cs' where "m v = Some c" "listToCap m vs = Inr cs'" "cs = c # cs'"
    by (auto split: option.splits sum.splits)
  with Cons.IH show ?case by (auto simp: nth_Cons split: nat.splits)
qed simp

definition setCaps :: "(string \<Rightarrow> nat option) \<Rightarrow> captype \<times> string list \<Rightarrow> unit io" where
  "setCaps m = (\<lambda>(capType, names). case listToCap m names of
      Inl e \<Rightarrow> fail e | Inr cs \<Rightarrow> note_call (Sec (CapSet capType cs)))"

lemma setCaps_Ret:
  assumes "setCaps m (ty, names) K t = (Ret u, t')"
  shows "\<exists>cs. listToCap m names = Inr cs \<and> t' = t @ [Done (Sec (CapSet ty cs))]"
  using assms by (auto simp: setCaps_def note_call_Ret_iff split: sum.splits)

lemma emits_setCaps: "emits (\<lambda>c. c \<noteq> Sec CapApply) (setCaps m x)"
  by (auto simp: setCaps_def intro!: emits_intros split: prod.splits)

definition capsPrefix :: "(string \<Rightarrow> nat option) \<Rightarrow> (captype \<times> string list) list \<Rightarrow> unit io" where
  "capsPrefix m order = thn (mapErr WithStack (call (ExtError ''capability'') (Sec CapNewPid)))
     (thn (note_call (Sec CapClear)) (forE order (setCaps m)))"

lemma dropCapabilities_alt:
  "dropCapabilities caps l mo vc =
     thn (capsPrefix (capMap caps l) (mo_caps mo (capSets vc)))
       (mapErr WithStack (call (ExtError ''capability'') (Sec CapApply)))"
proof -
  have "thn m (ret ()) = m" for m :: "unit io"
    by (auto simp: io_defs fun_eq_iff split: prod.splits outcome.splits)
  then show ?thesis
    by (simp add: dropCapabilities_def capsPrefix_def setCaps_def [abs_def] thn_def bnd_assoc)
qed

lemma emits_capsPrefix: "emits (\<lambda>c. c \<noteq> Sec CapApply) (capsPrefix m order)"
  unfolding capsPrefix_def by (intro emits_intros emits_setCaps) simp_all

section \<open>Properties\<close>

text \<open>
  C18: Capabilities change all together or not at all: if the new sets are applied, then every
  capability named in the bounding and the inheritable set is known, both sets have been filled with
  exactly the named capabilities, and the effective and the permitted set have been filled with
  nothing but the three that the following steps need. This holds in whatever order Go walks the
  map of sets.
\<close>

theorem capabilities_all_or_nothing:
  assumes "fair_order mo" and "dropCapabilities caps l mo vc K t = (r, t @ es)"
    and "e \<in> set es" and "ev_call e = Sec CapApply"
  shows "\<forall>(ty, names)\<in>set [(EFFECTIVE, minCaps), (PERMITTED, minCaps), (BOUNDS, caps_Bounding vc),
       (INHERITABLE, caps_Inheritable vc)].
     \<exists>cs. Done (Sec (CapSet ty cs)) \<in> set es \<and> length cs = length names
       \<and> (\<forall>i<length names. capMap caps l (names ! i) = Some (cs ! i))"
proof -
  let ?m = "capMap caps l" and ?order = "mo_caps mo (capSets vc)"
  have ap: "emits (\<lambda>_. True) (mapErr WithStack (call (ExtError ''capability'') (Sec CapApply)))"
    by (intro emits_intros) simp
  have ne: "\<not> ev_call e \<noteq> Sec CapApply" using assms(4) by simp
  obtain u es1 es2 where pre: "capsPrefix ?m ?order K t = (Ret u, t @ es1)" and es: "es = es1 @ es2"
    by (rule thn_reaches [OF emits_capsPrefix ap assms(2) [unfolded dropCapabilities_alt] assms(3) ne])
  then obtain v where v: "forE ?order (setCaps ?m) K (t @ v) = (Ret u, t @ es1)"
    by (auto simp: capsPrefix_def io_Ret_iffs)
  have "\<exists>cs. Done (Sec (CapSet ty cs)) \<in> set es \<and> listToCap ?m names = Inr cs" if "(ty, names) \<in> set (capSets vc)" for ty names
  proof -
    have "(ty, names) \<in> set ?order" using that fair_set(3) [OF assms(1)] by blast
    from forE_each [OF emits_setCaps v this] obtain p q w where
      "setCaps ?m (ty, names) K ((t @ v) @ p) = (Ret (), (t @ v) @ p @ q)" "t @ es1 = (t @ v) @ p @ q @ w" .
    with setCaps_Ret [OF this(1)] es show ?thesis by auto
  qed
  then have "\<forall>(ty, names)\<in>set (capSets vc). \<exists>cs. Done (Sec (CapSet ty cs)) \<in> set es \<and> length cs = length names
       \<and> (\<forall>i<length names. ?m (names ! i) = Some (cs ! i))"
    using listToCap_Inr by fast
  then show ?thesis unfolding capSets_def .
qed

definition demo_caps :: "(nat \<times> string) list" where
  "demo_caps = [(6, ''setgid''), (7, ''setuid''), (21, ''sys_admin'')]"

definition demo_vmcaps :: appCapabilities where
  "demo_vmcaps = \<lparr>caps_Ambient = [], caps_Bounding = [''CAP_SETUID''], caps_Effective = [],
     caps_Inheritable = [], caps_Permitted = []\<rparr>"

lemma demo_capabilities:
  "dropCapabilities demo_caps 40 source_order demo_vmcaps quiet_kernel [] =
     (Ret (), [] @ [Done (Sec CapNewPid), Done (Sec CapClear), Done (Sec (CapSet EFFECTIVE [6, 7, 21])),
        Done (Sec (CapSet PERMITTED [6, 7, 21])), Done (Sec (CapSet BOUNDS [7])),
        Done (Sec (CapSet INHERITABLE [])), Done (Sec CapApply)])"
proof -
  have "listToCap (capMap demo_caps 40) minCaps = Inr [6, 7, 21]"
    "listToCap (capMap demo_caps 40) [''CAP_SETUID''] = Inr [7]"
    by code_simp+
  then show ?thesis
    by (simp add: dropCapabilities_def source_order_def capSets_def demo_vmcaps_def io_defs)
qed

theorem capabilities_all_or_nothing_witness:
  "fair_order source_order \<and> capMap demo_caps 40 ''CAP_SETUID'' = Some 7"
  using capabilities_all_or_nothing [OF fair_source_order demo_capabilities, of "Done (Sec CapApply)"] fair_source_order
  by (auto simp: demo_vmcaps_def)

end
