(* ===== verification/Init_Seccomp.thy ===== *)
theory Init_Seccomp
  imports Util
begin

text \<open>
  \<^verbatim>\<open>cmd/init/seccomp.go\<close>: the system call filter of the container process. The profile is
  the type \<^verbatim>\<open>LinuxSeccomp\<close> of the OCI runtime specification. libseccomp is the environment:
  every call of it is an event, and it can fail.
\<close>

record seccompArg =
  sa_Index :: nat
  sa_Value :: nat
  sa_ValueTwo :: nat
  sa_Op :: string

record seccompSyscall =
  ss_Names :: "string list"
  ss_Action :: string
  ss_Args :: "seccompArg list"

record linuxSeccomp =
  ls_DefaultAction :: string
  ls_Architectures :: "string list"
  ls_Syscalls :: "seccompSyscall list"

section \<open>Names\<close>

text \<open>The constants of libseccomp-golang and its method \<^verbatim>\<open>SetReturnCode\<close>.\<close>

record scmplib =
  ActKill :: int
  ActTrap :: int
  ActErrno :: int
  ActTrace :: int
  ActAllow :: int
  SetReturnCode :: "int \<Rightarrow> int \<Rightarrow> int"
  CompareNotEqual :: nat
  CompareLess :: nat
  CompareLessOrEqual :: nat
  CompareEqual :: nat
  CompareGreaterEqual :: nat
  CompareGreater :: nat
  CompareMaskedEqual :: nat

definition unix_EPERM :: int where "unix_EPERM = 1"

definition actions :: "scmplib \<Rightarrow> (string \<times> int) list" where
  "actions L =
     [(''SCMP_ACT_KILL'', ActKill L),
      (''SCMP_ACT_ERRNO'', SetReturnCode L (ActErrno L) unix_EPERM),
      (''SCMP_ACT_TRAP'', ActTrap L),
      (''SCMP_ACT_ALLOW'', ActAllow L),
      (''SCMP_ACT_TRACE'', SetReturnCode L (ActTrace L) unix_EPERM)]"

definition convertAction :: "scmplib \<Rightarrow> string \<Rightarrow> gerror + int" where
  "convertAction L a = (case map_of (actions L) a of
      None \<Rightarrow> Inl (Errorf ''seccomp: invalid action %v'' [a]) | Some act \<Rightarrow> Inr act)"

definition archs :: "(string \<times> string) list" where
  "archs =
     [(''SCMP_ARCH_X86'', ''x86''), (''SCMP_ARCH_X86_64'', ''amd64''), (''SCMP_ARCH_X32'', ''x32''),
      (''SCMP_ARCH_ARM'', ''arm''), (''SCMP_ARCH_AARCH64'', ''arm64''), (''SCMP_ARCH_MIPS'', ''mips''),
      (''SCMP_ARCH_MIPS64'', ''mips64''), (''SCMP_ARCH_MIPS64N32'', ''mips64n32''),
      (''SCMP_ARCH_MIPSEL'', ''mipsel''), (''SCMP_ARCH_MIPSEL64'', ''mipsel64''),
      (''SCMP_ARCH_MIPSEL64N32'', ''mipsel64n32''), (''SCMP_ARCH_PPC'', ''ppc''),
      (''SCMP_ARCH_PPC64'', ''ppc64''), (''SCMP_ARCH_PPC64LE'', ''ppc64le''),
      (''SCMP_ARCH_S390'', ''s390''), (''SCMP_ARCH_S390X'', ''s390x'')]"

definition convertArch :: "string \<Rightarrow> gerror + string" where
  "convertArch a = (case map_of archs a of
      None \<Rightarrow> Inl (Errorf ''seccomp: invalid arch %v'' [a]) | Some arch \<Rightarrow> Inr arch)"

definition operators :: "scmplib \<Rightarrow> (string \<times> nat) list" where
  "operators L =
     [(''SCMP_CMP_NE'', CompareNotEqual L), (''SCMP_CMP_LT'', CompareLess L),
      (''SCMP_CMP_LE'', CompareLessOrEqual L), (''SCMP_CMP_EQ'', CompareEqual L),
      (''SCMP_CMP_GE'', CompareGreaterEqual L), (''SCMP_CMP_GT'', CompareGreater L),
      (''SCMP_CMP_MASKED_EQ'', CompareMaskedEqual L)]"

definition convertOperator :: "scmplib \<Rightarrow> string \<Rightarrow> gerror + nat" where
  "convertOperator L s = (case map_of (operators L) s of
      None \<Rightarrow> Inl (Errorf ''seccomp: invalid operator %v'' [s]) | Some n \<Rightarrow> Inr n)"

definition lift_error :: "gerror + 'a \<Rightarrow> 'a io" where
  "lift_error r = (case r of Inl e \<Rightarrow> fail e | Inr a \<Rightarrow> ret a)"

section \<open>Support in the kernel\<close>

definition canDoSeccomp :: "bool io" where
  "canDoSeccomp =
     bnd (os_Open ''/proc/self/status'') (\<lambda>(text, rderr).
       deferring
         (let (ls, toolong) = scanLines text
          in if toolong then fail ScanTooLong
             else case rderr of
                 Some e \<Rightarrow> fail (PathError ''read'' ''/proc/self/status'' e)
               | None \<Rightarrow> ret (list_ex (\<lambda>l. HasPrefix l ''Seccomp:'') ls))
         (call SysErrno (Proc (CloseFd ''/proc/self/status''))))"

section \<open>Building the filter\<close>

abbreviation scmp :: "seccall \<Rightarrow> unit io" where
  "scmp c \<equiv> mapErr WithStack (call (ExtError ''seccomp'') (Sec c))"

definition addArch :: "string \<Rightarrow> unit io" where
  "addArch a =
     bnd (lift_error (convertArch a)) (\<lambda>arch.
     bnd (mapErr WithStack (ask (\<lambda>K t. k_int K t (Sec (GetArchFromString arch))) (ExtError ''seccomp'')
            (Sec (GetArchFromString arch)))) (\<lambda>n.
     scmp (AddArch (nat n))))"

definition makeCondition :: "scmplib \<Rightarrow> seccompArg \<Rightarrow> (nat \<times> nat \<times> nat \<times> nat) io" where
  "makeCondition L arg =
     bnd (lift_error (convertOperator L (sa_Op arg))) (\<lambda>op.
     thn (scmp (MakeCondition (sa_Index arg) op (sa_Value arg) (sa_ValueTwo arg)))
       (ret (sa_Index arg, op, sa_Value arg, sa_ValueTwo arg)))"

fun makeConditions :: "scmplib \<Rightarrow> seccompArg list \<Rightarrow> (nat \<times> nat \<times> nat \<times> nat) list io" where
  "makeConditions L [] = ret []"
| "makeConditions L (a # as) =
     bnd (makeCondition L a) (\<lambda>c. bnd (makeConditions L as) (\<lambda>cs. ret (c # cs)))"

text \<open>One name of one rule; a name that libseccomp does not know is skipped.\<close>

definition addRule :: "scmplib \<Rightarrow> seccompSyscall \<Rightarrow> string \<Rightarrow> unit io" where
  "addRule L sc name =
     (if name = [] then fail (WithStack (Errorf ''syscall name is empty'' []))
      else bnd (attempt (ask (\<lambda>K t. k_int K t (Sec (GetSyscallFromName name))) (ExtError ''seccomp'')
             (Sec (GetSyscallFromName name)))) (\<lambda>r. case r of
          Inl _ \<Rightarrow> ret ()
        | Inr nr \<Rightarrow>
            bnd (lift_error (convertAction L (ss_Action sc))) (\<lambda>action.
              if ss_Args sc = [] then scmp (AddRule nr action)
              else bnd (makeConditions L (ss_Args sc)) (\<lambda>conds. scmp (AddRuleConditional nr action conds)))))"

definition buildFilter :: "scmplib \<Rightarrow> linuxSeccomp \<Rightarrow> unit io" where
  "buildFilter L sec =
     bnd (lift_error (convertAction L (ls_DefaultAction sec))) (\<lambda>defaultAction.
     seqs [scmp (NewFilter defaultAction),
           forE (ls_Architectures sec) addArch,
           mapErr (ErrorfE ''set no new privileges failed: %v'' [])
             (call (ExtError ''seccomp'') (Sec (SetNoNewPrivsBit False))),
           forE (ls_Syscalls sec) (\<lambda>sc. forE (ss_Names sc) (addRule L sc)),
           mapErr (Wrap ''error loading seccomp filter into kernel'')
             (call (ExtError ''seccomp'') (Sec LoadFilter))])"

definition initSeccomp :: "scmplib \<Rightarrow> linuxSeccomp gobdec \<Rightarrow> byte list \<Rightarrow> unit io" where
  "initSeccomp L dec seccompGob =
     (if seccompGob = [] then ret ()
      else bnd canDoSeccomp (\<lambda>ok.
        if \<not> ok then fail (Errorf ''Kernel does not support seccomp'' [])
        else case dec seccompGob of
            None \<Rightarrow> fail (WithStack (Errorf ''gob: decode'' []))
          | Some sec \<Rightarrow> buildFilter L sec))"

section \<open>Facts\<close>

lemma emits_lift: "emits P (lift_error r)"
  unfolding lift_error_def by (intro emits_intros)

lemma lift_error_Ret [simp]: "lift_error r K t = (Ret a, t') \<longleftrightarrow> r = Inr a \<and> t' = t"
  by (cases r) (auto simp: lift_error_def)

lemma emits_any_makeConditions: "emits (\<lambda>_. True) (makeConditions L as)"
  by (induction as) (auto simp: makeCondition_def intro!: emits_intros emits_lift)

lemma emits_any_addRule: "emits (\<lambda>_. True) (addRule L sc n)"
  unfolding addRule_def by (intro emits_intros emits_lift emits_any_makeConditions) simp_all

lemma emits_any_addArch: "emits (\<lambda>_. True) (addArch a)"
  unfolding addArch_def by (intro emits_intros emits_lift) simp_all

text \<open>What one name of a rule leads to: it is unknown to the system, or its rule is in the filter.\<close>

definition rule_in :: "scmplib \<Rightarrow> seccompSyscall \<Rightarrow> string \<Rightarrow> trace \<Rightarrow> bool" where
  "rule_in L sc name es \<longleftrightarrow>
     (\<exists>n. Failed (Sec (GetSyscallFromName name)) n \<in> set es)
   \<or> (\<exists>nr action. convertAction L (ss_Action sc) = Inr action \<and>
        (if ss_Args sc = [] then Done (Sec (AddRule nr action)) \<in> set es
         else \<exists>conds. length conds = length (ss_Args sc) \<and> Done (Sec (AddRuleConditional nr action conds)) \<in> set es))"

lemma rule_in_mono: "rule_in L sc name es \<Longrightarrow> set es \<subseteq> set es' \<Longrightarrow> rule_in L sc name es'"
  unfolding rule_in_def by (auto split: if_splits) blast+

lemma makeConditions_length:
  "makeConditions L as K t = (Ret cs, t') \<Longrightarrow> length cs = length as"
  by (induction as arbitrary: cs t) (auto simp: bnd_Ret_iff)

lemma addRule_Ret:
  assumes "addRule L sc name K t = (Ret u, t @ es)"
  shows "name \<noteq> [] \<and> rule_in L sc name es"
proof -
  have ne: "name \<noteq> []" using assms by (auto simp: addRule_def)
  show ?thesis
  proof (cases "k_int K t (Sec (GetSyscallFromName name))")
    case (Inl n)
    then have "es = [Failed (Sec (GetSyscallFromName name)) n]"
      using assms ne by (auto simp: addRule_def io_defs)
    then show ?thesis using ne by (auto simp: rule_in_def)
  next
    case (Inr nr)
    define v where "v = t @ [Done (Sec (GetSyscallFromName name))]"
    have step: "bnd (lift_error (convertAction L (ss_Action sc))) (\<lambda>action.
        if ss_Args sc = [] then scmp (AddRule nr action)
        else bnd (makeConditions L (ss_Args sc)) (\<lambda>conds. scmp (AddRuleConditional nr action conds))) K v = (Ret u, t @ es)"
      using assms ne Inr by (simp add: addRule_def v_def) (simp add: bnd_def attempt_def ask_def)
    then obtain action where a: "convertAction L (ss_Action sc) = Inr action"
      and b: "(if ss_Args sc = [] then scmp (AddRule nr action)
        else bnd (makeConditions L (ss_Args sc)) (\<lambda>conds. scmp (AddRuleConditional nr action conds))) K v = (Ret u, t @ es)"
      by (auto simp: bnd_Ret_iff)
    show ?thesis
    proof (cases "ss_Args sc = []")
      case True
      with a b ne show ?thesis by (auto simp: rule_in_def call_Ret_iff v_def)
    next
      case False
      with b obtain conds w where c: "makeConditions L (ss_Args sc) K v = (Ret conds, w)"
        "t @ es = w @ [Done (Sec (AddRuleConditional nr action conds))]"
        by (auto simp: io_Ret_iffs)
      obtain ws where "w = v @ ws" by (rule emitsD [OF emits_any_makeConditions c(1)])
      with c(2) have "Done (Sec (AddRuleConditional nr action conds)) \<in> set es" by (auto simp: v_def)
      with a False ne makeConditions_length [OF c(1)] show ?thesis by (auto simp: rule_in_def)
    qed
  qed
qed

lemma rules_Ret:
  assumes run: "forE scs (\<lambda>sc. forE (ss_Names sc) (addRule L sc)) K t = (Ret u, t @ es)"
    and sc: "sc \<in> set scs" and n: "name \<in> set (ss_Names sc)"
  shows "name \<noteq> [] \<and> rule_in L sc name es"
proof -
  have inner: "emits (\<lambda>_. True) (forE (ss_Names sc) (addRule L sc))" for sc
    by (intro emits_forE emits_any_addRule)
  obtain p q r where 1: "forE (ss_Names sc) (addRule L sc) K (t @ p) = (Ret (), t @ p @ q)" "t @ es = t @ p @ q @ r"
    by (rule forE_each [OF inner run sc])
  obtain p' q' r' where 2: "addRule L sc name K ((t @ p) @ p') = (Ret (), (t @ p) @ p' @ q')" "t @ p @ q = (t @ p) @ p' @ q' @ r'"
    by (rule forE_each [OF emits_any_addRule 1(1) n])
  have "addRule L sc name K ((t @ p) @ p') = (Ret (), ((t @ p) @ p') @ q')" using 2(1) by simp
  from addRule_Ret [OF this] 1 2 show ?thesis by (auto elim: rule_in_mono)
qed

section \<open>Properties\<close>


text \<open>A profile that denies everything but \<^verbatim>\<open>read\<close>.\<close>

definition demo_lib :: scmplib where
  "demo_lib = \<lparr>ActKill = 1, ActTrap = 2, ActErrno = 3, ActTrace = 4, ActAllow = 5,
     SetReturnCode = (\<lambda>a c. a + 65536 * c), CompareNotEqual = 1, CompareLess = 2, CompareLessOrEqual = 3,
     CompareEqual = 4, CompareGreaterEqual = 5, CompareGreater = 6, CompareMaskedEqual = 7\<rparr>"

definition demo_profile :: linuxSeccomp where
  "demo_profile = \<lparr>ls_DefaultAction = ''SCMP_ACT_ERRNO'', ls_Architectures = [],
     ls_Syscalls = [\<lparr>ss_Names = [''read''], ss_Action = ''SCMP_ACT_ALLOW'', ss_Args = []\<rparr>]\<rparr>"

definition demo_status :: kernel where
  "demo_status = quiet_kernel\<lparr>k_file := (\<lambda>t p. Inr (''Seccomp: 0'', None))\<rparr>"

lemma demo_call: "call w c demo_status t = (Ret (), t @ [Done c])"
  and demo_ask: "ask (\<lambda>K t. k_int K t c) w c' demo_status t = (Ret 0, t @ [Done c'])"
  and demo_actions: "convertAction demo_lib ''SCMP_ACT_ERRNO'' = Inr 65539"
    "convertAction demo_lib ''SCMP_ACT_ALLOW'' = Inr 5"
  by (simp_all add: call_def ask_def demo_status_def convertAction_def actions_def demo_lib_def unix_EPERM_def)

lemma demo_mapErr: "mapErr g (call w c) demo_status t = (Ret (), t @ [Done c])"
  by (simp add: demo_call)

lemma demo_addRule:
  "addRule demo_lib \<lparr>ss_Names = [''read''], ss_Action = ''SCMP_ACT_ALLOW'', ss_Args = []\<rparr> ''read'' demo_status t =
     (Ret (), t @ [Done (Sec (GetSyscallFromName ''read'')), Done (Sec (AddRule 0 5))])"
  by (simp add: addRule_def bnd_def attempt_def demo_ask demo_mapErr lift_error_def demo_actions ret_def)

lemma demo_canDoSeccomp:
  "canDoSeccomp demo_status [] = (Ret True, [Done (Fs (ReadFile ''/proc/self/status'')), Done (Proc (CloseFd ''/proc/self/status''))])"
proof -
  have "scanLines ''Seccomp: 0'' = ([''Seccomp: 0''], False)"
    by (simp add: scanLines_def rawLines_def maxToken_def dropCR_def Let_def)
  then show ?thesis
    by (simp add: canDoSeccomp_def os_Open_def bnd_def ask_def deferring_def ret_def call_def demo_status_def HasPrefix_def)
qed

lemma demo_buildFilter:
  "buildFilter demo_lib demo_profile demo_status t =
     (Ret (), t @ [Done (Sec (NewFilter 65539)), Done (Sec (SetNoNewPrivsBit False)), Done (Sec (GetSyscallFromName ''read'')),
       Done (Sec (AddRule 0 5)), Done (Sec LoadFilter)])"
  by (simp add: buildFilter_def demo_profile_def demo_actions lift_error_def)
    (simp add: thn_def bnd_def demo_mapErr demo_addRule ret_def)

lemma demo_initSeccomp:
  "initSeccomp demo_lib (\<lambda>_. Some demo_profile) [1] demo_status [] =
     (Ret (), [] @ [Done (Fs (ReadFile ''/proc/self/status'')), Done (Proc (CloseFd ''/proc/self/status'')),
       Done (Sec (NewFilter 65539)), Done (Sec (SetNoNewPrivsBit False)), Done (Sec (GetSyscallFromName ''read'')),
       Done (Sec (AddRule 0 5)), Done (Sec LoadFilter)])"
  by (simp add: initSeccomp_def bnd_def demo_canDoSeccomp demo_buildFilter)


end
