(* ===== verification/Init_Disk.thy ===== *)
theory Init_Disk
  imports Init_Mount Init_System
begin

text \<open>
  \<^verbatim>\<open>cmd/init/disk.go\<close>: finding the disks of the container in the guest by their serial number,
  and mounting them.
\<close>

text \<open>The entries of \<^verbatim>\<open>/sys/block\<close>, each with a flag for symbolic links; the name found, or \<open>[]\<close>.\<close>

fun findSerial :: "string \<Rightarrow> (string \<times> bool) list \<Rightarrow> string io" where
  "findSerial serial [] = ret []"
| "findSerial serial ((name, isLink) # fs) =
     (if \<not> isLink then findSerial serial fs
      else if \<not> HasPrefix name ''vd'' then findSerial serial fs
      else bnd (mapErr WithStack (ioutil_ReadFile (filepath_Join [''/sys/block'', name, ''serial'']))) (\<lambda>buf.
        if serial = TrimSpace buf then ret name else findSerial serial fs))"

definition findDisk :: "string \<Rightarrow> string io" where
  "findDisk serial = bnd (mapErr WithStack (ioutil_ReadDir ''/sys/block'')) (findSerial serial)"

definition createDiskSymlink :: "string \<Rightarrow> string \<Rightarrow> unit io" where
  "createDiskSymlink dev name =
     bnd (mapErr WithStack os_Getwd) (\<lambda>wd.
     deferring
       (bnd (DirExists ''/dev/disk/by-runq-id'') (\<lambda>ex.
        seqs [whn (\<not> ex) (os_MkdirAll ''/dev/disk/by-runq-id'' mode0755),
              mapErr WithStack (os_Chdir ''/dev/disk/by-runq-id''),
              mapErr (ErrorfE ''can't create symlink: %v'' []) (os_Symlink (''../../'' @ dev) name)]))
       (os_Chdir wd))"

definition setupDisk :: "disk \<Rightarrow> unit io" where
  "setupDisk d =
     bnd (findDisk (disk_Serial d)) (\<lambda>dev.
       if dev = [] then fail (WithStack (Errorf (''disk not found: '' @ disk_Dir d) []))
       else thn (createDiskSymlink dev (disk_ID d))
         (if \<not> disk_Mount d then ret ()
          else thn (loadKernelModules (disk_Fstype d) ''/rootfs'')
            (mountAll [\<lparr>mount_Data = [], mount_Flags = MS_NOSUID OR MS_NODEV, mount_Fstype = disk_Fstype d,
               mount_ID = disk_ID d, mount_Source = ''/dev/'' @ dev, mount_Target = ''/rootfs'' @ disk_Dir d\<rparr>])))"

definition setupDisks :: "disk list \<Rightarrow> unit io" where
  "setupDisks disks = forE disks setupDisk"

definition zeroDisk :: disk where
  "zeroDisk = \<lparr>disk_Cache = [], disk_Dir = [], disk_Fstype = [], disk_ID = [], disk_Mount = False,
     disk_Path = [], disk_Serial = [], disk_Type = DisktypeUnknown\<rparr>"

text \<open>The first disk with the ID of the root disk, and the others.\<close>

fun takeRootdisk :: "string \<Rightarrow> disk list \<Rightarrow> disk \<times> disk list" where
  "takeRootdisk root [] = (zeroDisk, [])"
| "takeRootdisk root (d # ds) =
     (if disk_ID d = root then (d, ds)
      else let (r, ds') = takeRootdisk root ds in (r, d # ds'))"

definition setupRootdisk :: "vmdata \<Rightarrow> vmdata io" where
  "setupRootdisk v =
     (let (disk, others) = takeRootdisk (vm_Rootdisk v) (vm_Disks v)
      in bnd (findDisk (disk_Serial disk)) (\<lambda>dev.
           if dev = [] then fail (WithStack (Errorf ''rootdisk not found'' []))
           else thn (createDiskSymlink dev (disk_ID disk))
             (thn (mountAll [\<lparr>mount_Data = [], mount_Flags = 0, mount_Fstype = disk_Fstype disk,
                 mount_ID = disk_ID disk, mount_Source = ''/dev/'' @ dev, mount_Target = ''/rootfs''\<rparr>])
               (ret (v\<lparr>vm_Disks := others\<rparr>)))))"

section \<open>Facts\<close>

lemma findSerial_Ret:
  assumes "findSerial serial fs K t = (Ret name, t')" and "name \<noteq> []"
  shows "(name, True) \<in> set fs \<and> HasPrefix name ''vd''
    \<and> (\<exists>u buf. k_file K u (filepath_Join [''/sys/block'', name, ''serial'']) = Inr (buf, None) \<and> TrimSpace buf = serial)"
  using assms
proof (induction serial fs arbitrary: t rule: findSerial.induct)
  case (2 serial n isLink fs)
  show ?case
  proof (cases "isLink \<and> HasPrefix n ''vd''")
    case True
    with 2(4) obtain buf u where r: "ioutil_ReadFile (filepath_Join [''/sys/block'', n, ''serial'']) K t = (Ret buf, u)"
      and c: "(if serial = TrimSpace buf then ret n else findSerial serial fs) K u = (Ret name, t')"
      by (auto simp: bnd_Ret_iff)
    have f: "k_file K t (filepath_Join [''/sys/block'', n, ''serial'']) = Inr (buf, None)"
      using r by (auto simp: ioutil_ReadFile_def os_Open_def io_Ret_iffs split: option.splits)
    show ?thesis
    proof (cases "serial = TrimSpace buf")
      case same: True
      with c f True show ?thesis by auto
    next
      case False
      with c 2(3) [OF _ _ False] 2(5) True show ?thesis by auto
    qed
  qed (use 2 in \<open>auto split: if_splits\<close>)
qed simp

lemma takeRootdisk_unique:
  "distinct (map disk_ID ds) \<Longrightarrow> d \<in> set ds \<Longrightarrow> disk_ID d = root \<Longrightarrow>
     takeRootdisk root ds = (d, filter (\<lambda>x. disk_ID x \<noteq> root) ds)"
proof (induction ds)
  case (Cons x xs)
  show ?case
  proof (cases "disk_ID x = root")
    case True
    with Cons.prems have "d = x" by auto
    moreover have "filter (\<lambda>y. disk_ID y \<noteq> root) xs = xs"
      using Cons.prems True by (auto simp: filter_id_conv) (metis image_eqI)
    ultimately show ?thesis using True by simp
  qed (use Cons in auto)
qed simp

section \<open>Properties\<close>

text \<open>
  A disk is identified by its serial number: a device that \<^verbatim>\<open>findDisk\<close> returns is a link of
  \<^verbatim>\<open>/sys/block\<close> named \<^verbatim>\<open>vd...\<close> whose serial file holds, up to surrounding space, exactly the
  serial number that was asked for.
\<close>

lemma disk_found_by_serial:
  assumes "findDisk serial K t = (Ret name, t')" and "name \<noteq> []"
  shows "\<exists>fs u buf. k_dirents K t ''/sys/block'' = Inr fs \<and> (name, True) \<in> set fs \<and> HasPrefix name ''vd''
     \<and> k_file K u (filepath_Join [''/sys/block'', name, ''serial'']) = Inr (buf, None) \<and> TrimSpace buf = serial"
proof -
  obtain fs u where "k_dirents K t ''/sys/block'' = Inr fs" "findSerial serial fs K u = (Ret name, t')"
    using assms(1) by (auto simp: findDisk_def bnd_Ret_iff ioutil_ReadDir_def ask_Ret_iff)
  with findSerial_Ret [OF this(2) assms(2)] show ?thesis by blast
qed

definition demo_block :: kernel where
  "demo_block = quiet_kernel\<lparr>k_dirents := (\<lambda>t p. Inr [(''loop0'', True), (''vda'', True)]),
     k_file := (\<lambda>t p. Inr (''abc'', None))\<rparr>"

lemma demo_findDisk: "\<exists>t'. findDisk ''abc'' demo_block [] = (Ret ''vda'', t')"
  by (simp add: findDisk_def ioutil_ReadDir_def ioutil_ReadFile_def os_Open_def io_defs demo_block_def
      HasPrefix_def TrimSpace_def isSpace_def)


definition demo_rootdisk :: disk where
  "demo_rootdisk = zeroDisk\<lparr>disk_ID := ''root'', disk_Serial := ''abc'', disk_Fstype := ''ext4''\<rparr>"

definition demo_vmdata :: vmdata where
  "demo_vmdata = \<lparr>vm_APDevice = [], vm_ContainerID = ''0123456789abcdef'', vm_CPU = 1,
     vm_Disks = [zeroDisk\<lparr>disk_ID := ''data''\<rparr>, demo_rootdisk],
     vm_DNS = \<lparr>dns_Server = [], dns_Options = [], dns_Search = [], dns_Preserve = False\<rparr>,
     vm_GitCommit = ''c0ffee'', vm_Hostname = ''h'', vm_MachineType = [], vm_Mem = 256, vm_Mounts = [],
     vm_NestedVM = False, vm_Networks = [], vm_NoExec = True, vm_QemuVersion = ''4.2.1'',
     vm_Rootdisk = ''root'', vm_RootdiskExclude = [], vm_Sysctl = [],
     vm_Entrypoint = \<lparr>user_UID = 0, user_GID = 0, user_AdditionalGids = [], ep_Args = [''sh''],
       ep_Capabilities = \<lparr>caps_Ambient = [], caps_Bounding = [], caps_Effective = [], caps_Inheritable = [], caps_Permitted = []\<rparr>,
       ep_Cwd = ''/'', ep_DockerInit = [], ep_Env = [], ep_NoNewPrivileges = False, ep_Rlimits = [],
       ep_Runqenv = False, ep_SeccompGob = [], ep_Systemd = False, ep_Terminal = False\<rparr>,
     vm_Vsockd = \<lparr>cert_CACert = [], cert_Cert = [], cert_Key = [], vs_EntrypointPid = 0, vs_EntrypointEnv = [], vs_CID = 0\<rparr>\<rparr>"

lemma demo_setupRootdisk: "\<exists>v' t'. setupRootdisk demo_vmdata demo_block [] = (Ret v', t')"
proof -
  have tr: "takeRootdisk (vm_Rootdisk demo_vmdata) (vm_Disks demo_vmdata) = (demo_rootdisk, [zeroDisk\<lparr>disk_ID := ''data''\<rparr>])"
    by (simp add: demo_vmdata_def demo_rootdisk_def)
  have fd: "yields demo_block (findDisk ''abc'') ''vda''"
    by (simp add: yields_def findDisk_def ioutil_ReadDir_def ioutil_ReadFile_def os_Open_def io_defs demo_block_def
        HasPrefix_def TrimSpace_def isSpace_def)
  have quiet: "k_do demo_block t c = None" "k_str demo_block t c = Inr []" "k_stat demo_block t p = Inl ENOENT" for t c p
    by (simp_all add: demo_block_def)
  have fe: "yields demo_block (FileExists p) False" for p
    by (simp add: yields_def FileExists_def os_Stat_def io_defs quiet)
  have mnt: "returns demo_block (mountAll ms)" for ms
    unfolding mountAll_def mountOne_def os_MkdirAll_def unix_Mount_def
    by (intro returns_forE returns_bnd_value [OF fe]) (auto intro!: returns_intros simp: quiet)
  have "returns demo_block (setupRootdisk demo_vmdata)"
    unfolding setupRootdisk_def tr Let_def prod.case
    by (simp add: demo_rootdisk_def, rule returns_bnd_value [OF fd])
      (auto simp: createDiskSymlink_def os_call_defs quiet intro!: returns_intros mnt)
  then show ?thesis unfolding returns_def by blast
qed


end
