(* ===== verification/Init_Network.thy ===== *)
theory Init_Network
  imports Util
begin

text \<open>
  \<^verbatim>\<open>cmd/init/network.go\<close>: giving the interfaces of the guest the names, addresses and routes
  that the proxy recorded. An interface is known by its index and matched by its hardware address.
\<close>

definition pad2 :: "nat \<Rightarrow> string" where
  "pad2 n = (if n < 10 then CHR ''0'' # showNat n else showNat n)"

text \<open>\<^verbatim>\<open>fmt.Sprintf("tmp-%02d", i)\<close>.\<close>

definition tmpName :: "nat \<Rightarrow> string" where
  "tmpName i = ''tmp-'' @ pad2 i"

fun renameTmp :: "nat \<Rightarrow> link list \<Rightarrow> unit io" where
  "renameTmp i [] = ret ()"
| "renameTmp i (l # ls) =
     (if link_Name l = ''lo'' then renameTmp (Suc i) ls
      else thn (mapErr WithStack (call SysErrno (Net (LinkSetName (link_Index l) (tmpName i)))))
             (renameTmp (Suc i) ls))"

text \<open>The last network with the hardware address wins, as in the loop of the source.\<close>

definition zeroNetwork :: network where
  "zeroNetwork = \<lparr>nw_Name = [], nw_MacAddress = [], nw_MTU = 0, nw_Addrs = [], nw_Gateway = None, nw_TapDevice = []\<rparr>"

definition findNetwork :: "network list \<Rightarrow> string \<Rightarrow> network" where
  "findNetwork networks mac = foldl (\<lambda>nw n. if nw_MacAddress n = mac then n else nw) zeroNetwork networks"

definition addGateway :: "ip \<Rightarrow> unit io" where
  "addGateway gw =
     thn (mapErr WithStack (call SysErrno (Net (RouteAddGw gw))))
       (bnd (attempt (call SysErrno (Net (DialGw gw)))) (\<lambda>r. case r of
            Inl e \<Rightarrow> log_Print ''%v''
          | Inr _ \<Rightarrow> seqs [ignore (call SysErrno (Proc (ConnWrite []))), ignore (call SysErrno (Proc (CloseFd ''conn'')))]))"

definition setupLink :: "network list \<Rightarrow> link \<Rightarrow> unit io" where
  "setupLink networks l =
     (if link_Name l = ''lo'' then mapErr WithStack (call SysErrno (Net (LinkSetUp (link_Index l))))
      else let nw = findNetwork networks (link_HardwareAddr l)
           in if nw_Name nw = [] then fail (WithStack (Errorf ''no vm data for %s'' [link_Name l]))
              else seqs
                [whn (1 < length networks)
                   (mapErr (Wrap (''LinkSetName '' @ nw_Name nw)) (call SysErrno (Net (LinkSetName (link_Index l) (nw_Name nw))))),
                 forE (nw_Addrs nw) (\<lambda>a. mapErr WithStack (call SysErrno (Net (AddrAdd (link_Index l) (a\<lparr>addr_Label := []\<rparr>))))),
                 mapErr WithStack (call SysErrno (Net (LinkSetMTU (link_Index l) (nw_MTU nw)))),
                 mapErr WithStack (call SysErrno (Net (LinkSetUp (link_Index l)))),
                 (case nw_Gateway nw of None \<Rightarrow> ret () | Some gw \<Rightarrow> addGateway gw)])"

definition init_setupNetwork :: "network list \<Rightarrow> unit io" where
  "init_setupNetwork networks =
     bnd (mapErr WithStack (ask (\<lambda>K t. k_links K t) SysErrno (Net LinkList))) (\<lambda>links.
       if int (length networks) \<noteq> int (length links) - 1 then fail (WithStack (Errorf ''mismatch vmdata <-> links'' []))
       else thn (whn (1 < length networks) (renameTmp 0 links))
         (forE links (setupLink networks)))"

section \<open>Facts\<close>

lemma findNetwork_foldl:
  "foldl (\<lambda>nw n. if nw_MacAddress n = mac then n else nw) z ns
     = (case find (\<lambda>n. nw_MacAddress n = mac) (rev ns) of None \<Rightarrow> z | Some n \<Rightarrow> n)"
  by (induction ns rule: rev_induct) auto

lemma findNetwork_unique:
  assumes "distinct (map nw_MacAddress ns)" and "n \<in> set ns"
  shows "findNetwork ns (nw_MacAddress n) = n"
proof -
  have "find (\<lambda>m. nw_MacAddress m = nw_MacAddress n) (rev ns) = Some n"
    using assms
  proof (induction ns rule: rev_induct)
    case (snoc x xs)
    then show ?case by (cases "n = x") (auto simp: distinct_map)
  qed simp
  then show ?thesis by (simp add: findNetwork_def findNetwork_foldl)
qed

lemma tmpName_inj: "tmpName i = tmpName j \<longleftrightarrow> i = j"
proof -
  have "readBase 10 (pad2 n) = n" for n
  proof (cases "n < 10")
    case True
    have "readBase 10 (CHR ''0'' # s) = readBase 10 s" for s
      by (simp add: readBase_def digitVal_def isDigit_def)
    then show ?thesis by (simp add: pad2_def)
  qed (simp add: pad2_def)
  then have "pad2 i = pad2 j \<longleftrightarrow> i = j" by metis
  then show ?thesis by (simp add: tmpName_def)
qed

text \<open>The temporary names, in the order of the links.\<close>

fun tmpRenames :: "nat \<Rightarrow> link list \<Rightarrow> syscall list" where
  "tmpRenames i [] = []"
| "tmpRenames i (l # ls) =
     (if link_Name l = ''lo'' then tmpRenames (Suc i) ls
      else Net (LinkSetName (link_Index l) (tmpName i)) # tmpRenames (Suc i) ls)"

lemma renameTmp_Ret: "renameTmp i ls K t = (Ret u, t') \<Longrightarrow> t' = t @ map Done (tmpRenames i ls)"
proof (induction i ls arbitrary: t rule: renameTmp.induct)
  case (2 i l ls)
  show ?case
  proof (cases "link_Name l = ''lo''")
    case False
    with 2(3) have "renameTmp (Suc i) ls K (t @ [Done (Net (LinkSetName (link_Index l) (tmpName i)))]) = (Ret u, t')"
      by (auto simp: thn_Ret_iff call_Ret_iff)
    from 2(2) [OF False this] False show ?thesis by simp
  qed (use 2 in simp)
qed simp

text \<open>The calls that configure one link from its network.\<close>

definition linkConfig :: "network list \<Rightarrow> link \<Rightarrow> syscall list" where
  "linkConfig ns l =
     (if link_Name l = ''lo'' then [Net (LinkSetUp (link_Index l))]
      else let nw = findNetwork ns (link_HardwareAddr l)
           in (if 1 < length ns then [Net (LinkSetName (link_Index l) (nw_Name nw))] else [])
            @ map (\<lambda>a. Net (AddrAdd (link_Index l) (a\<lparr>addr_Label := []\<rparr>))) (nw_Addrs nw)
            @ [Net (LinkSetMTU (link_Index l) (nw_MTU nw)), Net (LinkSetUp (link_Index l))]
            @ (case nw_Gateway nw of None \<Rightarrow> [] | Some gw \<Rightarrow> [Net (RouteAddGw gw)]))"

definition isConfig :: "syscall \<Rightarrow> bool" where
  "isConfig c \<longleftrightarrow> (case c of Net (DialGw gw) \<Rightarrow> False | Net n \<Rightarrow> True | _ \<Rightarrow> False)"

lemma addGateway_Ret:
  assumes "addGateway gw K t = (Ret u, t')"
  shows "\<exists>es. t' = t @ es \<and> filter isConfig (calls es) = [Net (RouteAddGw gw)]"
proof -
  let ?rest = "bnd (attempt (call SysErrno (Net (DialGw gw)))) (\<lambda>r. case r of
      Inl e \<Rightarrow> log_Print ''%v''
    | Inr _ \<Rightarrow> seqs [ignore (call SysErrno (Proc (ConnWrite []))), ignore (call SysErrno (Proc (CloseFd ''conn'')))])"
  have e: "emits (\<lambda>c. \<not> isConfig c) ?rest"
    unfolding seqs.simps by (intro emits_intros) (simp_all add: isConfig_def)
  have "?rest K (t @ [Done (Net (RouteAddGw gw))]) = (Ret u, t')"
    using assms unfolding addGateway_def thn_Ret_iff [where m = "mapErr _ _"] by (auto simp: call_Ret_iff simp del: seqs.simps)
  then obtain es where "t' = (t @ [Done (Net (RouteAddGw gw))]) @ es" "list_all (\<lambda>e. \<not> isConfig (ev_call e)) es"
    by (rule emitsD [OF e])
  moreover from this(2) have "filter isConfig (calls es) = []"
    by (induction es) (auto simp: calls_def split: event.splits)
  ultimately show ?thesis by (intro exI [of _ "Done (Net (RouteAddGw gw)) # es"]) (simp add: isConfig_def)
qed

lemma addrs_Ret:
  "forE as (\<lambda>a. mapErr WithStack (call SysErrno (Net (AddrAdd i (a\<lparr>addr_Label := []\<rparr>))))) K t = (Ret u, t')
     \<Longrightarrow> t' = t @ map (\<lambda>a. Done (Net (AddrAdd i (a\<lparr>addr_Label := []\<rparr>)))) as"
  by (rule forE_calls [where f = "\<lambda>a. mapErr WithStack (call SysErrno (Net (AddrAdd i (a\<lparr>addr_Label := []\<rparr>))))"])
    (auto simp: call_Ret_iff)

lemma isConfig_addrs: "filter isConfig (map (\<lambda>a. Net (AddrAdd i (g a))) as) = map (\<lambda>a. Net (AddrAdd i (g a))) as"
  by (induction as) (simp_all add: isConfig_def)

lemma setupLink_Ret:
  assumes "setupLink ns l K t = (Ret u, t')"
  shows "\<exists>es. t' = t @ es \<and> filter isConfig (calls es) = linkConfig ns l"
    and "link_Name l \<noteq> ''lo'' \<Longrightarrow> nw_Name (findNetwork ns (link_HardwareAddr l)) \<noteq> []"
proof -
  let ?nw = "findNetwork ns (link_HardwareAddr l)" and ?i = "link_Index l"
  show "nw_Name ?nw \<noteq> []" if "link_Name l \<noteq> ''lo''"
    using assms that by (auto simp: setupLink_def Let_def split: if_splits)
  show "\<exists>es. t' = t @ es \<and> filter isConfig (calls es) = linkConfig ns l"
  proof (cases "link_Name l = ''lo''")
    case True
    with assms show ?thesis by (auto simp: setupLink_def linkConfig_def call_Ret_iff isConfig_def)
  next
    case False
    define t1 where "t1 = t @ (if 1 < length ns then [Done (Net (LinkSetName ?i (nw_Name ?nw)))] else [])"
    define t2 where "t2 = t1 @ map (\<lambda>a. Done (Net (AddrAdd ?i (a\<lparr>addr_Label := []\<rparr>)))) (nw_Addrs ?nw)"
    have "(case nw_Gateway ?nw of None \<Rightarrow> ret () | Some gw \<Rightarrow> addGateway gw) K
        (t2 @ [Done (Net (LinkSetMTU ?i (nw_MTU ?nw))), Done (Net (LinkSetUp ?i))]) = (Ret (), t')"
      using assms False
      by (auto simp: setupLink_def Let_def thn_Ret_iff whn_Ret_iff call_Ret_iff t1_def t2_def split: if_splits dest!: addrs_Ret)
    then obtain gs where "t' = (t2 @ [Done (Net (LinkSetMTU ?i (nw_MTU ?nw))), Done (Net (LinkSetUp ?i))]) @ gs"
      "filter isConfig (calls gs) = (case nw_Gateway ?nw of None \<Rightarrow> [] | Some gw \<Rightarrow> [Net (RouteAddGw gw)])"
      by (cases "nw_Gateway ?nw") (auto dest!: addGateway_Ret)
    with False show ?thesis
      by (auto simp: t1_def t2_def linkConfig_def Let_def isConfig_addrs) (simp_all add: isConfig_def)
  qed
qed

lemma setupLinks_Ret:
  "forE ls (setupLink ns) K t = (Ret u, t') \<Longrightarrow>
     \<exists>es. t' = t @ es \<and> filter isConfig (calls es) = concat (map (linkConfig ns) ls)"
proof (induction ls arbitrary: t)
  case (Cons l ls)
  then obtain v where l: "setupLink ns l K t = (Ret (), v)" and r: "forE ls (setupLink ns) K v = (Ret u, t')"
    by (auto simp: thn_Ret_iff)
  obtain e1 where "v = t @ e1" "filter isConfig (calls e1) = linkConfig ns l" using setupLink_Ret(1) [OF l] by blast
  moreover obtain e2 where "t' = v @ e2" "filter isConfig (calls e2) = concat (map (linkConfig ns) ls)"
    using Cons.IH [OF r] by blast
  ultimately show ?case by (intro exI [of _ "e1 @ e2"]) simp
qed auto

lemma tmpRenames_config: "filter isConfig (tmpRenames i ls) = tmpRenames i ls"
  by (induction i ls rule: tmpRenames.induct) (simp_all add: isConfig_def)

lemma calls_Done: "calls (map Done cs) = cs"
  by (induction cs) simp_all

section \<open>Properties\<close>


definition demo_link :: link where
  "demo_link = \<lparr>link_Index = 2, link_Name = ''eth0'', link_Type = ''veth'', link_HardwareAddr = ''aa'', link_MTU = 1500\<rparr>"

definition demo_nw :: network where
  "demo_nw = \<lparr>nw_Name = ''eth0'', nw_MacAddress = ''aa'', nw_MTU = 1400,
     nw_Addrs = [\<lparr>addr_IPNet = ''10.0.0.2/24'', addr_Label = ''eth0''\<rparr>], nw_Gateway = None, nw_TapDevice = []\<rparr>"

definition demo_lo :: link where
  "demo_lo = \<lparr>link_Index = 1, link_Name = ''lo'', link_Type = ''loopback'', link_HardwareAddr = [], link_MTU = 65536\<rparr>"

definition demo_net :: kernel where
  "demo_net = quiet_kernel\<lparr>k_links := (\<lambda>t. Inr [demo_lo, demo_link])\<rparr>"

lemma demo_setupNetwork:
  "init_setupNetwork [demo_nw] demo_net [] = (Ret (), [] @ [Done (Net LinkList), Done (Net (LinkSetUp 1)),
     Done (Net (AddrAdd 2 \<lparr>addr_IPNet = ''10.0.0.2/24'', addr_Label = []\<rparr>)), Done (Net (LinkSetMTU 2 1400)),
     Done (Net (LinkSetUp 2))])"
proof -
  have c: "call w c demo_net t = (Ret (), t @ [Done c])" for w c t by (simp add: call_def demo_net_def)
  have m: "mapErr g (call w c) demo_net t = (Ret (), t @ [Done c])" for g w c t by (simp add: c)
  have lo: "setupLink [demo_nw] demo_lo demo_net t = (Ret (), t @ [Done (Net (LinkSetUp 1))])" for t
    by (simp add: setupLink_def demo_lo_def c)
  have eth: "setupLink [demo_nw] demo_link demo_net t = (Ret (), t @ [
      Done (Net (AddrAdd 2 \<lparr>addr_IPNet = ''10.0.0.2/24'', addr_Label = []\<rparr>)), Done (Net (LinkSetMTU 2 1400)),
      Done (Net (LinkSetUp 2))])" for t
    by (simp add: setupLink_def demo_link_def demo_nw_def findNetwork_def Let_def)
      (simp add: thn_def bnd_def m whn_def ret_def)
  have l: "mapErr WithStack (ask (\<lambda>K t. k_links K t) SysErrno (Net LinkList)) demo_net [] = (Ret [demo_lo, demo_link], [Done (Net LinkList)])"
    by (simp add: ask_Ret_iff demo_net_def)
  show ?thesis
    by (simp add: init_setupNetwork_def bnd_def l thn_def whn_def ret_def lo eth)
qed


end
