(* ===== verification/Init_Entrypoint.thy ===== *)
theory Init_Entrypoint
  imports Init_Mount Init_Caps Init_Seccomp Bracket
begin

text \<open>
  \<^verbatim>\<open>cmd/init/entrypoint.go\<close>: what the child of init does between its start and the exec of the
  container's command.
\<close>

definition chroot :: "string \<Rightarrow> unit io" where
  "chroot dir =
     seqs [mapErr WithStack (os_Chdir dir),
           mapErr WithStack (unix_Mount dir ''/'' [] MS_MOVE []),
           mapErr WithStack (call SysErrno (Mnt (ChrootCall ''.'')))]"

definition deviceLinks :: "(string \<times> string) list" where
  "deviceLinks =
     [(''/proc/kcore'', ''/dev/core''), (''/proc/self/fd'', ''/dev/fd''), (''/proc/self/fd/0'', ''/dev/stdin''),
      (''/proc/self/fd/1'', ''/dev/stdout''), (''/proc/self/fd/2'', ''/dev/stderr'')]"

definition prepareDeviceFiles :: "maporder \<Rightarrow> int \<Rightarrow> unit io" where
  "prepareDeviceFiles mo uid =
     seqs [mapErr WithStack (os_Chown ''/dev/console'' uid 5),
           mapErr WithStack (os_Chmod ''/dev/console'' mode0620),
           forE (mo_strings mo deviceLinks) (\<lambda>(k, v).
             mapErr (Wrap (''Symlink '' @ k @ '' '' @ v @ '':'')) (os_Symlink k v)),
           bnd (mapErr WithStack (filepath_Glob ''/dev/vport*'')) (\<lambda>vports.
             forE vports (\<lambda>f. ignore (os_Remove f)))]"

text \<open>The entries of the first map that the second does not replace, and those of the second.\<close>

definition mergeLimits :: "(string \<times> rlimit) list \<Rightarrow> (string \<times> rlimit) list \<Rightarrow> (string \<times> rlimit) list" where
  "mergeLimits base limits = filter (\<lambda>(k, v). k \<notin> fst ` set limits) base @ limits"

definition setRlimits :: "maporder \<Rightarrow> (string \<times> rlimit) list \<Rightarrow> unit io" where
  "setRlimits mo limits =
     forE (mo_rlimits mo (mergeLimits cfgRlimits limits)) (\<lambda>(k, v).
       case map_of RlimitsMap k of
         None \<Rightarrow> fail (Errorf ''invalid rlimit type: %s'' [k])
       | Some ty \<Rightarrow> mapErr WithStack (call SysErrno (Proc (Setrlimit ty (uint (rl_Cur v)) (uint (rl_Max v))))))"

fun setPATH :: "string list \<Rightarrow> unit io" where
  "setPATH [] = ret ()"
| "setPATH (v # env) =
     (let s = SplitN (CHR ''='') 2 v
      in if 1 < length s \<and> s ! 0 = ''PATH''
         then mapErr WithStack (call (ExtError ''setenv'') (Proc (SetenvCall ''PATH'' (s ! 1))))
         else setPATH env)"

definition setIDs :: "32 word \<Rightarrow> 32 word \<Rightarrow> 32 word list \<Rightarrow> unit io" where
  "setIDs uid gid gids =
     seqs [whn (0 < length gids)
             (mapErr (ErrorfE ''setgroups failed: %v'' []) (call SysErrno (Proc (Setgroups (map uint gids))))),
           mapErr (ErrorfE ''setgid failed: %v'' []) (call (ExtError ''SYS_SETGID'') (Proc (Setgid (uint gid)))),
           mapErr (ErrorfE ''setuid failed: %v'' []) (call (ExtError ''SYS_SETUID'') (Proc (Setuid (uint uid))))]"

section \<open>The file with the environment\<close>

text \<open>
  \<^verbatim>\<open>strconv.Quote\<close>, the verb \<^verbatim>\<open>%q\<close>, on ASCII text; a byte above 127 is written as an
  escape.
\<close>

definition hex2 :: "nat \<Rightarrow> string" where
  "hex2 n = [digitChar (n div 16), digitChar (n mod 16)]"

definition quoteChar :: "char \<Rightarrow> string" where
  "quoteChar c =
     (if c = CHR 0x22 then [CHR 0x5C, CHR 0x22]
      else if c = CHR 0x5C then [CHR 0x5C, CHR 0x5C]
      else if c = CHR 0x07 then [CHR 0x5C, CHR ''a'']
      else if c = CHR 0x08 then [CHR 0x5C, CHR ''b'']
      else if c = CHR 0x0C then [CHR 0x5C, CHR ''f'']
      else if c = CHR 0x0A then [CHR 0x5C, CHR ''n'']
      else if c = CHR 0x0D then [CHR 0x5C, CHR ''r'']
      else if c = CHR 0x09 then [CHR 0x5C, CHR ''t'']
      else if c = CHR 0x0B then [CHR 0x5C, CHR ''v'']
      else if 32 \<le> (of_char c :: nat) \<and> (of_char c :: nat) < 127 then [c]
      else CHR 0x5C # CHR ''x'' # hex2 (of_char c))"

definition Quote :: "string \<Rightarrow> string" where
  "Quote s = CHR 0x22 # concat (map quoteChar s) @ [CHR 0x22]"

definition isQuoteMark :: "char \<Rightarrow> bool" where
  "isQuoteMark c \<longleftrightarrow> c = CHR 0x27 \<or> c = CHR 0x22"

definition envLine :: "string \<Rightarrow> string" where
  "envLine v =
     (let f = SplitN (CHR ''='') 2 v
      in if length f < 2 then []
         else (if f ! 1 = [] then f ! 0 @ ''='' @ Quote []
               else if \<not> isQuoteMark (hd (f ! 1)) \<or> \<not> isQuoteMark (last (f ! 1))
               then f ! 0 @ ''='' @ Quote (f ! 1) else v) @ [CHR 0x0A])"

definition writeEnvfile :: "string \<Rightarrow> string list \<Rightarrow> unit io" where
  "writeEnvfile path env = mapErr WithStack (ioutil_WriteFile path (concat (map envLine env)) mode0444)"

section \<open>From start to exec\<close>

text \<open>
  A success of \<^verbatim>\<open>unix.Exec\<close> does not come back: the event is the last one of the process.
\<close>

definition unix_Exec :: "string \<Rightarrow> string list \<Rightarrow> string list \<Rightarrow> unit io" where
  "unix_Exec path argv env = call SysErrno (Proc (ExecCall path argv env))"

definition execCommand :: "string list \<Rightarrow> entrypoint \<Rightarrow> unit io" where
  "execCommand args ep =
     (if length args < 2 then panic ''index out of range''
      else bnd (attempt (ask (\<lambda>K t. k_str K t (Proc (LookPath (args ! 1)))) (ExecError (args ! 1)) (Proc (LookPath (args ! 1))))) (\<lambda>r.
        case r of
          Inl e \<Rightarrow> thn (log_Print ''%v'') (if e = ExecError (args ! 1) EACCES then os_Exit 126 else os_Exit 127)
        | Inr path \<Rightarrow> mapErr (Wrap ''Exec() failed'') (unix_Exec path (tl args) (ep_Env ep))))"

text \<open>
  What the process needs besides its arguments: the decoders of the packages, the capabilities that
  the system knows, and the order of loops over maps.
\<close>

record epenv =
  ee_decEntrypoint :: "entrypoint gobdec"
  ee_decSeccomp :: "linuxSeccomp gobdec"
  ee_scmp :: scmplib
  ee_caps :: "(nat \<times> string) list"
  ee_lastCap :: nat
  ee_order :: maporder

definition confine :: "epenv \<Rightarrow> entrypoint \<Rightarrow> unit io" where
  "confine E ep =
     seqs [mountEntrypointStage0,
           whn (ep_DockerInit ep \<noteq> []) (bindMountFile ''/sbin/docker-init'' (''/rootfs'' @ ep_DockerInit ep)),
           chroot ''/rootfs'',
           whn (ep_Runqenv ep) (writeEnvfile Envfile (ep_Env ep)),
           whn (\<not> ep_Systemd ep) mountEntrypointCgroups,
           maskPath MaskedPaths,
           readonlyPath ReadonlyPaths,
           prepareDeviceFiles (ee_order E) (uint (user_UID ep)),
           setRlimits (ee_order E) (ep_Rlimits ep),
           whn (ep_NoNewPrivileges ep) (mapErr WithStack (call SysErrno (Proc PrctlNoNewPrivs))),
           dropCapabilities (ee_caps E) (ee_lastCap E) (ee_order E) (ep_Capabilities ep),
           initSeccomp (ee_scmp E) (ee_decSeccomp E) (ep_SeccompGob ep),
           setPATH (ep_Env ep),
           setIDs (user_UID ep) (user_GID ep) (user_AdditionalGids ep),
           os_Chdir (ep_Cwd ep)]"

definition runEntrypoint :: "epenv \<Rightarrow> string list \<Rightarrow> unit io" where
  "runEntrypoint E args =
     bnd (mapErr WithStack (ask (\<lambda>K t. k_str K t (Proc (ReadAllFd 3))) SysErrno (Proc (ReadAllFd 3)))) (\<lambda>text.
     thn (mapErr WithStack (call SysErrno (Proc (CloseFd ''rd''))))
     (case DecodeEntrypointGob (ee_decEntrypoint E) (map of_char text) of
        Inl e \<Rightarrow> fail (WithStack e)
      | Inr ep \<Rightarrow> thn (confine E ep) (execCommand args ep)))"

definition mainEntrypoint :: "epenv \<Rightarrow> string list \<Rightarrow> unit io" where
  "mainEntrypoint E args =
     bnd (attempt (runEntrypoint E args)) (\<lambda>r. case r of Inl e \<Rightarrow> log_Fatal ''%+v'' | Inr _ \<Rightarrow> ret ())"

section \<open>Footprints\<close>

text \<open>Every call but the exec of the command.\<close>

definition notExec :: "syscall \<Rightarrow> bool" where
  "notExec c \<longleftrightarrow> (case c of Proc (ExecCall p a e) \<Rightarrow> False | _ \<Rightarrow> True)"

lemma notExec_simps [simp]:
  "notExec (Fs f)" "notExec (Mnt m)" "notExec (Sec s)" "notExec (Net nc)"
  "notExec (Proc (LogPrint msg))" "notExec (Proc (CloseFd fd))" "notExec (Proc PrctlNoNewPrivs)"
  "notExec (Proc (Setrlimit a b c))" "notExec (Proc (SetenvCall nm v))" "notExec (Proc (Setgroups g))"
  "notExec (Proc (Setgid i))" "notExec (Proc (Setuid i'))" "notExec (Proc (ReadAllFd k))"
  "notExec (Proc (LookPath p))" "notExec (Proc (ExitCall rc))"
  "notExec (Proc (ExecCall p' a' e)) \<longleftrightarrow> False"
  by (simp_all add: notExec_def)

lemma emits_mountAll: "emits notExec (mountAll ms)"
  unfolding mountAll_def mountOne_def by (intro emits_intros) simp_all

lemma emits_CreateSymlink: "emits notExec (CreateSymlink a b)"
  unfolding CreateSymlink_def Let_def by (intro emits_intros) simp_all

lemma emits_mountEntrypointCgroups: "emits notExec mountEntrypointCgroups"
  unfolding mountEntrypointCgroups_def createSymlinks_def Let_def
  by (intro emits_intros emits_mountAll emits_CreateSymlink) simp_all

lemma emits_bindMountFile: "emits notExec (bindMountFile s t)"
  unfolding bindMountFile_def by (intro emits_intros) simp_all

lemma emits_chroot: "emits notExec (chroot d)"
  unfolding chroot_def seqs.simps by (intro emits_intros) simp_all

lemma emits_paths: "emits notExec (maskPath ps)" "emits notExec (readonlyPath ps)"
  unfolding maskPath_def maskPath1_def readonlyPath_def readonlyPath1_def by (intro emits_intros; simp)+

lemma emits_prepareDeviceFiles: "emits notExec (prepareDeviceFiles mo uid)"
  unfolding prepareDeviceFiles_def seqs.simps by (intro emits_intros) simp_all

lemma emits_setRlimits: "emits notExec (setRlimits mo ls)"
  unfolding setRlimits_def by (intro emits_intros) simp_all

lemma emits_setPATH: "emits notExec (setPATH env)"
  by (induction env) (auto simp: Let_def intro!: emits_intros)

lemma emits_setIDs: "emits notExec (setIDs u g gs)"
  unfolding setIDs_def seqs.simps by (intro emits_intros) simp_all

lemma emits_writeEnvfile: "emits notExec (writeEnvfile p env)"
  unfolding writeEnvfile_def by (intro emits_intros) simp_all

lemma emits_dropCapabilities: "emits notExec (dropCapabilities caps l mo vc)"
  unfolding dropCapabilities_def seqs.simps by (intro emits_intros) simp_all

lemma emits_makeConditions: "emits notExec (makeConditions L as)"
  by (induction as) (auto simp: makeCondition_def intro!: emits_intros emits_lift)

lemma emits_addRule: "emits notExec (addRule L sc n)"
  unfolding addRule_def by (intro emits_intros emits_lift emits_makeConditions) simp_all

lemma emits_canDoSeccomp: "emits notExec canDoSeccomp"
  unfolding canDoSeccomp_def Let_def by (intro emits_intros) simp_all

lemma emits_addArch: "emits notExec (addArch a)"
  unfolding addArch_def by (intro emits_intros emits_lift) simp_all

lemma emits_buildFilter: "emits notExec (buildFilter L sec)"
  unfolding buildFilter_def seqs.simps
  by (intro emits_intros emits_lift emits_addArch emits_addRule) simp_all

lemma emits_initSeccomp: "emits notExec (initSeccomp L dec gob)"
  unfolding initSeccomp_def by (intro emits_intros emits_canDoSeccomp emits_buildFilter)

lemmas emits_entrypoint = emits_mountAll emits_mountEntrypointCgroups emits_bindMountFile emits_chroot
  emits_paths emits_prepareDeviceFiles emits_setRlimits emits_setPATH emits_setIDs emits_writeEnvfile
  emits_dropCapabilities emits_initSeccomp

lemma emits_confine: "emits notExec (confine E ep)"
  unfolding confine_def mountEntrypointStage0_def seqs.simps
  by (intro emits_intros emits_entrypoint) simp_all

section \<open>What has happened before the exec\<close>

lemma does_chroot: "does [Mnt (ChrootCall ''.'')] (chroot d)"
proof -
  have "does ([Fs (Chdir d)] @ [Mnt (MountCall d ''/'' [] MS_MOVE [])] @ [Mnt (ChrootCall ''.'')] @ []) (chroot d)"
    unfolding chroot_def os_Chdir_def unix_Mount_def
    by (intro does_seqs_Cons does_seqs_Nil does_mapErr does_call)
  then show ?thesis by (rule does_weaken) simp
qed

lemma does_dropCapabilities: "does [Sec CapApply] (dropCapabilities caps l mo vc)"
proof -
  have "does ([] @ [] @ [] @ [Sec CapApply] @ []) (dropCapabilities caps l mo vc)"
    unfolding dropCapabilities_def
    by (intro does_seqs_Cons does_seqs_Nil does_mapErr does_call(1))
      (auto intro!: does_emits [where P = "\<lambda>_. True"] emits_intros)
  then show ?thesis by simp
qed

lemma does_initSeccomp: "does (if gob = [] then [] else [Sec LoadFilter]) (initSeccomp L dec gob)"
proof (cases "gob = []")
  case False
  have "does ([] @ [] @ [] @ [] @ [] @ [Sec LoadFilter] @ []) (buildFilter L sec)" for sec
    unfolding buildFilter_def
    by (intro does_bnd does_seqs_Cons does_seqs_Nil does_mapErr does_call(1))
      (auto intro!: does_emits [where P = notExec] emits_intros emits_lift emits_addRule emits_addArch)
  then have b: "does [Sec LoadFilter] (buildFilter L sec)" for sec by simp
  have "does [Sec LoadFilter] (if \<not> ok then fail (Errorf ''Kernel does not support seccomp'' [])
      else case dec gob of None \<Rightarrow> fail (WithStack (Errorf ''gob: decode'' [])) | Some sec \<Rightarrow> buildFilter L sec)" for ok
    using b by (auto intro: does_prims split: option.split)
  from does_bnd [OF does_emits [OF emits_canDoSeccomp] this] show ?thesis
    using False by (simp add: initSeccomp_def)
qed (simp add: initSeccomp_def does_prims)

lemma does_setIDs:
  "does ((if gids = [] then [] else [Proc (Setgroups (map uint gids))]) @
     [Proc (Setgid (uint gid)), Proc (Setuid (uint uid))]) (setIDs uid gid gids)"
proof -
  have "does ((if 0 < length gids then [Proc (Setgroups (map uint gids))] else []) @ [Proc (Setgid (uint gid))]
      @ [Proc (Setuid (uint uid))] @ []) (setIDs uid gid gids)"
    unfolding setIDs_def by (intro does_seqs_Cons does_seqs_Nil does_whn does_mapErr does_call)
  then show ?thesis by (cases gids) simp_all
qed

text \<open>The calls that confine the process, in their order.\<close>

definition confinement :: "entrypoint \<Rightarrow> syscall list" where
  "confinement ep =
     [Mnt (ChrootCall ''.'')]
     @ (if ep_NoNewPrivileges ep then [Proc PrctlNoNewPrivs] else [])
     @ [Sec CapApply]
     @ (if ep_SeccompGob ep = [] then [] else [Sec LoadFilter])
     @ (if user_AdditionalGids ep = [] then [] else [Proc (Setgroups (map uint (user_AdditionalGids ep)))])
     @ [Proc (Setgid (uint (user_GID ep))), Proc (Setuid (uint (user_UID ep))), Fs (Chdir (ep_Cwd ep))]"

lemmas does_nothing = emits_entrypoint [THEN does_emits]
  emits_bindMountFile [THEN emits_whn, THEN does_emits] emits_writeEnvfile [THEN emits_whn, THEN does_emits]
  emits_mountEntrypointCgroups [THEN emits_whn, THEN does_emits]

lemma does_confine: "does (confinement ep) (confine E ep)"
proof -
  have cwd: "does [Fs (Chdir (ep_Cwd ep))] (os_Chdir (ep_Cwd ep))" unfolding os_Chdir_def by (rule does_call)
  have "does ([] @ [] @ [Mnt (ChrootCall ''.'')] @ [] @ [] @ [] @ [] @ [] @ []
      @ (if ep_NoNewPrivileges ep then [Proc PrctlNoNewPrivs] else []) @ [Sec CapApply]
      @ (if ep_SeccompGob ep = [] then [] else [Sec LoadFilter]) @ []
      @ ((if user_AdditionalGids ep = [] then [] else [Proc (Setgroups (map uint (user_AdditionalGids ep)))]) @
         [Proc (Setgid (uint (user_GID ep))), Proc (Setuid (uint (user_UID ep)))])
      @ [Fs (Chdir (ep_Cwd ep))] @ []) (confine E ep)"
    unfolding confine_def mountEntrypointStage0_def
    by (intro does_seqs_Cons does_seqs_Nil does_chroot does_dropCapabilities does_initSeccomp does_setIDs
        does_whn [OF does_mapErr [OF does_call(1)]] cwd)
      (rule does_nothing)+
  then show ?thesis by (simp add: confinement_def)
qed

lemma execCommand_exec:
  assumes "execCommand args ep K t = (r, t @ es)" and "e \<in> set es" and "\<not> notExec (ev_call e)"
  shows "\<exists>path. es = [Done (Proc (LookPath (args ! 1))), e] \<and> ev_call e = Proc (ExecCall path (tl args) (ep_Env ep))"
proof (cases "length args < 2")
  case True
  then have "es = []" using assms(1) by (simp add: execCommand_def panic_def)
  then show ?thesis using assms(2) by simp
next
  case False
  show ?thesis
  proof (cases "k_str K t (Proc (LookPath (args ! 1)))")
    case (Inl n)
    then have "emits notExec (thn (log_Print ''%v'') (if ExecError (args ! 1) n = ExecError (args ! 1) EACCES then os_Exit 126 else os_Exit 127 :: unit io))"
      by (intro emits_intros) simp_all
    moreover have "thn (log_Print ''%v'') (if ExecError (args ! 1) n = ExecError (args ! 1) EACCES then os_Exit 126 else os_Exit 127) K
        (t @ [Failed (Proc (LookPath (args ! 1))) n]) = (r, t @ es)"
      using assms(1) False Inl by (simp add: execCommand_def) (auto simp: bnd_def attempt_def ask_def split: if_splits)
    ultimately obtain es' where "t @ es = (t @ [Failed (Proc (LookPath (args ! 1))) n]) @ es'"
        "list_all (\<lambda>e. notExec (ev_call e)) es'" by (rule emitsD)
    then show ?thesis using assms(2,3) by (auto simp: list_all_iff)
  next
    case (Inr path)
    then show ?thesis
      using assms False
      by (cases "k_do K (t @ [Done (Proc (LookPath (args ! 1)))]) (Proc (ExecCall path (tl args) (ep_Env ep)))")
        (auto simp: execCommand_def unix_Exec_def io_defs)
  qed
qed

section \<open>Properties\<close>

text \<open>
  C2: The command of the container is executed only by a process that is confined: whatever the
  system answers, if an exec is attempted at all, it is the last thing the process does, it runs the
  requested arguments and environment, and before it, in this order, the process has changed its
  root, set the no-new-privileges bit if asked to, applied the reduced capabilities, loaded the
  system call filter unless there is none, and taken on the groups, the group and the user of the
  container and its working directory.
\<close>

theorem exec_only_confined:
  assumes run: "runEntrypoint E args K t = (r, t @ es)" and e: "e \<in> set es"
    and ex: "ev_call e = Proc (ExecCall path argv env)"
  shows "\<exists>text ep pre. k_str K t (Proc (ReadAllFd 3)) = Inr text
     \<and> DecodeEntrypointGob (ee_decEntrypoint E) (map of_char text) = Inr ep
     \<and> es = pre @ [e] \<and> subseq (confinement ep) (calls pre) \<and> argv = tl args \<and> env = ep_Env ep"
proof -
  have ne: "\<not> notExec (ev_call e)" by (simp add: ex)
  let ?rd = "mapErr WithStack (ask (\<lambda>K t. k_str K t (Proc (ReadAllFd 3))) SysErrno (Proc (ReadAllFd 3)))"
  let ?cl = "mapErr WithStack (call SysErrno (Proc (CloseFd ''rd'')))"
  let ?go = "\<lambda>text. case DecodeEntrypointGob (ee_decEntrypoint E) (map of_char text) of
          Inl e \<Rightarrow> fail (WithStack e) | Inr ep \<Rightarrow> thn (confine E ep) (execCommand args ep)"
  have rd: "emits notExec ?rd" and cl: "emits notExec ?cl" by (intro emits_intros; simp)+
  have cmd: "emits (\<lambda>_. True) (execCommand args ep)" for ep
    unfolding execCommand_def unix_Exec_def by (intro emits_intros) simp_all
  have go: "emits (\<lambda>_. True) (?go u)" for u
    by (intro emits_intros cmd emits_mono [OF emits_confine]) simp_all
  have clgo: "emits (\<lambda>_. True) (thn ?cl (?go u))" for u
    by (intro emits_thn go emits_mono [OF cl]) simp
  obtain buf es1 es2 where a1: "?rd K t = (Ret buf, t @ es1)" "es = es1 @ es2"
      "thn ?cl (?go buf) K (t @ es1) = (r, (t @ es1) @ es2)" "e \<in> set es2"
    by (rule bnd_reaches [OF rd clgo run [unfolded runEntrypoint_def] e ne])
  obtain x es3 es4 where a2: "es2 = es3 @ es4" "?go buf K ((t @ es1) @ es3) = (r, ((t @ es1) @ es3) @ es4)" "e \<in> set es4"
    by (rule thn_reaches [OF cl go a1(3,4) ne])
  obtain ep where ep: "DecodeEntrypointGob (ee_decEntrypoint E) (map of_char buf) = Inr ep"
    using a2 by (cases "DecodeEntrypointGob (ee_decEntrypoint E) (map of_char buf)") (auto simp: fail_def)
  with a2(2) have "thn (confine E ep) (execCommand args ep) K ((t @ es1) @ es3) = (r, ((t @ es1) @ es3) @ es4)"
    by simp
  then obtain y es5 es6 where a3: "confine E ep K ((t @ es1) @ es3) = (Ret y, ((t @ es1) @ es3) @ es5)" "es4 = es5 @ es6"
      "execCommand args ep K (((t @ es1) @ es3) @ es5) = (r, (((t @ es1) @ es3) @ es5) @ es6)" "e \<in> set es6"
    by (rule thn_reaches [OF emits_confine cmd _ a2(3) ne])
  obtain p where p: "es6 = [Done (Proc (LookPath (args ! 1))), e]"
      "ev_call e = Proc (ExecCall p (tl args) (ep_Env ep))"
    using execCommand_exec [OF a3(3,4) ne] by blast
  obtain es5' where "((t @ es1) @ es3) @ es5 = ((t @ es1) @ es3) @ es5'" "subseq (confinement ep) (calls es5')"
    by (rule doesD [OF does_confine a3(1)])
  then have "subseq (confinement ep) (calls (es1 @ es3 @ es5 @ [Done (Proc (LookPath (args ! 1)))]))"
    by (simp add: list_emb_append2 list_emb_prefix)
  moreover have "k_str K t (Proc (ReadAllFd 3)) = Inr buf" using a1(1) by (simp add: ask_Ret_iff)
  moreover have "es = (es1 @ es3 @ es5 @ [Done (Proc (LookPath (args ! 1)))]) @ [e]" using a1 a2 a3 p by simp
  ultimately show ?thesis using ep p ex by auto
qed

text \<open>A system in which everything succeeds, and an entrypoint for user 1000.\<close>

definition demo_ep :: entrypoint where
  "demo_ep = \<lparr>user_UID = 1000, user_GID = 100, user_AdditionalGids = [4],
     ep_Args = [''/bin/sh''],
     ep_Capabilities = \<lparr>caps_Ambient = [], caps_Bounding = [''CAP_SETUID''], caps_Effective = [],
       caps_Inheritable = [], caps_Permitted = []\<rparr>,
     ep_Cwd = ''/home'', ep_DockerInit = [], ep_Env = [''PATH=/bin''], ep_NoNewPrivileges = True,
     ep_Rlimits = [], ep_Runqenv = False, ep_SeccompGob = [], ep_Systemd = True, ep_Terminal = False\<rparr>"

definition demo_epenv :: epenv where
  "demo_epenv = \<lparr>ee_decEntrypoint = (\<lambda>_. Some demo_ep), ee_decSeccomp = (\<lambda>_. None), ee_scmp = demo_lib,
     ee_caps = [(6, ''setgid''), (7, ''setuid''), (21, ''sys_admin'')], ee_lastCap = 40,
     ee_order = source_order\<rparr>"

lemma demo_listToCap:
  "listToCap (capMap [(6, ''setgid''), (7, ''setuid''), (21, ''sys_admin'')] 40) minCaps = Inr [6, 7, 21]"
  "listToCap (capMap [(6, ''setgid''), (7, ''setuid''), (21, ''sys_admin'')] 40) [''CAP_SETUID''] = Inr [7]"
  by code_simp+

lemma demo_dropCapabilities:
  "returns quiet_kernel (dropCapabilities (ee_caps demo_epenv) (ee_lastCap demo_epenv) (ee_order demo_epenv) (ep_Capabilities demo_ep))"
  using demo_listToCap
  by (auto simp: dropCapabilities_def demo_epenv_def demo_ep_def source_order_def capSets_def intro!: returns_intros)

lemma quiet_mountAll: "returns quiet_kernel (mountAll ms)"
  unfolding mountAll_def mountOne_def os_MkdirAll_def unix_Mount_def
  by (intro returns_forE returns_bnd_value [OF quiet_FileExists]) (auto intro!: returns_intros)

lemma quiet_maskPath: "returns quiet_kernel (maskPath ps)"
  unfolding maskPath_def maskPath1_def
  by (intro returns_forE returns_bnd_value [OF quiet_Stat]) (simp add: IsNotExist_def underlying_def returns_ret)

lemma quiet_readonlyPath: "returns quiet_kernel (readonlyPath ps)"
  unfolding readonlyPath_def readonlyPath1_def unix_Mount_def
  by (intro returns_forE returns_bnd_value [OF quiet_attempt_call]) (auto intro!: returns_intros)

lemma demo_setRlimits: "returns quiet_kernel (setRlimits source_order [])"
  by (auto simp: setRlimits_def source_order_def mergeLimits_def cfgRlimits_def RlimitsMap_def intro!: returns_intros)

lemma demo_confine: "returns quiet_kernel (confine demo_epenv demo_ep)"
  unfolding confine_def seqs.simps mountEntrypointStage0_def
  by (intro returns_thn returns_ret quiet_mountAll quiet_maskPath quiet_readonlyPath demo_dropCapabilities)
    (auto simp: demo_ep_def demo_epenv_def source_order_def Let_def demo_setRlimits [unfolded source_order_def]
      chroot_def prepareDeviceFiles_def initSeccomp_def setIDs_def os_call_defs deviceLinks_def
      intro!: returns_intros)

lemma demo_exec: "\<exists>es e. runEntrypoint demo_epenv [''entrypoint'', ''/bin/sh''] quiet_kernel [] = (Ret (), [] @ es)
    \<and> e \<in> set es \<and> ev_call e = Proc (ExecCall [] [''/bin/sh''] (ep_Env demo_ep))"
proof -
  define t0 where "t0 = [Done (Proc (ReadAllFd 3)), Done (Proc (CloseFd ''rd''))]"
  obtain t1 where c: "confine demo_epenv demo_ep quiet_kernel t0 = (Ret (), t1)"
    using returnsE [OF demo_confine, of t0] by auto
  have "runEntrypoint demo_epenv [''entrypoint'', ''/bin/sh''] quiet_kernel []
      = thn (confine demo_epenv demo_ep) (execCommand [''entrypoint'', ''/bin/sh''] demo_ep) quiet_kernel t0"
    by (simp add: runEntrypoint_def io_defs t0_def DecodeEntrypointGob_def demo_epenv_def)
  also have "\<dots> = (Ret (), t1 @ [Done (Proc (LookPath ''/bin/sh'')), Done (Proc (ExecCall [] [''/bin/sh''] (ep_Env demo_ep)))])"
    using c by (simp add: thn_def bnd_def) (simp add: execCommand_def unix_Exec_def io_defs)
  finally show ?thesis by auto
qed

theorem exec_only_confined_witness:
  "\<exists>es pre e. runEntrypoint demo_epenv [''entrypoint'', ''/bin/sh''] quiet_kernel [] = (Ret (), es)
     \<and> es = pre @ [e]
     \<and> subseq [Mnt (ChrootCall ''.''), Proc PrctlNoNewPrivs, Sec CapApply, Proc (Setgroups [4]),
          Proc (Setgid 100), Proc (Setuid 1000), Fs (Chdir ''/home'')] (calls pre)"
proof -
  obtain es e where r: "runEntrypoint demo_epenv [''entrypoint'', ''/bin/sh''] quiet_kernel [] = (Ret (), [] @ es)"
    "e \<in> set es" "ev_call e = Proc (ExecCall [] [''/bin/sh''] (ep_Env demo_ep))"
    using demo_exec by blast
  from exec_only_confined [OF this] obtain ep pre where
    "DecodeEntrypointGob (ee_decEntrypoint demo_epenv) [] = Inr ep" "es = pre @ [e]" "subseq (confinement ep) (calls pre)"
    by auto
  moreover from this(1) have "ep = demo_ep" by (simp add: demo_epenv_def DecodeEntrypointGob_def)
  ultimately show ?thesis using r by (auto simp: confinement_def demo_ep_def)
qed

end
