(* ===== verification/Init_Main.thy ===== *)
theory Init_Main
  imports Init_Disk Init_Network
begin

text \<open>
  \<^verbatim>\<open>cmd/init/main.go\<close> and \<^verbatim>\<open>cmd/init/fork.go\<close>: process 1 of the guest. It receives the
  data of the VM, sets the guest up, starts the container's entrypoint and vsockd, forwards signals,
  and shuts the guest down with the exit code of the entrypoint.
\<close>

section \<open>Child processes\<close>

text \<open>
  The process number of the child, which gets its data through a pipe; \<open>attrs\<close> are the attributes
  that are set in \<^verbatim>\<open>SysProcAttr\<close>. Descriptor 3 of the child is the end of the pipe to read from.
\<close>

definition startChild :: "string \<Rightarrow> string list \<Rightarrow> string list \<Rightarrow> (gerror + byte list) \<Rightarrow> int io" where
  "startChild path args attrs gob =
     thn (mapErr WithStack (call SysErrno (Proc PipeCall)))
     (bnd (ask (\<lambda>K t. k_int K t (Proc (StartProcess path args attrs [''dataReader'']))) (PathError ''fork/exec'' path) (Proc (StartProcess path args attrs [''dataReader'']))) (\<lambda>pid.
      thn (mapErr WithStack (call SysErrno (Proc (CloseFd ''dataReader''))))
      (case gob of
         Inl e \<Rightarrow> fail (WithStack e)
       | Inr bs \<Rightarrow>
           thn (seqs [mapErr WithStack (call SysErrno (Proc (PipeWrite bs))),
                      mapErr WithStack (call SysErrno (Proc (CloseFd ''dataWriter'')))])
             (ret pid))))"

definition newEntrypoint :: "entrypoint gobenc \<Rightarrow> entrypoint \<Rightarrow> int io" where
  "newEntrypoint enc ep =
     thn (note_call (Proc LockOSThread))
       (startChild ''/proc/self/exe'' (''entrypoint'' # ep_Args ep)
         [''Setsid'', ''Setctty'', ''CLONE_NEWPID'', ''CLONE_NEWNS'', ''CLONE_NEWIPC''] (Encode enc ep))"

definition newVsockd :: "vsockd gobenc \<Rightarrow> vsockd \<Rightarrow> int \<Rightarrow> int io" where
  "newVsockd enc v nspid = startChild ''/sbin/vsockd'' [''vsockd'', Itoa nspid] [''Setpgid''] (Encode enc v)"

section \<open>Shutdown\<close>

text \<open>
  \<^verbatim>\<open>sync.Once\<close>: the body runs in the first call only; the mark in the trace says that it has
  been entered.
\<close>

definition onceDo :: "string \<Rightarrow> unit io \<Rightarrow> unit io" where
  "onceDo name m = (\<lambda>K t. if Done (Proc (OnceDo name)) \<in> set t then (Ret (), t)
     else thn (note_call (Proc (OnceDo name))) m K t)"

text \<open>A channel operation that gives up after a time: a failure of the call stands for the timeout.\<close>

definition selectTimeout :: "syscall \<Rightarrow> string \<Rightarrow> unit io" where
  "selectTimeout c msg = bnd (attempt (call SysErrno c)) (\<lambda>r. case r of Inl _ \<Rightarrow> log_Print msg | Inr _ \<Rightarrow> ret ())"

text \<open>
  Ignoring the result of \<^verbatim>\<open>unix.Reboot\<close>; when it succeeds the guest is gone, with the exit code
  that was sent as its outcome.
\<close>

definition reboot :: "int \<Rightarrow> unit io" where
  "reboot rc = bnd (attempt (call SysErrno (Proc RebootCall))) (\<lambda>r. case r of
      Inl _ \<Rightarrow> ret () | Inr _ \<Rightarrow> os_Exit rc)"

definition cleanupGuest :: "unit io" where
  "cleanupGuest =
     seqs [ignore (SetSysctl ''kernel.printk'' ''0''), Killall, note_call (Proc SyncCall), umountInit]"

definition shutdown :: "byte \<Rightarrow> string \<Rightarrow> unit io" where
  "shutdown rc msg =
     onceDo ''shutdown''
       (seqs [whn (msg \<noteq> []) (log_Print msg),
              selectTimeout (Proc (ChanSend (unat rc))) ''ackChan <- rc timed out'',
              selectTimeout (Proc ChanRecv) ''<- ackChan timed out'',
              cleanupGuest,
              selectTimeout (Proc (GoRoutine ''cleanup'')) ''Warning: cleanup timed out'',
              reboot (uint rc)])"

section \<open>Waiting for children\<close>

definition wait4 :: "int \<Rightarrow> waitstatus io" where
  "wait4 pid = bnd (ask (\<lambda>K t. k_int K t (Proc (Wait4 pid))) SysErrno (Proc (Wait4 pid))) (\<lambda>st. ret (word_of_int st))"

text \<open>The status stays zero, that is exited, when the call fails.\<close>

definition wait4Vsockd :: "int \<Rightarrow> unit io" where
  "wait4Vsockd pid =
     bnd (attempt (wait4 pid)) (\<lambda>r.
       let w = (case r of Inl _ \<Rightarrow> 0 | Inr w \<Rightarrow> w)
       in if Exited w then ret ()
          else if Signaled w \<and> WSignal w = SIGKILL then ret ()
          else (case r of Inl e \<Rightarrow> log_Print ''%v'' | Inr _ \<Rightarrow> ret ()))"

definition wait4Entrypoint :: "int \<Rightarrow> bool \<Rightarrow> unit io" where
  "wait4Entrypoint pid systemd =
     bnd (attempt (wait4 pid)) (\<lambda>r. case r of
         Inl e \<Rightarrow> shutdown 1 ''%+v''
       | Inr w \<Rightarrow>
           if Exited w then shutdown (word_of_int (ExitStatus w)) []
           else if Signaled w then
             thn (whn systemd (if WSignal w = SIGINT then shutdown 0 [] else shutdown 1 []))
               (shutdown (128 + word_of_int (WSignal w)) [])
           else ret ())"

section \<open>Messages from the proxy\<close>

definition signalProcess :: "int \<Rightarrow> int \<Rightarrow> unit io" where
  "signalProcess pid sig = call SysErrno (Proc (SignalCall pid sig))"

text \<open>
  The messages that are still to come; when there are none, init waits for ever, which the model
  shows as a normal return.
\<close>

fun msgLoop :: "int \<Rightarrow> msg list \<Rightarrow> unit io" where
  "msgLoop pid [] = ret ()"
| "msgLoop pid (m # ms) =
     (if msg_Type m = msgSignal then
        (case msg_Data m of
           [] \<Rightarrow> panic ''index out of range''
         | b # _ \<Rightarrow>
             bnd (attempt (signalProcess pid (uint b))) (\<lambda>r.
               thn (case r of Inl e \<Rightarrow> log_Print ''send signal %#v to %d: %v'' | Inr _ \<Rightarrow> ret ())
                 (msgLoop pid ms)))
      else fail (WithStack (Errorf ''received invalid message: %v'' [])))"

section \<open>Process 1\<close>

record initenv =
  ie_gitCommit :: string
  ie_decVmdata :: "vmdata gobdec"
  ie_encEntrypoint :: "entrypoint gobenc"
  ie_encVsockd :: "vsockd gobenc"
  ie_order :: maporder

definition openChannel :: "string \<Rightarrow> unit io" where
  "openChannel path =
     thn (mapErr (Wrap (''OpenFile '' @ path)) (os_OpenFile path))
       (thn (note_call (Proc (GoRoutine ''ackChan''))) (note_call (Proc (GoRoutine ''msgChan''))))"

definition machineModules :: "vmdata \<Rightarrow> unit io" where
  "machineModules v =
     thn (if vm_MachineType v = ''z13'' then loadKernelModules ''z13'' [] else loadKernelModules ''z14+'' [])
       (whn (\<not> vm_NoExec v) (loadKernelModules ''vsock'' []))"

text \<open>The root filesystem of the container; with a root disk, the disk is taken out of the list.\<close>

definition mountRootfs :: "vmdata \<Rightarrow> vmdata io" where
  "mountRootfs v =
     (if vm_Rootdisk v = [] then thn (mountInitShare ''rootfs'' ''/rootfs'') (ret v)
      else bnd (setupRootdisk v) (\<lambda>v'. thn (mountInitShare ''share'' ''/rootfs/lib/modules'') (ret v')))"

definition removeMountpoint :: "unit io" where
  "removeMountpoint = bnd (attempt (os_Remove ''/rootfs/qemu'')) (\<lambda>r. case r of
      Inl e \<Rightarrow> if IsNotExist e then ret () else fail (WithStack e) | Inr _ \<Rightarrow> ret ())"

definition setupGuest :: "initenv \<Rightarrow> vmdata \<Rightarrow> unit io" where
  "setupGuest E v =
     seqs [CreateSymlink ''/rootfs/lib/modules'' ''/lib/modules'',
           removeMountpoint,
           mountInitStage1 (vm_Mounts v),
           setSysctl (ie_order E) (vm_Sysctl v),
           mapErr WithStack (call SysErrno (Proc (Sethostname (vm_Hostname v)))),
           init_setupNetwork (vm_Networks v),
           setupDisks (vm_Disks v),
           whn (vm_APDevice v \<noteq> []) setupAPDevice,
           note_call (Proc (GoRoutine ''reaper'')),
           mapErr (ErrorfE ''setModprobe failed: %v'' []) setModprobe]"

text \<open>\<^verbatim>\<open>shutdown(util.ErrorToRc(err))\<close>; when it returns, the code goes on with a nil command.\<close>

definition startOrShutdown :: "int io \<Rightarrow> int io" where
  "startOrShutdown m = bnd (attempt m) (\<lambda>r. case r of
      Inl e \<Rightarrow> thn (shutdown (fst (ErrorToRc (Some e))) ''%v'') (panic ''nil pointer dereference'')
    | Inr pid \<Rightarrow> ret pid)"

definition oomScorePath :: "int \<Rightarrow> string" where
  "oomScorePath pid = ''/proc/'' @ Itoa pid @ ''/oom_score_adj''"

definition startVsockd :: "initenv \<Rightarrow> vmdata \<Rightarrow> int \<Rightarrow> unit io" where
  "startVsockd E v pidEntrypoint =
     (let vsd = (vm_Vsockd v)\<lparr>vs_EntrypointPid := pidEntrypoint, vs_EntrypointEnv := ep_Env (vm_Entrypoint v)\<rparr>
      in bnd (startOrShutdown (newVsockd (ie_encVsockd E) vsd pidEntrypoint)) (\<lambda>pid.
         thn (bnd (attempt (ioutil_WriteFile (oomScorePath pid) ''-1000'' mode0644)) (\<lambda>r. case r of
                Inl _ \<Rightarrow> shutdown 1 ''can't adjust oom score of vsockd'' | Inr _ \<Rightarrow> ret ()))
           (note_call (Proc (GoRoutine ''wait4Vsockd'')))))"

definition startSysdig :: "unit io" where
  "startSysdig =
     thn (loadKernelModules ''sysdig'' [])
       (bnd (attempt (call (PathError ''fork/exec'' ''/sbin/sysdig'') (Proc (StartProcess ''/sbin/sysdig'' [''/sbin/sysdig'', ''-c'', ''/filter.lua''] [] [])))) (\<lambda>r.
         case r of Inl _ \<Rightarrow> log_Fatal ''%v'' | Inr _ \<Rightarrow> ret ()))"

definition runVM :: "initenv \<Rightarrow> vmdata \<Rightarrow> msg list \<Rightarrow> unit io" where
  "runVM E v msgs =
     thn (machineModules v)
     (thn (whn (\<not> ep_Terminal (vm_Entrypoint v)) (mapErr WithStack (call SysErrno (Proc MakeRaw))))
     (bnd (mountRootfs v) (\<lambda>v'.
      thn (setupGuest E v')
      (bnd (startOrShutdown (newEntrypoint (ie_encEntrypoint E) (vm_Entrypoint v'))) (\<lambda>pid.
       thn (note_call (Proc (GoRoutine ''wait4Entrypoint'')))
       (thn (whn (vs_CID (vm_Vsockd v') \<noteq> 0) (startVsockd E v' pid))
       (thn startSysdig (msgLoop pid msgs))))))))"

definition commitsDiffer :: "string \<Rightarrow> string \<Rightarrow> bool" where
  "commitsDiffer ours theirs \<longleftrightarrow> ours = [] \<or> theirs = [] \<or> theirs \<noteq> ours"

definition runInit :: "initenv \<Rightarrow> string list \<Rightarrow> int \<Rightarrow> msg list \<Rightarrow> unit io" where
  "runInit E args pid msgs =
     (if args \<noteq> [''/init''] \<or> pid \<noteq> 1 then os_Exit 0
      else thn (note_call (Proc LockOSThread))
      (thn mountInitStage0
      (thn (loadKernelModules ''base'' [])
      (bnd vportDevice (\<lambda>vportDev.
       thn (openChannel vportDev)
       (case msgs of
          [] \<Rightarrow> ret ()
        | m # ms \<Rightarrow>
            if msg_Type m \<noteq> msgVmdata then fail (WithStack (Errorf ''received invalid first message'' []))
            else thn (note_call (Proc (ChanSend 0)))
              (thn (note_call (Proc ChanRecv))
              (case DecodeDataGob (ie_decVmdata E) (msg_Data m) of
                 Inl e \<Rightarrow> fail (WithStack e)
               | Inr v \<Rightarrow>
                   thn (whn (commitsDiffer (ie_gitCommit E) (vm_GitCommit v)) (shutdown 1 ''binary missmatch proxy:%q init:%q''))
                     (runVM E v ms)))))))))"

text \<open>\<^verbatim>\<open>runInit\<close> returns with an error only; the normal return of the model is init waiting.\<close>

definition main_init :: "initenv \<Rightarrow> string list \<Rightarrow> int \<Rightarrow> msg list \<Rightarrow> unit io" where
  "main_init E args pid msgs =
     thn (note_call (Proc IgnoreSignals))
       (bnd (attempt (runInit E args pid msgs)) (\<lambda>r. case r of
            Inl e \<Rightarrow> thn (shutdown 1 ''%+v'') (shutdown 0 [])
          | Inr _ \<Rightarrow> ret ()))"

section \<open>Codes sent to the proxy\<close>

definition sendOf :: "event \<Rightarrow> nat list" where
  "sendOf e = (case ev_call e of Proc (ChanSend n) \<Rightarrow> [n] | _ \<Rightarrow> [])"

definition chanSends :: "trace \<Rightarrow> nat list" where
  "chanSends t = concat (map sendOf t)"

lemma chanSends_simps [simp]:
  "chanSends [] = []" "chanSends (t @ u) = chanSends t @ chanSends u" "chanSends (e # t) = sendOf e @ chanSends t"
  by (simp_all add: chanSends_def)

definition notSend :: "syscall \<Rightarrow> bool" where
  "notSend c \<longleftrightarrow> (case c of Proc (ChanSend n) \<Rightarrow> False | _ \<Rightarrow> True)"

lemma notSend_simps [simp]:
  "notSend (Fs f)" "notSend (Mnt m)" "notSend (Net n)" "notSend (Sec s)" "notSend (Proc (LogPrint msg))"
  "notSend (Proc (KillCall p g))" "notSend (Proc SyncCall)" "notSend (Proc (CloseFd fd))" "notSend (Proc ChanRecv)"
  "notSend (Proc (GoRoutine g'))" "notSend (Proc RebootCall)" "notSend (Proc (ExitCall rc))" "notSend (Proc (OnceDo d))"
  "notSend (Proc (ChanSend k)) \<longleftrightarrow> False"
  by (simp_all add: notSend_def)

lemma chanSends_emits:
  assumes "emits notSend m" and "m K t = (r, t')"
  obtains es where "t' = t @ es" and "chanSends es = []"
proof -
  obtain es where "t' = t @ es" "list_all (\<lambda>e. notSend (ev_call e)) es" by (rule emitsD [OF assms])
  moreover from this(2) have "chanSends es = []"
    by (induction es) (auto simp: sendOf_def notSend_def split: syscall.splits proccall.splits)
  ultimately show thesis using that by blast
qed

text \<open>What a predicate on calls must allow besides for the end of the guest to stay within it.\<close>

locale shutdown_footprint = kill_footprint P for P +
  assumes mounting: "P (Mnt m)" and sync: "P (Proc SyncCall)" and closing: "P (Proc (CloseFd fd))"
    and receiving: "P (Proc ChanRecv)" and spawning: "P (Proc (GoRoutine g))"
    and rebooting: "P (Proc RebootCall)" and exiting: "P (Proc (ExitCall rc))"
begin

lemma umountRounds: "emits P (umountRounds n)"
proof (induction n)
  case (Suc n)
  show ?case unfolding umountRounds.simps Let_def
    by (intro emits_intros Suc.IH) (simp_all add: files logs mounting closing)
qed (simp add: emits_ret)

lemma cleanupGuest: "emits P cleanupGuest"
  unfolding cleanupGuest_def seqs.simps SetSysctl_def Let_def umountInit_def
  by (intro emits_intros Killall umountRounds) (simp_all add: files logs sync)

lemma selectTimeout: "P c \<Longrightarrow> emits P (selectTimeout c msg)"
  unfolding selectTimeout_def by (intro emits_intros) (simp_all add: logs)

lemma reboot: "emits P (reboot n)"
  unfolding reboot_def by (intro emits_intros) (simp_all add: rebooting exiting)

end

interpretation sending: shutdown_footprint notSend
  by unfold_locales simp_all

text \<open>Sending, with or without timeout, is one attempt.\<close>

lemma select_send:
  "\<exists>es. selectTimeout (Proc (ChanSend n)) msg K t = (Ret (), t @ es) \<and> chanSends es = [n]"
  by (cases "k_do K t (Proc (ChanSend n))")
    (auto simp: selectTimeout_def log_Print_def io_defs sendOf_def)

definition shutdownTail :: "byte \<Rightarrow> unit io" where
  "shutdownTail rc = seqs [selectTimeout (Proc ChanRecv) ''<- ackChan timed out'', cleanupGuest,
     selectTimeout (Proc (GoRoutine ''cleanup'')) ''Warning: cleanup timed out'', reboot (uint rc)]"

lemma emits_notSend_tail: "emits notSend (shutdownTail rc)"
  unfolding shutdownTail_def seqs.simps
  by (intro emits_intros sending.selectTimeout sending.cleanupGuest sending.reboot) simp_all

lemma shutdown_first:
  assumes fresh: "Done (Proc (OnceDo ''shutdown'')) \<notin> set t" and run: "shutdown rc msg K t = (r, t')"
  obtains es where "t' = t @ es" and "chanSends es = [unat rc]" and "Done (Proc (OnceDo ''shutdown'')) \<in> set t'"
proof -
  let ?log = "whn (msg \<noteq> []) (log_Print msg)"
  let ?t1 = "t @ [Done (Proc (OnceDo ''shutdown''))]"
  have "emits notSend ?log" by (intro emits_intros) simp
  moreover obtain t2 where l: "?log K ?t1 = (Ret (), t2)"
    by (cases "msg = []") (auto simp: whn_def ret_def log_Print_def note_call_def)
  ultimately obtain e1 where e1: "t2 = ?t1 @ e1" "chanSends e1 = []" by (rule chanSends_emits)
  obtain e2 where e2: "selectTimeout (Proc (ChanSend (unat rc))) ''ackChan <- rc timed out'' K t2 = (Ret (), t2 @ e2)"
    "chanSends e2 = [unat rc]" using select_send by blast
  have "shutdownTail rc K (t2 @ e2) = (r, t')"
    using run fresh l e2
    by (simp add: shutdown_def onceDo_def thn_def bnd_def note_call_def) (simp add: shutdownTail_def thn_def bnd_def)
  then obtain e3 where e3: "t' = (t2 @ e2) @ e3" "chanSends e3 = []"
    by (rule chanSends_emits [OF emits_notSend_tail])
  show thesis
    by (rule that [of "[Done (Proc (OnceDo ''shutdown''))] @ e1 @ e2 @ e3"]) (simp_all add: e1 e2 e3 sendOf_def)
qed

lemma shutdown_again:
  "Done (Proc (OnceDo ''shutdown'')) \<in> set t \<Longrightarrow> shutdown rc msg K t = (Ret (), t)"
  by (simp add: shutdown_def onceDo_def)

text \<open>The exit code of the container, as Docker expects it.\<close>

definition exitCode :: "waitstatus \<Rightarrow> bool \<Rightarrow> byte option" where
  "exitCode w systemd =
     (if Exited w then Some (word_of_int (ExitStatus w))
      else if Signaled w then
        Some (if systemd then (if WSignal w = SIGINT then 0 else 1) else 128 + word_of_int (WSignal w))
      else None)"

lemma shutdown_twice:
  assumes fresh: "Done (Proc (OnceDo ''shutdown'')) \<notin> set t"
    and run: "thn (shutdown a m) (shutdown b m') K t = (r, t @ es)"
  shows "chanSends es = [unat a]"
proof -
  obtain r1 t1 where s: "shutdown a m K t = (r1, t1)" by force
  obtain e1 where e: "t1 = t @ e1" "chanSends e1 = [unat a]" "Done (Proc (OnceDo ''shutdown'')) \<in> set t1"
    by (rule shutdown_first [OF fresh s])
  have "t @ es = t1" using run s shutdown_again [OF e(3)] by (cases r1) (auto simp: thn_def bnd_def)
  with e show ?thesis by simp
qed

section \<open>Nothing is started\<close>

interpretation starting: shutdown_footprint notStart
  by unfold_locales simp_all

lemma emits_notStart_shutdown_body:
  "emits notStart (seqs [whn b (log_Print msg), selectTimeout (Proc (ChanSend n)) m1,
     selectTimeout (Proc ChanRecv) m2, cleanupGuest, selectTimeout (Proc (GoRoutine g)) m3, reboot k])"
  unfolding seqs.simps
  by (intro emits_intros starting.selectTimeout starting.cleanupGuest starting.reboot) simp_all

lemma emits_notStart_shutdown: "emits notStart (shutdown rc msg)"
proof -
  have "emits notStart (thn (note_call (Proc (OnceDo ''shutdown''))) (seqs [whn (msg \<noteq> []) (log_Print msg),
      selectTimeout (Proc (ChanSend (unat rc))) ''ackChan <- rc timed out'', selectTimeout (Proc ChanRecv) ''<- ackChan timed out'',
      cleanupGuest, selectTimeout (Proc (GoRoutine ''cleanup'')) ''Warning: cleanup timed out'', reboot (uint rc)]))"
    by (intro emits_thn emits_note_call emits_notStart_shutdown_body) simp
  then show ?thesis unfolding emits_def shutdown_def onceDo_def by auto
qed

lemma shutdown_gone:
  assumes "Done (Proc (OnceDo ''shutdown'')) \<notin> set t" and "\<And>t. k_do K t (Proc RebootCall) = None"
  shows "shutdown rc msg K t \<noteq> (Ret u, t')"
  using assms by (auto simp: shutdown_def onceDo_def thn_Ret_iff reboot_def bnd_Ret_iff attempt_Ret_iff call_def)

text \<open>Calls that neither start a process nor enter the shutdown.\<close>

definition setupOnly :: "syscall \<Rightarrow> bool" where
  "setupOnly c \<longleftrightarrow> notStart c \<and> c \<noteq> Proc (OnceDo ''shutdown'')"

lemma setupOnly_simps [simp]:
  "setupOnly (Fs f)" "setupOnly (Mnt m)" "setupOnly (Proc (FinitModule q ps))" "setupOnly (Proc (CloseFd fd))"
  "setupOnly (Proc (Sleep ms))" "setupOnly (Proc LockOSThread)" "setupOnly (Proc (GoRoutine g))" "setupOnly (Proc (ChanSend n))" "setupOnly (Proc ChanRecv)"
  by (simp_all add: setupOnly_def)

lemma emits_setup_modules: "emits setupOnly fin \<Longrightarrow> emits setupOnly (loadLines kind pre fin ls)"
proof (induction kind pre fin ls rule: loadLines.induct)
  case (2 kind pre fin l ls)
  then show ?case
    by (cases "kernelLine l") (auto simp: Let_def finitModule_def intro!: emits_intros)
qed simp

lemma emits_setup_load: "emits setupOnly (loadKernelModules kind pre)"
  unfolding loadKernelModules_def Let_def
  by (intro emits_intros emits_setup_modules) simp_all

lemma emits_setup_mountAll: "emits setupOnly (mountAll ms)"
  unfolding mountAll_def mountOne_def by (intro emits_intros) simp_all

lemma emits_setup_vport: "emits setupOnly vportDevice"
proof -
  have "emits setupOnly (pollVports n r)" for n r
  proof (induction n arbitrary: r)
    case (Suc n)
    show ?case unfolding pollVports.simps by (intro emits_intros Suc.IH) simp_all
  qed (simp add: emits_ret)
  then show ?thesis unfolding vportDevice_def by (intro emits_intros) 
qed

lemma emits_setup_open: "emits setupOnly (openChannel p)"
  unfolding openChannel_def by (intro emits_intros) simp_all

text \<open>From the state \<open>t\<close> on, no process is started.\<close>

definition idle :: "kernel \<Rightarrow> trace \<Rightarrow> 'a io \<Rightarrow> bool" where
  "idle K t m \<longleftrightarrow> (\<exists>es. snd (m K t) = t @ es \<and> list_all (\<lambda>e. notStart (ev_call e)) es)"

definition unshut :: "trace \<Rightarrow> bool" where
  "unshut t \<longleftrightarrow> Done (Proc (OnceDo ''shutdown'')) \<notin> set t"

lemma idle_emits: "emits notStart m \<Longrightarrow> idle K t m"
  by (simp add: idle_def emits_def)

lemma idle_os_Exit: "idle K t (os_Exit n)"
  by (simp add: idle_def os_Exit_def)

lemma idle_bnd:
  assumes m: "emits setupOnly m" and t: "unshut t"
    and f: "\<And>a u. unshut u \<Longrightarrow> idle K u (f a)"
  shows "idle K t (bnd m f)"
proof -
  obtain r u where mu: "m K t = (r, u)" by force
  then obtain es where es: "u = t @ es" "list_all (\<lambda>e. setupOnly (ev_call e)) es" by (rule emitsD [OF m])
  have ns: "list_all (\<lambda>e. notStart (ev_call e)) es" using es(2) by (auto simp: list_all_iff setupOnly_def)
  have "unshut u" using es t by (auto simp: unshut_def list_all_iff setupOnly_def)
  then have "idle K u (f a)" for a by (rule f)
  with mu es(1) ns show ?thesis by (cases r) (fastforce simp: idle_def bnd_def)+
qed

lemma idle_thn: "emits setupOnly m \<Longrightarrow> unshut t \<Longrightarrow> (\<And>u. unshut u \<Longrightarrow> idle K u k) \<Longrightarrow> idle K t (thn m k)"
  by (simp add: thn_def idle_bnd)

lemma idle_shutdown:
  assumes "unshut t" and "\<And>t. k_do K t (Proc RebootCall) = None"
  shows "idle K t (thn (shutdown rc msg) k)"
proof -
  obtain r u where mu: "shutdown rc msg K t = (r, u)" by force
  with assms shutdown_gone have "\<forall>a. r \<noteq> Ret a" by (metis unshut_def)
  moreover obtain es where "u = t @ es" "list_all (\<lambda>e. notStart (ev_call e)) es"
    by (rule emitsD [OF emits_notStart_shutdown mu])
  ultimately show ?thesis using mu by (cases r) (auto simp: idle_def thn_def bnd_def)
qed

lemma idle_foreign:
  assumes dec: "DecodeDataGob (ie_decVmdata E) (msg_Data m) = Inr v"
    and differ: "commitsDiffer (ie_gitCommit E) (vm_GitCommit v)"
    and t: "unshut t" and reboots: "\<And>t. k_do K t (Proc RebootCall) = None"
  shows "idle K t (runInit E args pid (m # ms))"
proof -
  have whn: "thn (whn (commitsDiffer (ie_gitCommit E) (vm_GitCommit v)) s) k = thn s k" for s k
    using differ by (simp add: whn_def)
  show ?thesis
    unfolding runInit_def list.case dec sum.case whn mountInitStage0_def
    using t
    by (auto intro!: idle_thn idle_bnd idle_shutdown emits_setup_mountAll emits_setup_load emits_setup_vport
        emits_setup_open emits_note_call idle_os_Exit reboots intro: idle_emits emits_intros)
qed

section \<open>Properties\<close>

text \<open>
  The proxy learns the exit code of the container: when the entrypoint has ended with a wait
  status, exactly one code is sent, namely its exit status, or 128 plus the signal that killed it;
  under systemd a signal means 0 if it is SIGINT (power off) and 1 otherwise.
\<close>

lemma container_exit_code_sent:
  assumes "k_int K t (Proc (Wait4 pid)) = Inr st" and "Done (Proc (OnceDo ''shutdown'')) \<notin> set t"
    and "wait4Entrypoint pid systemd K t = (r, t @ es)" and "exitCode (word_of_int st) systemd = Some code"
  shows "chanSends es = [unat code]"
proof -
  let ?w = "word_of_int st :: waitstatus" and ?t1 = "t @ [Done (Proc (Wait4 pid))]"
  let ?after = "if Exited ?w then shutdown (word_of_int (ExitStatus ?w)) []
      else if Signaled ?w then
        thn (whn systemd (if WSignal ?w = SIGINT then shutdown 0 [] else shutdown 1 []))
          (shutdown (128 + word_of_int (WSignal ?w)) [])
      else ret ()"
  have fresh: "Done (Proc (OnceDo ''shutdown'')) \<notin> set ?t1" using assms(2) by simp
  have "wait4 pid K t = (Ret ?w, ?t1)" using assms(1) by (simp add: wait4_def io_defs)
  then have "attempt (wait4 pid) K t = (Ret (Inr ?w), ?t1)" by (simp add: attempt_def)
  then have run: "?after K ?t1 = (r, t @ es)" using assms(3) by (simp add: wait4Entrypoint_def bnd_def)
  have one: "chanSends es = [unat c]" if sh: "shutdown c m K ?t1 = (r, t @ es)" for c m
  proof -
    obtain es' where "t @ es = ?t1 @ es'" "chanSends es' = [unat c]" by (rule shutdown_first [OF fresh sh])
    then show ?thesis by (simp add: sendOf_def)
  qed
  have two: "chanSends es = [unat a]" if sh: "thn (shutdown a m) (shutdown b m') K ?t1 = (r, t @ es)" for a b m m'
  proof -
    have "emits (\<lambda>_. True) (thn (shutdown a m) (shutdown b m'))"
      by (intro emits_thn emits_mono [OF emits_notStart_shutdown]) simp_all
    then obtain es' where es': "t @ es = ?t1 @ es'" using sh by (rule emitsD)
    with shutdown_twice [OF fresh, of a m b m' K r es'] sh show ?thesis by (simp add: sendOf_def)
  qed
  consider "Exited ?w" | "\<not> Exited ?w" "Signaled ?w" "systemd" | "\<not> Exited ?w" "Signaled ?w" "\<not> systemd"
    using assms(4) by (cases systemd) (auto simp: exitCode_def split: if_splits)
  then show ?thesis
  proof cases
    case 1
    with run assms(4) show ?thesis by (auto simp: exitCode_def dest!: one)
  next
    case 2
    with run assms(4) show ?thesis by (auto simp: exitCode_def whn_def dest!: two split: if_splits)
  next
    case 3
    with run assms(4) show ?thesis by (auto simp: exitCode_def whn_def dest!: one)
  qed
qed

definition demo_wait :: kernel where
  "demo_wait = quiet_kernel\<lparr>k_int := (\<lambda>t c. Inr 0x2A00)\<rparr>"

text \<open>
  C20: Shutting down happens once: of two calls, as when the entrypoint ends while init fails, only
  the first one sends its code, whatever the calls in between answer, and the second does nothing.
\<close>

theorem shutdown_sends_one_code:
  assumes "Done (Proc (OnceDo ''shutdown'')) \<notin> set t"
    and "thn (shutdown a m) (shutdown b m') K t = (r, t @ es)"
  shows "chanSends es = [unat a]"
  by (rule shutdown_twice [OF assms])

theorem shutdown_sends_one_code_witness:
  "\<exists>r es. thn (shutdown 3 []) (shutdown 4 []) quiet_kernel [] = (r, es) \<and> chanSends es = [3]"
proof -
  have "emits (\<lambda>_. True) (thn (shutdown 3 []) (shutdown 4 []))"
    by (intro emits_thn emits_mono [OF emits_notStart_shutdown]) simp_all
  then obtain r es where "thn (shutdown 3 []) (shutdown 4 []) quiet_kernel [] = (r, [] @ es)"
    unfolding emits_def by (metis append_Nil prod.collapse)
  with shutdown_sends_one_code [OF _ this] show ?thesis by auto
qed


definition demo_initenv :: initenv where
  "demo_initenv = \<lparr>ie_gitCommit = ''abc'', ie_decVmdata = (\<lambda>_. Some demo_vmdata), ie_encEntrypoint = (\<lambda>_. None),
     ie_encVsockd = (\<lambda>_. None), ie_order = source_order\<rparr>"


text \<open>
  Signals reach the container's process in the order in which the proxy sent them, one for one;
  a signal that cannot be delivered is reported and does not stop the others.
\<close>

lemma signals_forwarded_in_order:
  assumes "\<forall>m\<in>set ms. msg_Type m = msgSignal \<and> msg_Data m \<noteq> []"
  shows "\<exists>es. msgLoop pid ms K t = (Ret (), t @ es)
    \<and> filter (\<lambda>c. \<exists>p s. c = Proc (SignalCall p s)) (map ev_call es)
        = map (\<lambda>m. Proc (SignalCall pid (uint (hd (msg_Data m))))) ms"
  using assms
proof (induction ms arbitrary: t)
  case (Cons m ms)
  obtain b bs where d: "msg_Data m = b # bs" "msg_Type m = msgSignal"
    using Cons.prems by (cases "msg_Data m") auto
  let ?sig = "Proc (SignalCall pid (uint b))"
  define u where "u = (case k_do K t ?sig of None \<Rightarrow> [Done ?sig] | Some n \<Rightarrow> [Failed ?sig n, Done (Proc (LogPrint ''send signal %#v to %d: %v''))])"
  have step: "msgLoop pid (m # ms) K t = msgLoop pid ms K (t @ u)"
    using d by (cases "k_do K t ?sig") (simp_all add: u_def signalProcess_def log_Print_def io_defs)
  obtain es where "msgLoop pid ms K (t @ u) = (Ret (), (t @ u) @ es)"
    "filter (\<lambda>c. \<exists>p s. c = Proc (SignalCall p s)) (map ev_call es) = map (\<lambda>m. Proc (SignalCall pid (uint (hd (msg_Data m))))) ms"
    using Cons.IH [of "t @ u"] Cons.prems by auto
  moreover have "filter (\<lambda>c. \<exists>p s. c = Proc (SignalCall p s)) (map ev_call u) = [?sig]"
    by (auto simp: u_def split: option.splits)
  ultimately show ?case using step d by (intro exI [of _ "u @ es"]) simp
qed simp

end
