(* ===== verification/Spec2Isabelle.thy ===== *)
theory Spec2Isabelle
  imports Prelude OS Bracket Logs Codec Net Vm Channel Cfg Util Vs Vsockd Loopback Proxy_Disk Proxy_Network Proxy_Qemu
    Proxy_Main RunqExec Init_Mount Init_System Init_Caps Init_Seccomp Init_Disk Init_Network Init_Entrypoint Init_Main
begin

text \<open>
  A verification of runq, a runtime that runs each container in a virtual machine of its own. All paths
  below are under \<^verbatim>\<open>src/\<close>.

  \<^bold>\<open>The program.\<close> Docker starts a container through runq, a patched runc, which collects the data of the
  container (\<^verbatim>\<open>pkg/vm\<close>) and starts the proxy (\<^verbatim>\<open>cmd/proxy\<close>) in place of its command. The
  proxy completes the data from its environment, takes the network interfaces over, checks the disks,
  starts QEMU, and sends the data through a virtio serial port to init (\<^verbatim>\<open>cmd/init\<close>), which is
  process 1 of the guest. Init mounts the root filesystem, configures the guest and starts two
  children: the entrypoint, which confines itself and then becomes the command of the container, and
  vsockd (\<^verbatim>\<open>cmd/vsockd\<close>), which runs further commands for runq-exec (\<^verbatim>\<open>cmd/runq-exec\<close>) on
  the host. Signals go from the proxy to init, exit codes from init to the proxy.

  \<^bold>\<open>The model of a program.\<close> Theory OS has the type \<open>'a io\<close>: a function of a \<open>kernel\<close>, which answers every
  call as an arbitrary function of all that happened before, and of the trace of calls so far; the
  result is a value, a Go error, a panic or an exit, and the trace with the new calls and whether they
  succeeded. Every program is a composition of \<open>bnd\<close>, \<open>thn\<close>, \<open>forE\<close>, \<open>attempt\<close>, \<open>deferring\<close> and calls,
  in the order of the Go code, with each error return as a failure. Theorems hold for every kernel
  unless a hypothesis names what the kernel answers. Prelude and Net hold what is used of the Go
  library: strings, numbers, paths, lines, and addresses of the package \<^verbatim>\<open>net\<close>. Integers are \<open>int\<close>
  with the bounds of 64 bits checked where text is converted, and words of 8 and 32 bits for exit
  codes, bytes, wait statuses and context IDs.

  \<^bold>\<open>The logics.\<close> OS proves which calls a program can make (\<open>emits\<close>); Bracket, that what is opened is closed
  however the program ends (\<open>settles\<close>), and with which calls a run that succeeds proceeds (\<open>does\<close>); Logs, the
  calls of a kind made by a run that succeeds (\<open>logs\<close>), that there is at most one call of a kind
  (\<open>singles\<close>), what holds at a normal end (\<open>post\<close>), that the interesting calls are in a last part
  (\<open>phase\<close>), and known results of concrete runs (\<open>yields\<close>). Each has introduction rules in a collection
  of its own. Codec has the contract of encoders and decoders as locales; base64, the frames of
  the channel and IP addresses are interpretations. The locales \<open>kill_footprint\<close>, \<open>shutdown_footprint\<close> and
  \<open>proxy_footprint\<close> say what a class of calls must contain for whole parts of the program to stay
  within it; they are interpreted for the classes that the properties are about.

  \<^bold>\<open>Theories and sources.\<close>
  \<^item> Vm: \<^verbatim>\<open>pkg/vm/vm.go\<close>. The records of the data, with the encodings; gob and zlib are arguments.
  \<^item> Cfg, Util, Vs, Loopback: \<^verbatim>\<open>internal/cfg\<close>, \<^verbatim>\<open>internal/util\<close>, \<^verbatim>\<open>internal/vs\<close>,
    \<^verbatim>\<open>internal/loopback\<close>.
  \<^item> Channel: both sides of the channel, \<^verbatim>\<open>cmd/proxy/channel.go\<close> and \<^verbatim>\<open>cmd/init/channel.go\<close>.
    A stream is a list of chunks, the bytes that one read can return at most.
  \<^item> Proxy\_Disk, Proxy\_Network, Proxy\_Qemu, Proxy\_Main: \<^verbatim>\<open>disk.go\<close>, \<^verbatim>\<open>network.go\<close>,
    \<^verbatim>\<open>qemu_amd64.go\<close> and \<^verbatim>\<open>qemu_s390x.go\<close>, \<^verbatim>\<open>main.go\<close> of \<^verbatim>\<open>cmd/proxy\<close>.
    Proxy\_Qemu also has a reader of QEMU's command line, which the properties compare with the data.
  \<^item> Init\_Mount, Init\_System, Init\_Caps, Init\_Seccomp, Init\_Disk, Init\_Network, Init\_Entrypoint,
    Init\_Main: the files of \<^verbatim>\<open>cmd/init\<close>; Init\_System has the modules, sysctl settings, ports,
    modprobe and the reaper, Init\_Main has \<^verbatim>\<open>main.go\<close> and \<^verbatim>\<open>fork.go\<close>.
  \<^item> Vsockd: \<^verbatim>\<open>cmd/vsockd/main.go\<close>. Connections run concurrently; the inductive relation
    \<open>vstep\<close> interleaves the critical sections of their goroutines, timers and reports in any order.
  \<^item> RunqExec: \<^verbatim>\<open>cmd/runq-exec/main.go\<close>, with the decoder of the engine's JSON as an argument.

  \<^bold>\<open>What is shown.\<close> Of vsockd, by rule induction over its reachable states: a command starts at most once, each
  job follows an abstract life cycle, connections are closed once, every job leaves the table, only the
  host with a certificate is served. Of init: the command of the container runs only after chroot,
  capabilities, seccomp and the change of user, in this order, and each of these steps fails closed;
  mounts, masked paths, sysctl settings, modules, network and disks are set up exactly as
  configured; one exit code is sent; data of another build starts nothing. Of the proxy: complete
  data is well formed, disks and loop devices are given back, interfaces are taken over in order,
  the resolver gets the servers that were asked for, QEMU is the only process and its command line
  reads back as the configuration, the exit code is that of init. Of runq-exec: only running runq
  containers are contacted, and one job goes through client and server with its arguments and its
  exit code. Below, across components: signals from the proxy to the container, exit codes from the
  container to the proxy, QEMU's devices and the data that init gets, and disks in the guest and
  their files.

  \<^bold>\<open>Loops and bounds.\<close> Every loop is a terminating function over the data it goes through. Loops that wait are
  bounded as in the code: 100 polls for the port, ten rounds of unmounting. The loops that never
  end (accepting connections, receiving messages, the reaper) are modelled by a relation, by the list of
  messages that arrive, or by one turn. A reply that the kernel gives as a list is finite.

  \<^bold>\<open>Concurrency.\<close> The goroutines of vsockd are interleaved. In init, the proxy and runq-exec a goroutine is a
  recorded call and a function of its own, and where the main program waits for the first of
  several events, the kernel says which one came. Timeouts are failures of the call that waits.

  \<^bold>\<open>Not modelled.\<close> The contents of log messages and of error texts beyond format and arguments; the contents of
  copied streams; TLS, gob, zlib, JSON, netlink, libseccomp, kmod and the kernel itself, which are
  arguments or answers; text outside ASCII. The patch against runc (\<^verbatim>\<open>cmd/runq\<close>), whose base is not
  in the repository, nsenter (\<^verbatim>\<open>cmd/nsenter\<close>, written in C), and the build, the images and the tests.
\<close>

section \<open>Signals from the proxy to the container\<close>

text \<open>The messages that were put into the channel to init.\<close>

definition msgOf :: "event \<Rightarrow> msg list" where
  "msgOf e = (case ev_call e of Proc (SendMsg ty bs) \<Rightarrow> [\<lparr>msg_Type = word_of_nat ty, msg_Data = bs\<rparr>] | _ \<Rightarrow> [])"

definition sentMsgs :: "trace \<Rightarrow> msg list" where
  "sentMsgs es = concat (map msgOf es)"

lemma forwardSignals_sends:
  "\<exists>es. forwardSignals sigs K t = (Ret (), t @ es) \<and> sentMsgs es = map signalMsg sigs"
proof (induction sigs arbitrary: t)
  case Nil
  show ?case by (simp add: forwardSignals_def ret_def sentMsgs_def)
next
  case (Cons sig sigs)
  let ?e = "[Done (Proc (LogPrint ''forwarding signal '%#v' to init'')), Done (Proc (SendMsg (unat msgSignal) [word_of_int sig]))]"
  obtain es where "forwardSignals sigs K (t @ ?e) = (Ret (), (t @ ?e) @ es)" "sentMsgs es = map signalMsg sigs"
    using Cons.IH by blast
  moreover have "forwardSignals (sig # sigs) K t = forwardSignals sigs K (t @ ?e)"
    by (simp add: forwardSignals_def sendMsg_def signalMsg_def log_Print_def io_defs)
  ultimately show ?case
    by (intro exI [of _ "?e @ es"]) (simp add: sentMsgs_def msgOf_def signalMsg_def)
qed

lemma framable_signal: "framable (signalMsg sig)"
  by (simp add: framable_def signalMsg_def)



section \<open>The exit code of the container\<close>

text \<open>What the proxy reads when init writes the acknowledgement of the data and then these codes, each read on its own.\<close>

definition acksRead :: "nat list \<Rightarrow> int list" where
  "acksRead codes = fst (read_acks (map (write_ack \<circ> word_of_nat) (0 # codes)))"

lemma acksRead_eq: "acksRead codes = 0 # map (\<lambda>n. uint (word_of_nat n :: byte)) codes"
proof -
  have "map (write_ack \<circ> word_of_nat) (0 # codes) = map write_ack (map word_of_nat (0 # codes))" by simp
  then show ?thesis unfolding acksRead_def by (simp only: read_acks_single) simp
qed

lemma superviseVM_returns:
  assumes "\<And>u c. k_do K u c = None" and "\<And>u. k_int K u (Proc (Wait4 pid)) = Inr 0" and "\<And>u. k_int K u (Proc ChanRecv) = Inr rc"
  shows "yields K (superviseVM pid nws) (rc, None)"
proof -
  have "yields K (qemuDone pid) None" using assms(2) by (simp add: yields_def qemuDone_def io_defs)
  moreover have "yields K (attempt (ask (\<lambda>K t. k_int K t (Proc ChanRecv)) SysErrno (Proc ChanRecv))) (Inr rc)"
    by (intro yields_attempt yields_ask assms(3))
  ultimately show ?thesis
    unfolding superviseVM_def unix_Mount_def
    by (auto intro!: yields_thn yields_bnd yields_ret yields_note_call yields_call yields_mapErr yields_forE simp: assms(1))
qed


definition qemu_host :: kernel where
  "qemu_host = quiet_kernel\<lparr>k_int := (\<lambda>t c. if c = Proc ChanRecv then Inr 42 else Inr 0)\<rparr>"


section \<open>The machine and what init is told of it\<close>

lemma disk_ok_plain:
  assumes "disk_ok d d'" and "plain (disk_Path d)"
  shows "plainDisk d'"
proof -
  have "disk_Cache d' \<in> set cacheTypes" "disk_Path d' = disk_Path d" "list_all isHex (disk_Serial d')"
    using assms(1) by (auto simp: disk_ok_def Let_def)
  moreover have "plain c" if "c \<in> set cacheTypes" for c using that by (auto simp: cacheTypes_def)
  moreover have "\<not> isHex (CHR '','')" by code_simp
  ultimately show ?thesis using assms(2) by (auto simp: plainDisk_def list_all_iff)
qed

lemma boots_disks:
  assumes "boots E b64 K t v args" and "ZipDecodeBase64 (pe_decVmdata E) (pe_gunzip E) b64 = Inr v0"
    and "\<forall>d\<in>set (vm_Disks v0). plain (disk_Path d)"
  shows "\<forall>d\<in>set (vm_Disks v). plainDisk d"
proof -
  obtain v1 t1 t2 t3 where c: "completeVmdata (pe_arch E) (pe_environ E) v0 K t = (Ret v1, t1)"
    and q: "getQemuVersion (pe_arch E) v1 K t2 = (Ret v, t3)" using assms(1,2) unfolding boots_def by auto
  obtain ver where v: "v = v1\<lparr>vm_QemuVersion := ver\<rparr>" using getQemuVersion_Ret [OF q] by blast
  have "list_all2 disk_ok (vm_Disks v0) (vm_Disks v)" using completeVmdata_Ret [OF c] v by (simp add: disksOk_def)
  then show ?thesis using assms(3) by (induction rule: list_all2_induct) (auto intro: disk_ok_plain)
qed

lemma boots_args: "boots E b64 K t v args \<Longrightarrow> \<exists>share u u'. qemuArgs (pe_arch E) v vmsocket share K u = (Ret args, u')"
  unfolding boots_def by blast

lemma proxy_run_same_data:
  assumes "proxy_run E b64 K t = (r, t @ es)" and "e1 \<in> set es" and "ev_call e1 = Proc (StartProcess path args attrs files)"
    and "e2 \<in> set es" and "ev_call e2 = Proc (SendMsg ty bs)"
  obtains v where "boots E b64 K t v args" and "files = map nw_TapDevice (vm_Networks v)" and "Encode (pe_encVmdata E) v = Inr bs"
    and "ty = unat msgVmdata"
proof -
  have n: "\<not> beforeBoot (ev_call e1)" "\<not> beforeBoot (ev_call e2)" by (simp_all add: assms(3,5) beforeBoot_def)
  obtain v args' es1 es2 where b: "boots E b64 K t v args'" "es = es1 @ es2" "\<forall>x\<in>set es1. beforeBoot (ev_call x)"
    "\<forall>x\<in>set es2. bootCalls (pe_encVmdata E) v args' (ev_call x) \<and> (notStart (ev_call x) \<or> alone notStart x es2)" by (rule proxy_run_boot [OF assms(1,2) n(1)])
  then have "bootCalls (pe_encVmdata E) v args' (ev_call e1)" "bootCalls (pe_encVmdata E) v args' (ev_call e2)"
    using assms(2,4) n by auto
  then have "args' = args" "files = map nw_TapDevice (vm_Networks v)" "Encode (pe_encVmdata E) v = Inr bs" "ty = unat msgVmdata"
    using n by (auto simp: assms(3,5) bootCalls_def)
  with b(1) that show thesis by blast
qed

text \<open>
  C4: Init is told of the machine that QEMU runs. Whenever the proxy has started QEMU and sent the data of
  the machine, init decodes the data that QEMU was started with: the disks of the command line are
  those of the data, in order, by serial number and backing file; the network cards have the hardware
  addresses of its networks, and the descriptors they use are those of the taps of these networks.
  No disk path of the request and no hardware address has a comma, which QEMU would take for the end
  of the value.
\<close>

theorem init_is_told_of_the_machine:
  assumes "proxy_run E b64 K t = (r, t @ es)" and "e1 \<in> set es" and "ev_call e1 = Proc (StartProcess path args attrs files)"
    and "e2 \<in> set es" and "ev_call e2 = Proc (SendMsg ty bs)"
    and "recovers (pe_encVmdata E) dec"
    and "ZipDecodeBase64 (pe_decVmdata E) (pe_gunzip E) b64 = Inr v0" and "\<forall>d\<in>set (vm_Disks v0). plain (disk_Path d)"
  shows "\<exists>v. DecodeDataGob dec bs = Inr v \<and> ty = unat msgVmdata \<and> files = map nw_TapDevice (vm_Networks v)
    \<and> ((\<forall>nw\<in>set (vm_Networks v). plain (nw_MacAddress nw)) \<longrightarrow>
        (\<exists>os. readOpts (tl args) = Some os
          \<and> guestDisks os = map (\<lambda>d. (Some (disk_Serial d), Some (disk_Path d))) (vm_Disks v)
          \<and> guestNics os = map2 (\<lambda>i nw. (Some (nw_MacAddress nw), Some (Itoa (int i + 3)))) [0..<length files] (vm_Networks v)))"
proof -
  obtain v where b: "boots E b64 K t v args" "files = map nw_TapDevice (vm_Networks v)" and enc: "Encode (pe_encVmdata E) v = Inr bs"
    and ty: "ty = unat msgVmdata" by (rule proxy_run_same_data [OF assms(1-5)])
  have dec: "DecodeDataGob dec bs = Inr v"
    using enc assms(6) by (auto simp: Encode_def DecodeDataGob_def recovers_def split: option.splits)
  obtain share u u' where args: "qemuArgs (pe_arch E) v vmsocket share K u = (Ret args, u')" using boots_args [OF b(1)] by blast
  from qemuArgs_devices [OF args boots_disks [OF b(1) assms(7,8)]] dec ty b(2) show ?thesis by (intro exI [of _ v]) simp
qed

theorem init_is_told_of_the_machine_witness:
  "\<exists>E r es e1 e2 path args attrs files ty bs dec v. proxy_run E [] vm_host [] = (r, [] @ es) \<and> e1 \<in> set es
    \<and> ev_call e1 = Proc (StartProcess path args attrs files) \<and> e2 \<in> set es \<and> ev_call e2 = Proc (SendMsg ty bs)
    \<and> recovers (pe_encVmdata E) dec \<and> DecodeDataGob dec bs = Inr v \<and> files = map nw_TapDevice (vm_Networks v)"
proof -
  obtain v where v: "\<forall>enc bs. enc v = Some bs \<longrightarrow> yields vm_host (proxy_run (demo_proxy\<lparr>pe_encVmdata := enc\<rparr>) []) (42, None)"
    using demo_proxy_run_enc by blast
  define E where "E = demo_proxy\<lparr>pe_encVmdata := (\<lambda>w. if w = v then Some [] else None)\<rparr>"
  have dec: "recovers (pe_encVmdata E) (\<lambda>bs. Some v)" by (simp add: E_def recovers_def)
  have data: "ZipDecodeBase64 (pe_decVmdata E) (pe_gunzip E) [] = Inr demo_run" "\<forall>d\<in>set (vm_Disks demo_run). plain (disk_Path d)"
    using demo_proxy_decodes by (simp_all add: E_def demo_run_def)
  have "yields vm_host (proxy_run E []) (42, None)" using v by (simp add: E_def)
  then obtain es where run: "proxy_run E [] vm_host [] = (Ret (42, None), [] @ es)" by (auto dest: yieldsD)
  then obtain e1 e2 path args attrs files ty bs where e: "e1 \<in> set es" "ev_call e1 = Proc (StartProcess path args attrs files)"
    "e2 \<in> set es" "ev_call e2 = Proc (SendMsg ty bs)" using postD [OF proxy_run_started run] by (auto simp: started_def)
  from init_is_told_of_the_machine [OF run e dec data] run e dec show ?thesis by blast
qed

text \<open>
  C28: The disk that init finds is the disk that was meant. QEMU shows each disk of its command line to the
  guest as a block device with the serial number given there; \<open>backing\<close> says which file is behind a
  block device. If the serial numbers differ, the device that init finds for a disk of the data is
  backed by the file of this disk.
\<close>

theorem found_disk_is_the_disk:
  assumes "qemuArgs arch v socket share K t = (Ret args, t')" and "readOpts (tl args) = Some os"
    and "\<forall>d\<in>set (vm_Disks v). plainDisk d" and "\<forall>nw\<in>set (vm_Networks v). plain (nw_MacAddress nw)"
    and "distinct (map disk_Serial (vm_Disks v))" and "d \<in> set (vm_Disks v)"
    and shown: "\<And>u name buf. k_file G u (filepath_Join [''/sys/block'', name, ''serial'']) = Inr (buf, None) \<Longrightarrow>
      (Some (TrimSpace buf), Some (backing name)) \<in> set (guestDisks os)"
    and "findDisk (disk_Serial d) G u = (Ret name, u')" and "name \<noteq> []"
  shows "backing name = disk_Path d"
proof -
  obtain w buf where "k_file G w (filepath_Join [''/sys/block'', name, ''serial'']) = Inr (buf, None)" "TrimSpace buf = disk_Serial d"
    using disk_found_by_serial [OF assms(8,9)] by blast
  then have "(Some (disk_Serial d), Some (backing name)) \<in> set (guestDisks os)" using shown by metis
  moreover have "guestDisks os = map (\<lambda>d. (Some (disk_Serial d), Some (disk_Path d))) (vm_Disks v)"
    using qemuArgs_devices [OF assms(1,3,4)] assms(2) by auto
  ultimately obtain d' where "d' \<in> set (vm_Disks v)" "disk_Serial d' = disk_Serial d" "backing name = disk_Path d'" by auto
  with assms(5,6) show ?thesis by (metis distinct_map inj_onD)
qed


definition demo_guest :: kernel where
  "demo_guest = quiet_kernel\<lparr>k_dirents := (\<lambda>t p. Inr [(''loop0'', True), (''vda'', True)]),
     k_file := (\<lambda>t p. Inr (''000102030405'' @ [CHR 10], None))\<rparr>"

theorem found_disk_is_the_disk_witness:
  "\<exists>t'. findDisk ''000102030405'' demo_guest [] = (Ret ''vda'', t')
    \<and> (\<lambda>name. ''/dev/runq/d1/none/ext4/data'') ''vda'' = disk_Path (hd (vm_Disks demo_vm))"
proof -
  let ?b = "\<lambda>name :: string. ''/dev/runq/d1/none/ext4/data''"
  obtain args t' where run: "qemuArgs S390x demo_vm ''/dev/runq.sock'' ''/rootfs'' quiet_kernel [] = (Ret args, t')"
    using demo_vm_args by blast
  have plain: "\<forall>d\<in>set (vm_Disks demo_vm). plainDisk d" "\<forall>nw\<in>set (vm_Networks demo_vm). plain (nw_MacAddress nw)"
    by (simp_all add: demo_vm_def plainDisk_def)
  obtain os where os: "readOpts (tl args) = Some os" "guestDisks os = map (\<lambda>d. (Some (disk_Serial d), Some (disk_Path d))) (vm_Disks demo_vm)"
    using qemuArgs_devices [OF run plain] by blast
  have trim: "TrimSpace (''000102030405'' @ [CHR 10]) = ''000102030405''" by code_simp
  have d: "distinct (map disk_Serial (vm_Disks demo_vm))" "hd (vm_Disks demo_vm) \<in> set (vm_Disks demo_vm)"
    "disk_Serial (hd (vm_Disks demo_vm)) = ''000102030405''" by (simp_all add: demo_vm_def)
  have shown: "(Some (TrimSpace buf), Some (?b name)) \<in> set (guestDisks os)"
    if "k_file demo_guest u (filepath_Join [''/sys/block'', name, ''serial'']) = Inr (buf, None)" for u name buf
  proof -
    from that have "buf = ''000102030405'' @ [CHR 10]" by (simp add: demo_guest_def)
    with trim os(2) show ?thesis by (simp add: demo_vm_def)
  qed
  obtain u where f: "findDisk ''000102030405'' demo_guest [] = (Ret ''vda'', u)"
    using trim by (simp add: findDisk_def ioutil_ReadDir_def ioutil_ReadFile_def os_Open_def io_defs demo_guest_def HasPrefix_def)
  from found_disk_is_the_disk [where G = demo_guest and backing = ?b, OF run os(1) plain d(1,2) shown f [folded d(3)]] f show ?thesis by simp
qed

end
